theory Spec2Isabelle
  imports Complex_Main
begin

section \<open>Dense vectors and matrices\<close>

text \<open>
  The program computes on Eigen's dense \<open>Vector\<close> and \<open>Matrix\<close> of doubles. The model takes
  the coefficients as real numbers: a vector is the list of its coefficients, a matrix
  is its row count together with the list of its columns (Eigen's default column-major
  view), so that a matrix with no column still has a row count, as
  \<open>Matrix::Zero(r, 0)\<close> has. Sizes and indices that the source keeps in \<open>int\<close> and
  \<open>size_t\<close> are natural numbers here, except where the source computes an index that
  can be negative.

  The arithmetic of Eigen (sum, difference, products) is modelled by total functions on
  lists. Eigen itself refuses operands of different shapes; the shapes that
  \<open>CollectAllParameters\<close> allocates make every operation of the program well shaped,
  and the theorems below say where they rely on those shapes.
\<close>

type_synonym Vector = "real list"

record Matrix =
  rows :: nat
  columns :: "Vector list"

definition cols :: "Matrix \<Rightarrow> nat" where
  "cols M = length (columns M)"

definition coeff :: "Matrix \<Rightarrow> nat \<Rightarrow> nat \<Rightarrow> real" where
  "coeff M i j = columns M ! j ! i"

definition Vector_Zero :: "nat \<Rightarrow> Vector" where
  "Vector_Zero n = replicate n 0"

definition Matrix_Zero :: "nat \<Rightarrow> nat \<Rightarrow> Matrix" where
  "Matrix_Zero r c = \<lparr>rows = r, columns = replicate c (Vector_Zero r)\<rparr>"

definition vadd :: "Vector \<Rightarrow> Vector \<Rightarrow> Vector" where
  "vadd u v = map2 (+) u v"

definition vsub :: "Vector \<Rightarrow> Vector \<Rightarrow> Vector" where
  "vsub u v = map2 (-) u v"

definition smul :: "real \<Rightarrow> Vector \<Rightarrow> Vector" where
  "smul a v = map ((*) a) v"

definition cwise_mul :: "Vector \<Rightarrow> Vector \<Rightarrow> Vector" where
  "cwise_mul u v = map2 (*) u v"

definition madd :: "Matrix \<Rightarrow> Matrix \<Rightarrow> Matrix" where
  "madd A B = \<lparr>rows = rows A, columns = map2 vadd (columns A) (columns B)\<rparr>"

definition msub :: "Matrix \<Rightarrow> Matrix \<Rightarrow> Matrix" where
  "msub A B = \<lparr>rows = rows A, columns = map2 vsub (columns A) (columns B)\<rparr>"

definition msmul :: "real \<Rightarrow> Matrix \<Rightarrow> Matrix" where
  "msmul a A = \<lparr>rows = rows A, columns = map (smul a) (columns A)\<rparr>"

text \<open>\<open>A * v\<close>: coefficient \<open>i\<close> is the sum over the columns \<open>j\<close> of \<open>A(i,j) * v(j)\<close>.\<close>

definition mat_vec :: "Matrix \<Rightarrow> Vector \<Rightarrow> Vector" where
  "mat_vec A v = map (\<lambda>i. \<Sum>j<cols A. coeff A i j * v ! j) [0..<rows A]"

text \<open>\<open>A.transpose() * v\<close>: coefficient \<open>j\<close> is the sum over the rows \<open>i\<close> of \<open>A(i,j) * v(i)\<close>.\<close>

definition transpose_vec :: "Matrix \<Rightarrow> Vector \<Rightarrow> Vector" where
  "transpose_vec A v = map (\<lambda>j. \<Sum>i<rows A. coeff A i j * v ! i) [0..<cols A]"

text \<open>\<open>u * v.transpose()\<close>: the matrix whose coefficient \<open>(i,j)\<close> is \<open>u(i) * v(j)\<close>.\<close>

definition outer :: "Vector \<Rightarrow> Vector \<Rightarrow> Matrix" where
  "outer u v = \<lparr>rows = length u, columns = map (\<lambda>b. map (\<lambda>a. a * b) u) v\<rparr>"

section \<open>Failures and loops\<close>

text \<open>
  Two ways of not returning: the assertion of the source's own
  (\<open>assert(wid >= 0 && wid < E_.cols())\<close>), and an access outside a vector or a matrix,
  which the source does not check and C++ leaves undefined.
\<close>

datatype error = AssertionFailed | OutOfRange

definition and_then :: "error + 'a \<Rightarrow> ('a \<Rightarrow> error + 'b) \<Rightarrow> error + 'b" where
  "and_then r f = (case r of Inl e \<Rightarrow> Inl e | Inr v \<Rightarrow> f v)"

text \<open>A \<open>for\<close> loop over the given indices, in order, that stops at the first failure.\<close>

fun for_loop :: "nat list \<Rightarrow> (nat \<Rightarrow> 'st \<Rightarrow> error + 'st) \<Rightarrow> 'st \<Rightarrow> error + 'st" where
  "for_loop [] body st = Inr st"
| "for_loop (t # ts) body st = and_then (body t st) (for_loop ts body)"

text \<open>\<open>M.col(t)\<close>, read and written; the index is the source's \<open>int\<close>.\<close>

definition col :: "Matrix \<Rightarrow> int \<Rightarrow> error + Vector" where
  "col M t = (if 0 \<le> t \<and> t < int (cols M) then Inr (columns M ! nat t) else Inl OutOfRange)"

definition set_col :: "Matrix \<Rightarrow> int \<Rightarrow> Vector \<Rightarrow> error + Matrix" where
  "set_col M t v =
     (if 0 \<le> t \<and> t < int (cols M) then Inr (M\<lparr>columns := (columns M)[nat t := v]\<rparr>)
      else Inl OutOfRange)"

section \<open>The embedding table: class LookupLayer\<close>

text \<open>
  \<open>Input\<close> is declared in \<open>snli_data.h\<close>; the program reads only its word id.
  \<open>Dictionary\<close> is read only through \<open>GetNumWords()\<close>. The members of the classes
  are written with \<open>_m\<close> for the trailing underscore of the source.
\<close>

datatype Input = Input (wid: int)

record Dictionary =
  GetNumWords :: nat

record LookupLayer =
  embedding_dimension_m :: nat
  dictionary_m :: Dictionary
  E_m :: Matrix

definition LookupLayer_CollectAllParameters :: "LookupLayer \<Rightarrow> LookupLayer" where
  "LookupLayer_CollectAllParameters L =
     L\<lparr>E_m := Matrix_Zero (embedding_dimension_m L) (GetNumWords (dictionary_m L) + 1)\<rparr>"

definition RunForwardLookupLayer_body ::
  "LookupLayer \<Rightarrow> Input list \<Rightarrow> nat \<Rightarrow> Matrix \<Rightarrow> error + Matrix" where
  "RunForwardLookupLayer_body L input_sequence t x =
     (let w = 1 + wid (input_sequence ! t) in
      if w \<ge> 0 \<and> w < int (cols (E_m L))
      then and_then (col (E_m L) w) (set_col x (int t))
      else Inl AssertionFailed)"

definition RunForwardLookupLayer :: "LookupLayer \<Rightarrow> Input list \<Rightarrow> error + Matrix" where
  "RunForwardLookupLayer L input_sequence =
     for_loop [0..<length input_sequence] (RunForwardLookupLayer_body L input_sequence)
       (Matrix_Zero (embedding_dimension_m L) (length input_sequence))"

definition RunBackwardLookupLayer_body ::
  "Input list \<Rightarrow> Matrix \<Rightarrow> real \<Rightarrow> nat \<Rightarrow> Matrix \<Rightarrow> error + Matrix" where
  "RunBackwardLookupLayer_body input_sequence dX learning_rate t Em =
     (let w = 1 + wid (input_sequence ! t) in
      and_then (col dX (int t)) (\<lambda>d.
      and_then (col Em w) (\<lambda>e.
      set_col Em w (vsub e (smul learning_rate d)))))"

definition RunBackwardLookupLayer ::
  "LookupLayer \<Rightarrow> Input list \<Rightarrow> Matrix \<Rightarrow> real \<Rightarrow> error + LookupLayer" where
  "RunBackwardLookupLayer L input_sequence dX learning_rate =
     and_then
       (for_loop [0..<length input_sequence]
          (RunBackwardLookupLayer_body input_sequence dX learning_rate) (E_m L))
       (\<lambda>Em. Inr (L\<lparr>E_m := Em\<rparr>))"

section \<open>The collaborators of \<open>nn_utils.h\<close> and of the C library\<close>

text \<open>
  \<open>EvaluateActivation\<close>, \<open>DerivateActivation\<close> and the constant
  \<open>ActivationFunctions::LOGISTIC\<close> are declared in \<open>nn_utils.h\<close>. The cell is
  modelled for any such collaborator: every function of the cell takes it as its first
  argument.
\<close>

record nn_utils =
  LOGISTIC :: int
  EvaluateActivation :: "int \<Rightarrow> Vector \<Rightarrow> Vector"
  DerivateActivation :: "int \<Rightarrow> Vector \<Rightarrow> Vector"

text \<open>
  Modelled from the spec: \<open>LogSumExp\<close> of \<open>nn_utils.h\<close> is not among the sources.
  The spec gives \<open>logsum = log(\<Sigma> exp(y_i - max(y))) + max(y)\<close>.
\<close>

definition maxCoeff :: "Vector \<Rightarrow> real" where
  "maxCoeff v = fold max v (hd v)"

definition LogSumExp :: "Vector \<Rightarrow> real" where
  "LogSumExp y = ln (\<Sum>a\<leftarrow>y. exp (a - maxCoeff y)) + maxCoeff y"

text \<open>
  \<open>srand\<close>, \<open>rand\<close> and \<open>RAND_MAX\<close> of the C library: a generator state of
  some type \<open>'g\<close>, set by \<open>srand\<close> from the seed and advanced by every \<open>rand()\<close>.
\<close>

record 'g stdlib =
  srand :: "nat \<Rightarrow> 'g"
  rand :: "'g \<Rightarrow> int \<times> 'g"
  RAND_MAX :: int

section \<open>The plain recurrent cell: class RNN\<close>

text \<open>
  The member \<open>dictionary_\<close> of \<open>RNN\<close> is the pointer that the constructor hands to
  the lookup layer, where the model keeps it.
\<close>

record RNN =
  activation_function_m :: int
  lookup_layer_m :: LookupLayer
  hidden_size_m :: nat
  output_size_m :: nat
  use_hidden_start_m :: bool
  Wxh_m :: Matrix
  Whh_m :: Matrix
  Why_m :: Matrix
  bh_m :: Vector
  by_m :: Vector
  h0_m :: Vector
  x_m :: Matrix
  h_m :: Matrix
  y_m :: Vector
  p_m :: Vector

text \<open>
  The constructor. The matrices and vectors it does not mention are default constructed,
  that is empty.
\<close>

definition RNN_new :: "nn_utils \<Rightarrow> Dictionary \<Rightarrow> nat \<Rightarrow> nat \<Rightarrow> nat \<Rightarrow> RNN" where
  "RNN_new nn dict embedding_dimension hidden_size output_size =
     \<lparr>activation_function_m = LOGISTIC nn,
      lookup_layer_m = \<lparr>embedding_dimension_m = embedding_dimension, dictionary_m = dict,
                        E_m = Matrix_Zero 0 0\<rparr>,
      hidden_size_m = hidden_size,
      output_size_m = output_size,
      use_hidden_start_m = True,
      Wxh_m = Matrix_Zero 0 0, Whh_m = Matrix_Zero 0 0, Why_m = Matrix_Zero 0 0,
      bh_m = [], by_m = [], h0_m = [],
      x_m = Matrix_Zero 0 0, h_m = Matrix_Zero 0 0, y_m = [], p_m = []\<rparr>"

definition GetInputSize :: "RNN \<Rightarrow> nat" where
  "GetInputSize s = embedding_dimension_m (lookup_layer_m s)"

subsection \<open>The forward pass\<close>

definition RunForwardPass_body ::
  "nn_utils \<Rightarrow> RNN \<Rightarrow> nat \<Rightarrow> Matrix \<times> Vector \<Rightarrow> error + Matrix \<times> Vector" where
  "RunForwardPass_body nn s t st =
     (case st of (h, hprev) \<Rightarrow>
      and_then (col (x_m s) (int t)) (\<lambda>xt.
      let result = EvaluateActivation nn (activation_function_m s)
                     (vadd (vadd (mat_vec (Wxh_m s) xt) (bh_m s)) (mat_vec (Whh_m s) hprev))
      in and_then (set_col h (int t) result) (\<lambda>h'.
         and_then (col h' (int t)) (\<lambda>hprev'. Inr (h', hprev')))))"

definition RunForwardPass :: "nn_utils \<Rightarrow> RNN \<Rightarrow> Input list \<Rightarrow> error + RNN" where
  "RunForwardPass nn s input_sequence =
     and_then (RunForwardLookupLayer (lookup_layer_m s) input_sequence) (\<lambda>x.
     let s1 = s\<lparr>x_m := x\<rparr>;
         hidden_size = rows (Whh_m s1);
         h = Matrix_Zero hidden_size (length input_sequence);
         hprev = (if use_hidden_start_m s1 then h0_m s1 else Vector_Zero (rows h))
     in and_then (for_loop [0..<length input_sequence] (RunForwardPass_body nn s1) (h, hprev))
          (\<lambda>st. case st of (h', hprev') \<Rightarrow>
             let t = int (length input_sequence) - 1
             in and_then (col h' t) (\<lambda>ht.
                let y = vadd (mat_vec (Why_m s1) ht) (by_m s1);
                    logsum = LogSumExp y;
                    p = map (\<lambda>a. exp (a - logsum)) y
                in Inr (s1\<lparr>h_m := h', y_m := y, p_m := p\<rparr>))))"

text \<open>\<open>p_.maxCoeff(&prediction)\<close>: the first index of a largest coefficient.\<close>

definition maxCoeff_index :: "Vector \<Rightarrow> nat" where
  "maxCoeff_index v = hd (filter (\<lambda>i. v ! i = maxCoeff v) [0..<length v])"

definition Run :: "nn_utils \<Rightarrow> RNN \<Rightarrow> Input list \<Rightarrow> error + RNN \<times> nat" where
  "Run nn s input_sequence =
     and_then (RunForwardPass nn s input_sequence) (\<lambda>s'.
       if p_m s' = [] then Inl OutOfRange else Inr (s', maxCoeff_index (p_m s')))"

subsection \<open>The backward pass\<close>

text \<open>The local accumulators of \<open>RunBackwardPass\<close>.\<close>

record gradients =
  dWhy :: Matrix
  dWhh :: Matrix
  dWxh :: Matrix
  dby :: Vector
  dbh :: Vector
  dhnext :: Vector
  dx :: Matrix

text \<open>\<open>dy[output_label] -= 1.0\<close>, on a copy of \<open>p_\<close>.\<close>

definition decrement_at :: "Vector \<Rightarrow> int \<Rightarrow> error + Vector" where
  "decrement_at v l =
     (if 0 \<le> l \<and> l < int (length v) then Inr (v[nat l := v ! nat l - 1]) else Inl OutOfRange)"

definition RunBackwardPass_body :: "nn_utils \<Rightarrow> RNN \<Rightarrow> nat \<Rightarrow> gradients \<Rightarrow> error + gradients" where
  "RunBackwardPass_body nn s t g =
     (let dh = dhnext g in
      and_then (col (h_m s) (int t)) (\<lambda>ht.
      let dhraw = cwise_mul (DerivateActivation nn (activation_function_m s) ht) dh in
      and_then (col (x_m s) (int t)) (\<lambda>xt.
      let g1 = g\<lparr>dWxh := madd (dWxh g) (outer dhraw xt), dbh := vadd (dbh g) dhraw\<rparr> in
      and_then
        (if t > 0
         then and_then (col (h_m s) (int t - 1)) (\<lambda>hp.
                Inr (g1\<lparr>dWhh := madd (dWhh g1) (outer dhraw hp)\<rparr>))
         else Inr g1) (\<lambda>g2.
      let g3 = g2\<lparr>dhnext := transpose_vec (Whh_m s) dhraw\<rparr> in
      and_then (set_col (dx g3) (int t) (transpose_vec (Wxh_m s) dhraw)) (\<lambda>dx'.
      Inr (g3\<lparr>dx := dx'\<rparr>))))))"

text \<open>
  The first part of \<open>RunBackwardPass\<close>, up to the end of its loop: the accumulators
  as they stand before the parameters are updated.
\<close>

definition RunBackwardPass_gradients ::
  "nn_utils \<Rightarrow> RNN \<Rightarrow> Input list \<Rightarrow> int \<Rightarrow> error + gradients" where
  "RunBackwardPass_gradients nn s input_sequence output_label =
     (let g0 = \<lparr>dWhy = Matrix_Zero (rows (Why_m s)) (cols (Why_m s)),
                 dWhh = Matrix_Zero (rows (Whh_m s)) (cols (Whh_m s)),
                 dWxh = Matrix_Zero (rows (Wxh_m s)) (cols (Wxh_m s)),
                 dby = Vector_Zero (rows (Why_m s)),
                 dbh = Vector_Zero (rows (Whh_m s)),
                 dhnext = Vector_Zero (rows (Whh_m s)),
                 dx = Matrix_Zero (GetInputSize s) (length input_sequence)\<rparr>;
          t = int (length input_sequence) - 1
      in and_then (decrement_at (p_m s) output_label) (\<lambda>dy.
         and_then (col (h_m s) t) (\<lambda>ht.
         let g1 = g0\<lparr>dWhy := madd (dWhy g0) (outer dy ht),
                      dby := vadd (dby g0) dy,
                      dhnext := vadd (dhnext g0) (transpose_vec (Why_m s) dy)\<rparr>
         in for_loop (rev [0..<length input_sequence]) (RunBackwardPass_body nn s) g1)))"

definition RunBackwardPass ::
  "nn_utils \<Rightarrow> RNN \<Rightarrow> Input list \<Rightarrow> int \<Rightarrow> real \<Rightarrow> error + RNN" where
  "RunBackwardPass nn s input_sequence output_label learning_rate =
     and_then (RunBackwardPass_gradients nn s input_sequence output_label) (\<lambda>g.
     let s1 = s\<lparr>Why_m := msub (Why_m s) (msmul learning_rate (dWhy g)),
                  by_m := vsub (by_m s) (smul learning_rate (dby g)),
                  Wxh_m := msub (Wxh_m s) (msmul learning_rate (dWxh g)),
                  bh_m := vsub (bh_m s) (smul learning_rate (dbh g)),
                  Whh_m := msub (Whh_m s) (msmul learning_rate (dWhh g))\<rparr>;
         s2 = (if use_hidden_start_m s1
               then s1\<lparr>h0_m := vsub (h0_m s1) (smul learning_rate (dhnext g))\<rparr>
               else s1)
     in and_then (RunBackwardLookupLayer (lookup_layer_m s2) input_sequence (dx g) learning_rate)
          (\<lambda>L. Inr (s2\<lparr>lookup_layer_m := L\<rparr>)))"

text \<open>\<open>double loss = -log(p_(output_labels[i]))\<close> of \<open>TrainEpoch\<close>.\<close>

definition loss :: "RNN \<Rightarrow> nat \<Rightarrow> real" where
  "loss s l = - ln (p_m s ! l)"

subsection \<open>Collecting and initialising the parameters\<close>

text \<open>
  \<open>CollectAllParameters\<close> hands out pointers to the members that hold parameters. The
  model names each such member, and reads and writes a member through its name.
\<close>

datatype weight_ref = ref_E | ref_Wxh | ref_Whh | ref_Why

datatype bias_ref = ref_bh | ref_by | ref_h0

fun weight_at :: "RNN \<Rightarrow> weight_ref \<Rightarrow> Matrix" where
  "weight_at s ref_E = E_m (lookup_layer_m s)"
| "weight_at s ref_Wxh = Wxh_m s"
| "weight_at s ref_Whh = Whh_m s"
| "weight_at s ref_Why = Why_m s"

fun weight_store :: "weight_ref \<Rightarrow> Matrix \<Rightarrow> RNN \<Rightarrow> RNN" where
  "weight_store ref_E M s = s\<lparr>lookup_layer_m := (lookup_layer_m s)\<lparr>E_m := M\<rparr>\<rparr>"
| "weight_store ref_Wxh M s = s\<lparr>Wxh_m := M\<rparr>"
| "weight_store ref_Whh M s = s\<lparr>Whh_m := M\<rparr>"
| "weight_store ref_Why M s = s\<lparr>Why_m := M\<rparr>"

fun bias_at :: "RNN \<Rightarrow> bias_ref \<Rightarrow> Vector" where
  "bias_at s ref_bh = bh_m s"
| "bias_at s ref_by = by_m s"
| "bias_at s ref_h0 = h0_m s"

fun bias_store :: "bias_ref \<Rightarrow> Vector \<Rightarrow> RNN \<Rightarrow> RNN" where
  "bias_store ref_bh v s = s\<lparr>bh_m := v\<rparr>"
| "bias_store ref_by v s = s\<lparr>by_m := v\<rparr>"
| "bias_store ref_h0 v s = s\<lparr>h0_m := v\<rparr>"

record parameters =
  weights :: "weight_ref list"
  biases :: "bias_ref list"
  weight_names :: "string list"
  bias_names :: "string list"

definition CollectAllParameters :: "RNN \<Rightarrow> RNN \<times> parameters" where
  "CollectAllParameters s =
     (let s1 = s\<lparr>Wxh_m := Matrix_Zero (hidden_size_m s) (GetInputSize s),
                  Whh_m := Matrix_Zero (hidden_size_m s) (hidden_size_m s),
                  Why_m := Matrix_Zero (output_size_m s) (hidden_size_m s),
                  bh_m := Vector_Zero (hidden_size_m s),
                  by_m := Vector_Zero (output_size_m s)\<rparr>;
          s2 = (if use_hidden_start_m s1 then s1\<lparr>h0_m := Vector_Zero (hidden_size_m s1)\<rparr> else s1);
          s3 = s2\<lparr>lookup_layer_m := LookupLayer_CollectAllParameters (lookup_layer_m s2)\<rparr>
      in (s3,
          \<lparr>weights = [ref_E, ref_Wxh, ref_Whh, ref_Why],
           biases = [ref_bh, ref_by] @ (if use_hidden_start_m s3 then [ref_h0] else []),
           weight_names = [''embeddings'', ''Wxh'', ''Whh'', ''Why''],
           bias_names = [''bh'', ''by''] @ (if use_hidden_start_m s3 then [''h0''] else [])\<rparr>))"

text \<open>\<open>(*W)(i, j) = t\<close>, inside the loops over the rows and the columns of \<open>W\<close>.\<close>

definition set_coeff :: "Matrix \<Rightarrow> nat \<Rightarrow> nat \<Rightarrow> real \<Rightarrow> Matrix" where
  "set_coeff M i j v = M\<lparr>columns := (columns M)[j := (columns M ! j)[i := v]]\<rparr>"

definition fill_coeff ::
  "'g stdlib \<Rightarrow> real \<Rightarrow> nat \<Rightarrow> nat \<Rightarrow> Matrix \<times> 'g \<Rightarrow> Matrix \<times> 'g" where
  "fill_coeff lib mx i j st =
     (case st of (W, gen) \<Rightarrow>
      (case rand lib gen of (r, gen') \<Rightarrow>
       let t = mx * (2 * real_of_int r / real_of_int (RAND_MAX lib) - 1)
       in (set_coeff W i j t, gen')))"

definition fill_weight :: "'g stdlib \<Rightarrow> nn_utils \<Rightarrow> weight_ref \<Rightarrow> RNN \<times> 'g \<Rightarrow> RNN \<times> 'g" where
  "fill_weight lib nn w st =
     (case st of (s, gen) \<Rightarrow>
      let W = weight_at s w;
          num_outputs = rows W;
          num_inputs = cols W;
          coeff = (if activation_function_m s = LOGISTIC nn then 4 else 1);
          mx = coeff * sqrt (6 / real (num_inputs + num_outputs))
      in (case fold (\<lambda>i. fold (fill_coeff lib mx i) [0..<cols W]) [0..<rows W] (W, gen)
          of (W', gen') \<Rightarrow> (weight_store w W' s, gen')))"

text \<open>
  \<open>InitializeParameters\<close>. Its flag \<open>read_from_file\<close> is the constant \<open>false\<close>, so
  the branch that loads the parameters from files is never taken. The result is the cell
  together with the state in which the call leaves the generator.
\<close>

definition InitializeParameters :: "'g stdlib \<Rightarrow> nn_utils \<Rightarrow> RNN \<Rightarrow> RNN \<times> 'g" where
  "InitializeParameters lib nn s =
     (let gen = srand lib 1234 in
      case CollectAllParameters s of (s1, ps) \<Rightarrow>
      let s2 = fold (\<lambda>b s'. bias_store b (Vector_Zero (length (bias_at s' b))) s') (biases ps) s1
      in fold (fill_weight lib nn) (weights ps) (s2, gen))"

section \<open>Notions used to state the properties\<close>

subsection \<open>The embedding table\<close>

text \<open>The condition that the assertion of \<open>RunForwardLookupLayer\<close> tests for one token.\<close>

definition wid_ok :: "LookupLayer \<Rightarrow> Input \<Rightarrow> bool" where
  "wid_ok L inp = (1 + wid inp \<ge> 0 \<and> 1 + wid inp < int (cols (E_m L)))"

text \<open>The precondition of the spec: the id of the token lies in \<open>[0, V)\<close>.\<close>

definition id_in_vocabulary :: "LookupLayer \<Rightarrow> Input \<Rightarrow> bool" where
  "id_in_vocabulary L inp = (0 \<le> wid inp \<and> wid inp < int (GetNumWords (dictionary_m L)))"

definition lookup_column :: "LookupLayer \<Rightarrow> Input \<Rightarrow> Vector" where
  "lookup_column L inp = columns (E_m L) ! nat (wid inp + 1)"

text \<open>
  The update of the spec, in its words: for each \<open>t\<close>,
  \<open>E[:, token[t].id+1] -= rate * dX[:,t]\<close>, one position after the other.
\<close>

definition spec_Update_step :: "Input list \<Rightarrow> Matrix \<Rightarrow> real \<Rightarrow> nat \<Rightarrow> Matrix \<Rightarrow> Matrix" where
  "spec_Update_step sequence dX rate t Em =
     (let c = nat (wid (sequence ! t) + 1)
      in Em\<lparr>columns := (columns Em)[c := vsub (columns Em ! c) (smul rate (columns dX ! t))]\<rparr>)"

definition spec_Update :: "Matrix \<Rightarrow> Input list \<Rightarrow> Matrix \<Rightarrow> real \<Rightarrow> Matrix" where
  "spec_Update Em sequence dX rate =
     fold (spec_Update_step sequence dX rate) [0..<length sequence] Em"

text \<open>The sum of a list of vectors of \<open>r\<close> coefficients each.\<close>

definition vsum :: "nat \<Rightarrow> Vector list \<Rightarrow> Vector" where
  "vsum r vs = foldl vadd (Vector_Zero r) vs"

text \<open>The positions of a sequence whose token is looked up in column \<open>c\<close>.\<close>

definition occurrences :: "Input list \<Rightarrow> nat \<Rightarrow> nat list" where
  "occurrences sequence c =
     filter (\<lambda>t. nat (wid (sequence ! t) + 1) = c) [0..<length sequence]"

text \<open>A matrix of \<open>r\<close> rows and \<open>c\<close> columns, each column holding \<open>r\<close> coefficients.\<close>

definition has_shape :: "Matrix \<Rightarrow> nat \<Rightarrow> nat \<Rightarrow> bool" where
  "has_shape M r c = (rows M = r \<and> cols M = c \<and> list_all (\<lambda>v. length v = r) (columns M))"

subsection \<open>A small cell\<close>

text \<open>
  Modelled from the spec: the logistic sigmoid, the one kind of activation that the spec
  requires of the activation collaborator, with its derivative taken at the activated
  value.
\<close>

definition logistic :: "real \<Rightarrow> real" where
  "logistic a = 1 / (1 + exp (- a))"

definition logistic_nn :: nn_utils where
  "logistic_nn =
     \<lparr>LOGISTIC = 1,
      EvaluateActivation = (\<lambda>kind. map logistic),
      DerivateActivation = (\<lambda>kind. map (\<lambda>a. a * (1 - a)))\<rparr>"

text \<open>
  The cell of the end-to-end scenario of the spec: three words, embeddings of dimension
  two, two hidden units and two classes.
\<close>

definition example_lookup :: LookupLayer where
  "example_lookup =
     \<lparr>embedding_dimension_m = 2, dictionary_m = \<lparr>GetNumWords = 3\<rparr>,
      E_m = \<lparr>rows = 2, columns = [[0, 0], [1, 2], [3, 4], [5, 6]]\<rparr>\<rparr>"

definition example_rnn :: RNN where
  "example_rnn =
     \<lparr>activation_function_m = 1,
      lookup_layer_m = example_lookup,
      hidden_size_m = 2,
      output_size_m = 2,
      use_hidden_start_m = True,
      Wxh_m = \<lparr>rows = 2, columns = [[1, 0], [0, 1]]\<rparr>,
      Whh_m = \<lparr>rows = 2, columns = [[0, 1], [1, 0]]\<rparr>,
      Why_m = \<lparr>rows = 2, columns = [[1, 0], [0, 1]]\<rparr>,
      bh_m = [0, 0], by_m = [0, 0], h0_m = [0, 0],
      x_m = Matrix_Zero 0 0, h_m = Matrix_Zero 0 0, y_m = [], p_m = []\<rparr>"

definition example_sequence :: "Input list" where
  "example_sequence = [Input 0, Input 1]"

subsection \<open>The forward pass of the spec\<close>

text \<open>
  The spec's recurrence: \<open>h_prev\<close> is \<open>h0\<close> when the learned initial state is
  enabled and zero otherwise, then the previous column;
  \<open>h[:,t] = Activate(Wxh\<cdot>X[:,t] + bh + Whh\<cdot>h_prev)\<close>. \<open>spec_hprev n\<close> is the
  \<open>h_prev\<close> with which step \<open>n\<close> starts.
\<close>

fun spec_hprev :: "nn_utils \<Rightarrow> RNN \<Rightarrow> Matrix \<Rightarrow> nat \<Rightarrow> Vector" where
  "spec_hprev nn s X 0 = (if use_hidden_start_m s then h0_m s else Vector_Zero (rows (Whh_m s)))"
| "spec_hprev nn s X (Suc t) =
     EvaluateActivation nn (activation_function_m s)
       (vadd (vadd (mat_vec (Wxh_m s) (columns X ! t)) (bh_m s))
             (mat_vec (Whh_m s) (spec_hprev nn s X t)))"

definition spec_h :: "nn_utils \<Rightarrow> RNN \<Rightarrow> Matrix \<Rightarrow> nat \<Rightarrow> Vector" where
  "spec_h nn s X t = spec_hprev nn s X (Suc t)"

definition spec_Lookup :: "LookupLayer \<Rightarrow> Input list \<Rightarrow> Matrix" where
  "spec_Lookup L sequence =
     \<lparr>rows = embedding_dimension_m L, columns = map (lookup_column L) sequence\<rparr>"

definition spec_y :: "nn_utils \<Rightarrow> RNN \<Rightarrow> Input list \<Rightarrow> Vector" where
  "spec_y nn s sequence =
     vadd (mat_vec (Why_m s)
             (spec_h nn s (spec_Lookup (lookup_layer_m s) sequence) (length sequence - 1)))
          (by_m s)"

definition spec_p :: "nn_utils \<Rightarrow> RNN \<Rightarrow> Input list \<Rightarrow> Vector" where
  "spec_p nn s sequence =
     (let y = spec_y nn s sequence; logsum = LogSumExp y in map (\<lambda>y_i. exp (y_i - logsum)) y)"

definition spec_Forward :: "nn_utils \<Rightarrow> RNN \<Rightarrow> Input list \<Rightarrow> RNN" where
  "spec_Forward nn s sequence =
     s\<lparr>x_m := spec_Lookup (lookup_layer_m s) sequence,
       h_m := \<lparr>rows = rows (Whh_m s),
               columns = map (spec_h nn s (spec_Lookup (lookup_layer_m s) sequence))
                           [0..<length sequence]\<rparr>,
       y_m := spec_y nn s sequence,
       p_m := spec_p nn s sequence\<rparr>"

subsection \<open>The backward pass of the spec\<close>

text \<open>
  The recurrence of the spec. The seed: \<open>dy = p; dy[l] -= 1\<close>, \<open>dWhy\<close> and \<open>dby\<close>
  receive \<open>dy\<cdot>h[T-1]\<^sup>T\<close> and \<open>dy\<close>, and \<open>dh_next = Why\<^sup>T\<cdot>dy\<close>.
\<close>

definition spec_seed :: "RNN \<Rightarrow> nat \<Rightarrow> nat \<Rightarrow> gradients" where
  "spec_seed s T l =
     (let dy = (p_m s)[l := p_m s ! l - 1]
      in \<lparr>dWhy = outer dy (columns (h_m s) ! (T - 1)),
          dWhh = Matrix_Zero (rows (Whh_m s)) (cols (Whh_m s)),
          dWxh = Matrix_Zero (rows (Wxh_m s)) (cols (Wxh_m s)),
          dby = dy,
          dbh = Vector_Zero (rows (Whh_m s)),
          dhnext = transpose_vec (Why_m s) dy,
          dx = Matrix_Zero (GetInputSize s) T\<rparr>)"

text \<open>
  One step, for \<open>t\<close> from \<open>T-1\<close> down to \<open>0\<close>: \<open>dh = dh_next\<close>;
  \<open>draw = Derivative(h[:,t]) \<odot> dh\<close>; \<open>dWxh += draw\<cdot>X[:,t]\<^sup>T\<close>; \<open>dbh += draw\<close>;
  if \<open>t > 0\<close>, \<open>dWhh += draw\<cdot>h[:,t-1]\<^sup>T\<close>; \<open>dh_next = Whh\<^sup>T\<cdot>draw\<close>;
  \<open>dX[:,t] = Wxh\<^sup>T\<cdot>draw\<close>.
\<close>

definition spec_BPTT_step :: "nn_utils \<Rightarrow> RNN \<Rightarrow> nat \<Rightarrow> gradients \<Rightarrow> gradients" where
  "spec_BPTT_step nn s t g =
     (let dh = dhnext g;
          draw = cwise_mul (DerivateActivation nn (activation_function_m s) (columns (h_m s) ! t)) dh
      in g\<lparr>dWxh := madd (dWxh g) (outer draw (columns (x_m s) ! t)),
            dbh := vadd (dbh g) draw,
            dWhh := (if t > 0 then madd (dWhh g) (outer draw (columns (h_m s) ! (t - 1)))
                     else dWhh g),
            dhnext := transpose_vec (Whh_m s) draw,
            dx := (dx g)\<lparr>columns := (columns (dx g))[t := transpose_vec (Wxh_m s) draw]\<rparr>\<rparr>)"

definition spec_BPTT :: "nn_utils \<Rightarrow> RNN \<Rightarrow> nat \<Rightarrow> nat \<Rightarrow> gradients" where
  "spec_BPTT nn s T l = fold (spec_BPTT_step nn s) (rev [0..<T]) (spec_seed s T l)"

text \<open>
  Plain gradient descent: every accumulated gradient, scaled by the learning rate, is
  subtracted from its parameter; the last \<open>dh_next\<close> is the gradient of \<open>h0\<close> when
  the initial state is learned. Then the embedding update with \<open>dX\<close>.
\<close>

definition spec_SGD :: "RNN \<Rightarrow> gradients \<Rightarrow> real \<Rightarrow> RNN" where
  "spec_SGD s g \<eta> =
     s\<lparr>Why_m := msub (Why_m s) (msmul \<eta> (dWhy g)),
       by_m := vsub (by_m s) (smul \<eta> (dby g)),
       Wxh_m := msub (Wxh_m s) (msmul \<eta> (dWxh g)),
       bh_m := vsub (bh_m s) (smul \<eta> (dbh g)),
       Whh_m := msub (Whh_m s) (msmul \<eta> (dWhh g)),
       h0_m := (if use_hidden_start_m s then vsub (h0_m s) (smul \<eta> (dhnext g)) else h0_m s)\<rparr>"

definition spec_Backward :: "nn_utils \<Rightarrow> RNN \<Rightarrow> Input list \<Rightarrow> nat \<Rightarrow> real \<Rightarrow> RNN" where
  "spec_Backward nn s sequence l \<eta> =
     (let g = spec_BPTT nn s (length sequence) l;
          s' = spec_SGD s g \<eta>
      in s'\<lparr>lookup_layer_m :=
              (lookup_layer_m s)\<lparr>E_m := spec_Update (E_m (lookup_layer_m s)) sequence (dx g) \<eta>\<rparr>\<rparr>)"

text \<open>
  The shapes that \<open>CollectAllParameters\<close> allocates, and the condition on the activation
  collaborator that it returns as many coefficients as it receives.
\<close>

definition shapes_ok :: "RNN \<Rightarrow> bool" where
  "shapes_ok s =
     (has_shape (Wxh_m s) (hidden_size_m s) (GetInputSize s)
      \<and> has_shape (Whh_m s) (hidden_size_m s) (hidden_size_m s)
      \<and> has_shape (Why_m s) (output_size_m s) (hidden_size_m s)
      \<and> length (bh_m s) = hidden_size_m s
      \<and> length (by_m s) = output_size_m s
      \<and> length (h0_m s) = hidden_size_m s
      \<and> has_shape (E_m (lookup_layer_m s)) (GetInputSize s)
            (GetNumWords (dictionary_m (lookup_layer_m s)) + 1))"

definition keeps_length :: "nn_utils \<Rightarrow> int \<Rightarrow> nat \<Rightarrow> bool" where
  "keeps_length nn kind n =
     (\<forall>v. length v = n \<longrightarrow> length (EvaluateActivation nn kind v) = n)"

text \<open>A sequence in which a token occurs twice, and a gradient matrix for it.\<close>

definition example_repeated :: "Input list" where
  "example_repeated = [Input 0, Input 1, Input 0]"

definition example_dX :: Matrix where
  "example_dX = \<lparr>rows = 2, columns = [[10, 20], [30, 40], [50, 60]]\<rparr>"

subsection \<open>Initialisation\<close>

text \<open>
  The generator after \<open>srand(seed)\<close> and \<open>k\<close> calls of \<open>rand()\<close>, the value that
  the next call returns, and that value mapped to \<open>[-1, 1]\<close> as the source maps it:
  \<open>2.0 * rand() / RAND_MAX - 1.0\<close>.
\<close>

fun rand_state :: "'g stdlib \<Rightarrow> nat \<Rightarrow> nat \<Rightarrow> 'g" where
  "rand_state lib seed 0 = srand lib seed"
| "rand_state lib seed (Suc k) = snd (rand lib (rand_state lib seed k))"

definition draw :: "'g stdlib \<Rightarrow> nat \<Rightarrow> nat \<Rightarrow> int" where
  "draw lib seed k = fst (rand lib (rand_state lib seed k))"

definition unit_draw :: "'g stdlib \<Rightarrow> nat \<Rightarrow> nat \<Rightarrow> real" where
  "unit_draw lib seed k = 2 * real_of_int (draw lib seed k) / real_of_int (RAND_MAX lib) - 1"

text \<open>
  The bound of the spec, \<open>max = c\<cdot>sqrt(6/(fan_in+fan_out))\<close>, and the matrix of \<open>r\<close> rows
  and \<open>c\<close> columns filled row by row from draw \<open>k\<close> on.
\<close>

definition spec_max :: "nn_utils \<Rightarrow> RNN \<Rightarrow> nat \<Rightarrow> nat \<Rightarrow> real" where
  "spec_max nn s fan_in fan_out =
     (if activation_function_m s = LOGISTIC nn then 4 else 1) * sqrt (6 / real (fan_in + fan_out))"

definition scaled_uniform :: "'g stdlib \<Rightarrow> real \<Rightarrow> nat \<Rightarrow> nat \<Rightarrow> nat \<Rightarrow> Matrix" where
  "scaled_uniform lib mx r c k =
     \<lparr>rows = r,
      columns = map (\<lambda>j. map (\<lambda>i. mx * unit_draw lib 1234 (k + i * c + j)) [0..<r]) [0..<c]\<rparr>"

text \<open>The matrix \<open>W\<close> after the first \<open>n\<close> coefficients of row \<open>i\<close>, and after the first
  \<open>m\<close> rows, have been drawn.\<close>

definition fill_row_result :: "'g stdlib \<Rightarrow> real \<Rightarrow> nat \<Rightarrow> nat \<Rightarrow> nat \<Rightarrow> Matrix \<Rightarrow> Matrix" where
  "fill_row_result lib mx i n k W =
     \<lparr>rows = rows W,
      columns = map (\<lambda>j. if j < n then (columns W ! j)[i := mx * unit_draw lib 1234 (k + j)]
                          else columns W ! j) [0..<cols W]\<rparr>"

definition rows_filled :: "'g stdlib \<Rightarrow> real \<Rightarrow> nat \<Rightarrow> nat \<Rightarrow> Matrix \<Rightarrow> Matrix" where
  "rows_filled lib mx m k W =
     \<lparr>rows = rows W,
      columns = map (\<lambda>j. map (\<lambda>i. if i < m then mx * unit_draw lib 1234 (k + i * cols W + j)
                                    else columns W ! j ! i) [0..<rows W]) [0..<cols W]\<rparr>"

text \<open>The initialised cell: weights drawn in the order \<open>E\<close>, \<open>Wxh\<close>, \<open>Whh\<close>, \<open>Why\<close>,
  biases and initial state zero.\<close>

definition spec_Initialize :: "'g stdlib \<Rightarrow> nn_utils \<Rightarrow> RNN \<Rightarrow> RNN" where
  "spec_Initialize lib nn s =
     (let D = GetInputSize s; H = hidden_size_m s; C = output_size_m s;
          V1 = GetNumWords (dictionary_m (lookup_layer_m s)) + 1
      in s\<lparr>lookup_layer_m :=
              (lookup_layer_m s)\<lparr>E_m := scaled_uniform lib (spec_max nn s V1 D) D V1 0\<rparr>,
            Wxh_m := scaled_uniform lib (spec_max nn s D H) H D (D * V1),
            Whh_m := scaled_uniform lib (spec_max nn s H H) H H (D * V1 + H * D),
            Why_m := scaled_uniform lib (spec_max nn s H C) C H (D * V1 + H * D + H * H),
            bh_m := Vector_Zero H,
            by_m := Vector_Zero C,
            h0_m := (if use_hidden_start_m s then Vector_Zero H else h0_m s)\<rparr>)"

text \<open>What the C standard asks of \<open>rand()\<close>: a value between \<open>0\<close> and \<open>RAND_MAX\<close>.\<close>

definition rand_in_range :: "'g stdlib \<Rightarrow> bool" where
  "rand_in_range lib =
     (0 < RAND_MAX lib \<and> (\<forall>gen. 0 \<le> fst (rand lib gen) \<and> fst (rand lib gen) \<le> RAND_MAX lib))"

text \<open>A generator for the examples: a linear congruential one.\<close>

definition example_stdlib :: "nat stdlib" where
  "example_stdlib =
     \<lparr>srand = (\<lambda>seed. seed),
      rand = (\<lambda>gen. (int ((gen * 1103515245 + 12345) mod 2147483648),
                      (gen * 1103515245 + 12345) mod 2147483648)),
      RAND_MAX = 2147483647\<rparr>"

text \<open>
  Every coefficient of \<open>W\<close> is \<open>max * (2 * r / RAND_MAX - 1)\<close> for an output \<open>r\<close> of
  \<open>rand()\<close> after \<open>srand(1234)\<close>, and lies in \<open>[-max, max]\<close> when the generator keeps
  to its range.
\<close>

definition filled_within :: "'g stdlib \<Rightarrow> nn_utils \<Rightarrow> RNN \<Rightarrow> Matrix \<Rightarrow> bool" where
  "filled_within lib nn s W =
     (let fan_in = cols W; fan_out = rows W;
          c = (if activation_function_m s = LOGISTIC nn then 4 else 1);
          mx = c * sqrt (6 / real (fan_in + fan_out))
      in \<forall>i<rows W. \<forall>j<cols W.
           (\<exists>k. coeff W i j =
                  mx * (2 * real_of_int (draw lib 1234 k) / real_of_int (RAND_MAX lib) - 1))
           \<and> (rand_in_range lib \<longrightarrow> - mx \<le> coeff W i j \<and> coeff W i j \<le> mx))"

subsection \<open>The loss as a function of a weight\<close>

text \<open>
  The loss \<open>-log p[l]\<close> of a forward pass, and the cell with one coefficient of \<open>Whh\<close>
  replaced: together they give the loss as a function of that coefficient.
\<close>

definition forward_loss :: "nn_utils \<Rightarrow> RNN \<Rightarrow> Input list \<Rightarrow> nat \<Rightarrow> real" where
  "forward_loss nn s input_sequence l =
     (case RunForwardPass nn s input_sequence of Inr s' \<Rightarrow> loss s' l | Inl e \<Rightarrow> 0)"

definition with_Whh :: "RNN \<Rightarrow> nat \<Rightarrow> nat \<Rightarrow> real \<Rightarrow> RNN" where
  "with_Whh s i j w = s\<lparr>Whh_m := set_coeff (Whh_m s) i j w\<rparr>"

text \<open>
  A cell with one hidden unit and two classes whose learned initial state is not zero, as
  it is after a step of training.
\<close>

definition trained_cell :: RNN where
  "trained_cell =
     \<lparr>activation_function_m = 1,
      lookup_layer_m = \<lparr>embedding_dimension_m = 1, dictionary_m = \<lparr>GetNumWords = 1\<rparr>,
                        E_m = \<lparr>rows = 1, columns = [[0], [0]]\<rparr>\<rparr>,
      hidden_size_m = 1,
      output_size_m = 2,
      use_hidden_start_m = True,
      Wxh_m = \<lparr>rows = 1, columns = [[0]]\<rparr>,
      Whh_m = \<lparr>rows = 1, columns = [[0]]\<rparr>,
      Why_m = \<lparr>rows = 2, columns = [[1, 0]]\<rparr>,
      bh_m = [0], by_m = [0, 0], h0_m = [1],
      x_m = Matrix_Zero 0 0, h_m = Matrix_Zero 0 0, y_m = [], p_m = []\<rparr>"

subsection \<open>Shapes during training\<close>

text \<open>
  The derivative of the activation returns as many coefficients as it receives; the
  shapes of the trace that a forward pass leaves, and of the accumulators of the backward
  pass.
\<close>

definition keeps_length_derivative :: "nn_utils \<Rightarrow> int \<Rightarrow> nat \<Rightarrow> bool" where
  "keeps_length_derivative nn kind n =
     (\<forall>v. length v = n \<longrightarrow> length (DerivateActivation nn kind v) = n)"

definition gradient_shapes :: "RNN \<Rightarrow> nat \<Rightarrow> gradients \<Rightarrow> bool" where
  "gradient_shapes s T g =
     (has_shape (dWhy g) (output_size_m s) (hidden_size_m s)
      \<and> has_shape (dWhh g) (hidden_size_m s) (hidden_size_m s)
      \<and> has_shape (dWxh g) (hidden_size_m s) (GetInputSize s)
      \<and> length (dby g) = output_size_m s
      \<and> length (dbh g) = hidden_size_m s
      \<and> length (dhnext g) = hidden_size_m s
      \<and> has_shape (dx g) (GetInputSize s) T)"

definition trace_shapes :: "RNN \<Rightarrow> nat \<Rightarrow> bool" where
  "trace_shapes s T =
     (has_shape (x_m s) (GetInputSize s) T \<and> has_shape (h_m s) (hidden_size_m s) T
      \<and> length (p_m s) = output_size_m s)"

subsection \<open>Directions in the parameters and the derivative of the loss\<close>

text \<open>
  Euclidean pairings of vectors and of matrices: a gradient, paired with a direction,
  gives the derivative along that direction.
\<close>

definition vdot :: "Vector \<Rightarrow> Vector \<Rightarrow> real" where
  "vdot u v = (\<Sum>i<length u. u ! i * v ! i)"

definition mdot :: "Matrix \<Rightarrow> Matrix \<Rightarrow> real" where
  "mdot A B = (\<Sum>j<cols A. \<Sum>i<rows A. coeff A i j * coeff B i j)"

text \<open>
  A direction in the parameters of the cell that the backward pass has an accumulator
  for, with the shapes of those parameters, and the cell moved by \<open>w\<close> along it.
\<close>

record tangent =
  Wxh_t :: Matrix
  Whh_t :: Matrix
  Why_t :: Matrix
  bh_t :: Vector
  by_t :: Vector
  h0_t :: Vector

definition tangent_shapes :: "RNN \<Rightarrow> tangent \<Rightarrow> bool" where
  "tangent_shapes s \<delta> =
     (has_shape (Wxh_t \<delta>) (hidden_size_m s) (GetInputSize s)
      \<and> has_shape (Whh_t \<delta>) (hidden_size_m s) (hidden_size_m s)
      \<and> has_shape (Why_t \<delta>) (output_size_m s) (hidden_size_m s)
      \<and> length (bh_t \<delta>) = hidden_size_m s
      \<and> length (by_t \<delta>) = output_size_m s
      \<and> length (h0_t \<delta>) = hidden_size_m s)"

definition perturb :: "RNN \<Rightarrow> tangent \<Rightarrow> real \<Rightarrow> RNN" where
  "perturb s \<delta> w =
     s\<lparr>Wxh_m := madd (Wxh_m s) (msmul w (Wxh_t \<delta>)),
       Whh_m := madd (Whh_m s) (msmul w (Whh_t \<delta>)),
       Why_m := madd (Why_m s) (msmul w (Why_t \<delta>)),
       bh_m := vadd (bh_m s) (smul w (bh_t \<delta>)),
       by_m := vadd (by_m s) (smul w (by_t \<delta>)),
       h0_m := vadd (h0_m s) (smul w (h0_t \<delta>))\<rparr>"

text \<open>
  An activation function of \<open>nn_utils.h\<close> is smooth when it applies a differentiable
  scalar function to each coefficient, and its derivative routine gives that function's
  derivative from the activated value, as \<open>DerivateActivation\<close> is called on \<open>h\<close>.
\<close>

definition smooth_activation :: "nn_utils \<Rightarrow> int \<Rightarrow> (real \<Rightarrow> real) \<Rightarrow> (real \<Rightarrow> real) \<Rightarrow> bool" where
  "smooth_activation nn kind f d =
     (EvaluateActivation nn kind = map f \<and> DerivateActivation nn kind = map d
      \<and> (\<forall>a. (f has_real_derivative d (f a)) (at a)))"

text \<open>
  The state that step \<open>t\<close> of the forward pass starts from, and the derivative of the
  hidden states of a recorded forward pass along a direction (forward mode): entry \<open>t\<close>
  is the derivative of the state that step \<open>t\<close> starts from.
\<close>

definition hprev_at :: "RNN \<Rightarrow> nat \<Rightarrow> Vector" where
  "hprev_at s t =
     (if t = 0 then (if use_hidden_start_m s then h0_m s else Vector_Zero (rows (Whh_m s)))
      else columns (h_m s) ! (t - 1))"

fun tangent_hprev :: "nn_utils \<Rightarrow> RNN \<Rightarrow> tangent \<Rightarrow> nat \<Rightarrow> Vector" where
  "tangent_hprev nn s \<delta> 0 =
     (if use_hidden_start_m s then h0_t \<delta> else Vector_Zero (hidden_size_m s))"
| "tangent_hprev nn s \<delta> (Suc t) =
     cwise_mul (DerivateActivation nn (activation_function_m s) (columns (h_m s) ! t))
       (vadd (vadd (vadd (mat_vec (Wxh_t \<delta>) (columns (x_m s) ! t)) (bh_t \<delta>))
                   (mat_vec (Whh_t \<delta>) (hprev_at s t)))
             (mat_vec (Whh_m s) (tangent_hprev nn s \<delta> t)))"

definition tangent_y :: "nn_utils \<Rightarrow> RNN \<Rightarrow> tangent \<Rightarrow> nat \<Rightarrow> Vector" where
  "tangent_y nn s \<delta> T =
     vadd (vadd (mat_vec (Why_t \<delta>) (columns (h_m s) ! (T - 1)))
                (mat_vec (Why_m s) (tangent_hprev nn s \<delta> T)))
          (by_t \<delta>)"

text \<open>
  The pairing of a direction with the accumulators of the backward loop, and with all
  the accumulators of the backward pass (\<open>dhnext\<close> is the gradient of \<open>h0\<close> when the
  initial state is learned).
\<close>

definition loop_pairing :: "gradients \<Rightarrow> tangent \<Rightarrow> real" where
  "loop_pairing g \<delta> =
     mdot (dWxh g) (Wxh_t \<delta>) + vdot (dbh g) (bh_t \<delta>) + mdot (dWhh g) (Whh_t \<delta>)"

definition code_pairing :: "RNN \<Rightarrow> gradients \<Rightarrow> tangent \<Rightarrow> real" where
  "code_pairing s g \<delta> =
     mdot (dWhy g) (Why_t \<delta>) + vdot (dby g) (by_t \<delta>)
     + mdot (dWxh g) (Wxh_t \<delta>) + vdot (dbh g) (bh_t \<delta>) + mdot (dWhh g) (Whh_t \<delta>)
     + (if use_hidden_start_m s then vdot (dhnext g) (h0_t \<delta>) else 0)"

text \<open>
  The accumulators before the last step \<open>t = 0\<close> of the backward loop, and the vector
  \<open>draw\<close> of that step.
\<close>

definition before_last_step :: "nn_utils \<Rightarrow> RNN \<Rightarrow> nat \<Rightarrow> nat \<Rightarrow> gradients" where
  "before_last_step nn s T l = fold (spec_BPTT_step nn s) (rev [1..<T]) (spec_seed s T l)"

definition draw_0 :: "nn_utils \<Rightarrow> RNN \<Rightarrow> nat \<Rightarrow> nat \<Rightarrow> Vector" where
  "draw_0 nn s T l =
     cwise_mul (DerivateActivation nn (activation_function_m s) (columns (h_m s) ! 0))
               (dhnext (before_last_step nn s T l))"

section \<open>Properties\<close>

subsection \<open>Failures and loops\<close>

lemma and_then_Inr [simp]: "and_then (Inr v) f = f v"
  by (simp add: and_then_def)

lemma and_then_Inl [simp]: "and_then (Inl e) f = Inl e"
  by (simp add: and_then_def)

lemma for_loop_append:
  "for_loop (xs @ ys) body st = and_then (for_loop xs body st) (for_loop ys body)"
proof (induction xs arbitrary: st)
  case Nil
  show ?case by simp
next
  case (Cons t ts)
  show ?case
    by (cases "body t st") (simp_all add: Cons.IH)
qed

lemma for_loop_snoc:
  "for_loop (xs @ [t]) body st = and_then (for_loop xs body st) (body t)"
proof -
  have "for_loop [t] body = body t"
    by (rule ext) (simp add: and_then_def split: sum.splits)
  then show ?thesis
    by (simp add: for_loop_append)
qed

subsection \<open>The embedding lookup\<close>

lemma update_append_replicate:
  "n < T \<Longrightarrow> length xs = n \<Longrightarrow>
   (xs @ replicate (T - n) z)[n := v] = (xs @ [v]) @ replicate (T - Suc n) z"
proof -
  assume a: "n < T" "length xs = n"
  then obtain k where k: "T - n = Suc k" "T - Suc n = k"
    by (metis Suc_diff_Suc)
  show ?thesis using a by (simp add: k list_update_append)
qed

lemma lookup_body_ok:
  "wid_ok L (s ! n) \<Longrightarrow> n < cols x \<Longrightarrow>
   RunForwardLookupLayer_body L s n x =
     Inr (x\<lparr>columns := (columns x)[n := lookup_column L (s ! n)]\<rparr>)"
  by (simp add: RunForwardLookupLayer_body_def wid_ok_def Let_def col_def set_col_def
      lookup_column_def add.commute)

lemma lookup_body_bad:
  "\<not> wid_ok L (s ! n) \<Longrightarrow> RunForwardLookupLayer_body L s n x = Inl AssertionFailed"
  by (auto simp add: RunForwardLookupLayer_body_def wid_ok_def Let_def)

lemma lookup_loop:
  assumes "n \<le> length s"
  shows "for_loop [0..<n] (RunForwardLookupLayer_body L s) (Matrix_Zero D (length s)) =
         (if list_all (wid_ok L) (take n s)
          then Inr \<lparr>rows = D, columns = map (lookup_column L) (take n s) @
                       replicate (length s - n) (Vector_Zero D)\<rparr>
          else Inl AssertionFailed)"
  using assms
proof (induction n)
  case 0
  show ?case by (simp add: Matrix_Zero_def)
next
  case (Suc n)
  then have n: "n < length s" by simp
  have tk: "take (Suc n) s = take n s @ [s ! n]"
    using n by (simp add: take_Suc_conv_app_nth)
  let ?x = "\<lparr>rows = D, columns = map (lookup_column L) (take n s) @
                replicate (length s - n) (Vector_Zero D)\<rparr>"
  have cx: "n < cols ?x" using n by (simp add: cols_def)
  show ?case
  proof (cases "list_all (wid_ok L) (take n s)")
    case False
    then show ?thesis using Suc n by (simp add: for_loop_snoc tk)
  next
    case True
    show ?thesis
    proof (cases "wid_ok L (s ! n)")
      case False
      then show ?thesis using True Suc n
        by (simp add: for_loop_snoc tk lookup_body_bad)
    next
      case ok: True
      have "RunForwardLookupLayer_body L s n ?x =
            Inr \<lparr>rows = D, columns = (map (lookup_column L) (take n s) @
                    [lookup_column L (s ! n)]) @ replicate (length s - Suc n) (Vector_Zero D)\<rparr>"
        using lookup_body_ok [OF ok cx] n by (simp add: update_append_replicate)
      then show ?thesis using True ok Suc n
        by (simp add: for_loop_snoc tk)
    qed
  qed
qed

lemma RunForwardLookupLayer_eq:
  "RunForwardLookupLayer L s =
     (if list_all (wid_ok L) s
      then Inr \<lparr>rows = embedding_dimension_m L, columns = map (lookup_column L) s\<rparr>
      else Inl AssertionFailed)"
  using lookup_loop [of "length s" s L "embedding_dimension_m L"]
  by (simp add: RunForwardLookupLayer_def)

lemma id_in_vocabulary_wid_ok:
  "cols (E_m L) = GetNumWords (dictionary_m L) + 1 \<Longrightarrow> id_in_vocabulary L inp \<Longrightarrow> wid_ok L inp"
  by (simp add: id_in_vocabulary_def wid_ok_def)

lemma list_all_id_in_vocabulary_wid_ok:
  "cols (E_m L) = GetNumWords (dictionary_m L) + 1 \<Longrightarrow> list_all (id_in_vocabulary L) s \<Longrightarrow>
   list_all (wid_ok L) s"
  by (induction s) (simp_all add: id_in_vocabulary_wid_ok)

text \<open>
  C5. When the table has its \<open>V + 1\<close> columns and every token id of the sequence lies in
  \<open>[0, V)\<close>, the lookup returns a matrix with the rows of the embedding dimension and one
  column per token, column \<open>t\<close> being column \<open>token[t].id + 1\<close> of \<open>E\<close>; so the
  assertion does not fail. For some token id outside \<open>[0, V)\<close>, namely \<open>V\<close>, a sequence
  that contains it makes the assertion fail.
\<close>

theorem C5_lookup:
  assumes "cols (E_m L) = GetNumWords (dictionary_m L) + 1"
  shows "(list_all (id_in_vocabulary L) input_sequence \<longrightarrow>
            (\<exists>X. RunForwardLookupLayer L input_sequence = Inr X
               \<and> rows X = embedding_dimension_m L
               \<and> cols X = length input_sequence
               \<and> (\<forall>t<length input_sequence.
                     col X (int t) = col (E_m L) (wid (input_sequence ! t) + 1)
                   \<and> columns X ! t = columns (E_m L) ! nat (wid (input_sequence ! t) + 1))))
       \<and> \<not> id_in_vocabulary L (Input (int (GetNumWords (dictionary_m L))))
       \<and> RunForwardLookupLayer L (input_sequence @ [Input (int (GetNumWords (dictionary_m L)))])
           = Inl AssertionFailed"
proof (intro conjI impI)
  assume ids: "list_all (id_in_vocabulary L) input_sequence"
  then have ok: "list_all (wid_ok L) input_sequence"
    using assms by (rule list_all_id_in_vocabulary_wid_ok [rotated])
  let ?X = "\<lparr>rows = embedding_dimension_m L, columns = map (lookup_column L) input_sequence\<rparr>"
  have "col ?X (int t) = col (E_m L) (wid (input_sequence ! t) + 1)
        \<and> columns ?X ! t = columns (E_m L) ! nat (wid (input_sequence ! t) + 1)"
    if t: "t < length input_sequence" for t
  proof -
    have "wid_ok L (input_sequence ! t)"
      using ok t by (simp add: list_all_length)
    then show ?thesis
      using t by (simp add: col_def cols_def lookup_column_def wid_ok_def add.commute)
  qed
  then show "\<exists>X. RunForwardLookupLayer L input_sequence = Inr X
               \<and> rows X = embedding_dimension_m L
               \<and> cols X = length input_sequence
               \<and> (\<forall>t<length input_sequence.
                     col X (int t) = col (E_m L) (wid (input_sequence ! t) + 1)
                   \<and> columns X ! t = columns (E_m L) ! nat (wid (input_sequence ! t) + 1))"
    using ok by (intro exI [of _ ?X]) (simp add: RunForwardLookupLayer_eq cols_def)
next
  show "\<not> id_in_vocabulary L (Input (int (GetNumWords (dictionary_m L))))"
    by (simp add: id_in_vocabulary_def)
next
  have "\<not> wid_ok L (Input (int (GetNumWords (dictionary_m L))))"
    using assms by (simp add: wid_ok_def)
  then show "RunForwardLookupLayer L (input_sequence @ [Input (int (GetNumWords (dictionary_m L)))])
             = Inl AssertionFailed"
    by (simp add: RunForwardLookupLayer_eq)
qed

theorem C5_lookup_witness:
  "cols (E_m example_lookup) = GetNumWords (dictionary_m example_lookup) + 1
   \<and> list_all (id_in_vocabulary example_lookup) example_sequence
   \<and> RunForwardLookupLayer example_lookup example_sequence
       = Inr \<lparr>rows = 2, columns = [[1, 2], [3, 4]]\<rparr>
   \<and> RunForwardLookupLayer example_lookup (example_sequence @ [Input 3]) = Inl AssertionFailed"
proof -
  have c: "cols (E_m example_lookup) = GetNumWords (dictionary_m example_lookup) + 1"
    by (simp add: example_lookup_def cols_def)
  have v: "list_all (id_in_vocabulary example_lookup) example_sequence"
    by (simp add: example_lookup_def example_sequence_def id_in_vocabulary_def)
  from C5_lookup [OF c, of example_sequence] v
  obtain X where X: "RunForwardLookupLayer example_lookup example_sequence = Inr X"
      "rows X = embedding_dimension_m example_lookup" "cols X = length example_sequence"
      "\<forall>t<length example_sequence. columns X ! t =
          columns (E_m example_lookup) ! nat (wid (example_sequence ! t) + 1)"
    and bad: "RunForwardLookupLayer example_lookup
        (example_sequence @ [Input (int (GetNumWords (dictionary_m example_lookup)))])
        = Inl AssertionFailed"
    by blast
  have "columns X ! 0 = [1, 2]" "columns X ! 1 = [3, 4]"
    using X(4) by (simp_all add: example_sequence_def example_lookup_def)
  moreover have "length (columns X) = 2"
    using X(3) by (simp add: cols_def example_sequence_def)
  ultimately have "columns X = [[1, 2], [3, 4]]"
    by (simp add: list_eq_iff_nth_eq less_Suc_eq numeral_2_eq_2)
  moreover have "rows X = 2"
    using X(2) by (simp add: example_lookup_def)
  ultimately have "X = \<lparr>rows = 2, columns = [[1, 2], [3, 4]]\<rparr>"
    by simp
  moreover have "Input (int (GetNumWords (dictionary_m example_lookup))) = Input 3"
    by (simp add: example_lookup_def)
  ultimately show ?thesis
    using c v X(1) bad by simp
qed

subsection \<open>Vector arithmetic\<close>

lemma length_vadd [simp]: "length (vadd u v) = min (length u) (length v)"
  by (simp add: vadd_def)

lemma length_vsub [simp]: "length (vsub u v) = min (length u) (length v)"
  by (simp add: vsub_def)

lemma length_smul [simp]: "length (smul a v) = length v"
  by (simp add: smul_def)

lemma length_cwise_mul [simp]: "length (cwise_mul u v) = min (length u) (length v)"
  by (simp add: cwise_mul_def)

lemma length_Vector_Zero [simp]: "length (Vector_Zero n) = n"
  by (simp add: Vector_Zero_def)

lemma nth_Vector_Zero [simp]: "i < n \<Longrightarrow> Vector_Zero n ! i = 0"
  by (simp add: Vector_Zero_def)

lemma nth_vadd [simp]: "i < length u \<Longrightarrow> i < length v \<Longrightarrow> vadd u v ! i = u ! i + v ! i"
  by (simp add: vadd_def)

lemma nth_vsub [simp]: "i < length u \<Longrightarrow> i < length v \<Longrightarrow> vsub u v ! i = u ! i - v ! i"
  by (simp add: vsub_def)

lemma nth_smul [simp]: "i < length v \<Longrightarrow> smul a v ! i = a * v ! i"
  by (simp add: smul_def)

lemma nth_cwise_mul [simp]:
  "i < length u \<Longrightarrow> i < length v \<Longrightarrow> cwise_mul u v ! i = u ! i * v ! i"
  by (simp add: cwise_mul_def)

lemma vadd_Vector_Zero [simp]: "length v = n \<Longrightarrow> vadd (Vector_Zero n) v = v"
  by (simp add: list_eq_iff_nth_eq)

lemma length_vsum: "list_all (\<lambda>v. length v = r) vs \<Longrightarrow> length (vsum r vs) = r"
proof (induction vs rule: rev_induct)
  case Nil
  show ?case by (simp add: vsum_def)
next
  case (snoc v vs)
  then show ?case by (simp add: vsum_def)
qed

lemma vsum_snoc: "vsum r (vs @ [v]) = vadd (vsum r vs) v"
  by (simp add: vsum_def)

lemma vsum_Nil [simp]: "vsum r [] = Vector_Zero r"
  by (simp add: vsum_def)

lemma vsub_smul_zero: "length e = r \<Longrightarrow> vsub e (smul a (Vector_Zero r)) = e"
  by (simp add: list_eq_iff_nth_eq)

lemma vsub_smul_vadd:
  "length e = r \<Longrightarrow> length u = r \<Longrightarrow> length d = r \<Longrightarrow>
   vsub (vsub e (smul a u)) (smul a d) = vsub e (smul a (vadd u d))"
  by (simp add: list_eq_iff_nth_eq algebra_simps)

subsection \<open>The embedding update\<close>

lemma spec_Update_step_shape [simp]:
  "cols (spec_Update_step s dX r t Em) = cols Em" "rows (spec_Update_step s dX r t Em) = rows Em"
  by (simp_all add: spec_Update_step_def cols_def Let_def)

lemma fold_spec_Update_shape [simp]:
  "cols (fold (spec_Update_step s dX r) ts Em) = cols Em"
  "rows (fold (spec_Update_step s dX r) ts Em) = rows Em"
  by (induction ts arbitrary: Em) simp_all

lemma backward_lookup_body:
  assumes "wid_ok L (s ! t)" "cols Em = cols (E_m L)" "t < cols dX"
  shows "RunBackwardLookupLayer_body s dX r t Em = Inr (spec_Update_step s dX r t Em)"
  using assms
  by (simp add: RunBackwardLookupLayer_body_def spec_Update_step_def wid_ok_def Let_def
      col_def set_col_def add.commute)

lemma backward_lookup_loop:
  assumes "n \<le> length s" "n \<le> cols dX" "list_all (wid_ok L) (take n s)" "cols Em = cols (E_m L)"
  shows "for_loop [0..<n] (RunBackwardLookupLayer_body s dX r) Em =
         Inr (fold (spec_Update_step s dX r) [0..<n] Em)"
  using assms
proof (induction n)
  case 0
  show ?case by simp
next
  case (Suc n)
  then have n: "n < length s" "n < cols dX" by simp_all
  have tk: "take (Suc n) s = take n s @ [s ! n]"
    using n by (simp add: take_Suc_conv_app_nth)
  have ok: "wid_ok L (s ! n)" "list_all (wid_ok L) (take n s)"
    using Suc.prems(3) by (simp_all add: tk)
  have "for_loop [0..<n] (RunBackwardLookupLayer_body s dX r) Em =
        Inr (fold (spec_Update_step s dX r) [0..<n] Em)"
    using Suc n ok by simp
  moreover have "RunBackwardLookupLayer_body s dX r n (fold (spec_Update_step s dX r) [0..<n] Em) =
        Inr (spec_Update_step s dX r n (fold (spec_Update_step s dX r) [0..<n] Em))"
    using ok(1) n(2) Suc.prems(4) by (intro backward_lookup_body) simp_all
  ultimately show ?case
    by (simp add: for_loop_snoc)
qed

lemma RunBackwardLookupLayer_eq:
  assumes "list_all (wid_ok L) s" "length s \<le> cols dX"
  shows "RunBackwardLookupLayer L s dX r = Inr (L\<lparr>E_m := spec_Update (E_m L) s dX r\<rparr>)"
  using backward_lookup_loop [of "length s" s dX L "E_m L" r] assms
  by (simp add: RunBackwardLookupLayer_def spec_Update_def)

lemma spec_Update_step_other:
  "nat (wid (s ! t) + 1) \<noteq> c \<Longrightarrow> columns (spec_Update_step s dX r t Em) ! c = columns Em ! c"
  by (simp add: spec_Update_step_def Let_def)

lemma spec_Update_step_same:
  "nat (wid (s ! t) + 1) = c \<Longrightarrow> c < cols Em \<Longrightarrow>
   columns (spec_Update_step s dX r t Em) ! c = vsub (columns Em ! c) (smul r (columns dX ! t))"
  by (simp add: spec_Update_step_def Let_def cols_def)

lemma fold_spec_Update_untouched:
  assumes "c \<notin> (\<lambda>inp. nat (wid inp + 1)) ` set (take n s)" "n \<le> length s"
  shows "columns (fold (spec_Update_step s dX r) [0..<n] Em) ! c = columns Em ! c"
  using assms
proof (induction n)
  case 0
  show ?case by simp
next
  case (Suc n)
  then have n: "n < length s" by simp
  have tk: "take (Suc n) s = take n s @ [s ! n]"
    using n by (simp add: take_Suc_conv_app_nth)
  have "c \<noteq> nat (wid (s ! n) + 1)" "c \<notin> (\<lambda>inp. nat (wid inp + 1)) ` set (take n s)"
    using Suc.prems(1) by (auto simp add: tk)
  then show ?case using Suc n
    by (simp add: spec_Update_step_other)
qed

lemma fold_spec_Update_column:
  assumes "n \<le> length s" "c < cols Em" "length (columns Em ! c) = D"
    and "\<forall>t<n. length (columns dX ! t) = D"
  shows "columns (fold (spec_Update_step s dX r) [0..<n] Em) ! c =
         vsub (columns Em ! c)
           (smul r (vsum D (map (\<lambda>t. columns dX ! t)
              (filter (\<lambda>t. nat (wid (s ! t) + 1) = c) [0..<n]))))"
  using assms
proof (induction n)
  case 0
  then show ?case by (simp add: vsub_smul_zero)
next
  case (Suc n)
  let ?F = "fold (spec_Update_step s dX r) [0..<n] Em"
  let ?vs = "map (\<lambda>t. columns dX ! t) (filter (\<lambda>t. nat (wid (s ! t) + 1) = c) [0..<n])"
  have IH: "columns ?F ! c = vsub (columns Em ! c) (smul r (vsum D ?vs))"
    using Suc by simp
  have len: "length (vsum D ?vs) = D"
    using Suc.prems(4) by (intro length_vsum) (simp add: list_all_iff)
  have c: "c < length (columns ?F)"
    using Suc.prems(2) fold_spec_Update_shape(1) [of s dX r "[0..<n]" Em] by (simp add: cols_def)
  show ?case
  proof (cases "nat (wid (s ! n) + 1) = c")
    case True
    have "columns (spec_Update_step s dX r n ?F) ! c =
          vsub (columns ?F ! c) (smul r (columns dX ! n))"
      using True c by (intro spec_Update_step_same) (simp_all add: cols_def)
    also have "\<dots> = vsub (columns Em ! c) (smul r (vadd (vsum D ?vs) (columns dX ! n)))"
      using Suc.prems(3,4) len by (simp add: IH vsub_smul_vadd)
    finally show ?thesis using True by (simp add: vsum_snoc)
  next
    case False
    then show ?thesis using IH
      by (simp add: spec_Update_step_other)
  qed
qed


subsection \<open>The forward pass\<close>

lemma forward_body:
  assumes "t < cols (x_m s1)" "t < cols h"
  shows "RunForwardPass_body nn s1 t (h, hprev) =
         Inr (h\<lparr>columns := (columns h)[t :=
                EvaluateActivation nn (activation_function_m s1)
                  (vadd (vadd (mat_vec (Wxh_m s1) (columns (x_m s1) ! t)) (bh_m s1))
                        (mat_vec (Whh_m s1) hprev))]\<rparr>,
              EvaluateActivation nn (activation_function_m s1)
                  (vadd (vadd (mat_vec (Wxh_m s1) (columns (x_m s1) ! t)) (bh_m s1))
                        (mat_vec (Whh_m s1) hprev)))"
  using assms
  by (simp add: RunForwardPass_body_def col_def set_col_def Let_def cols_def)

lemma spec_hprev_x_m [simp]: "spec_hprev nn (s\<lparr>x_m := X'\<rparr>) X n = spec_hprev nn s X n"
  by (induction n) simp_all

lemma forward_loop:
  assumes "n \<le> T" "cols (x_m s1) = T"
  shows "for_loop [0..<n] (RunForwardPass_body nn s1)
           (Matrix_Zero H T, spec_hprev nn s1 (x_m s1) 0) =
         Inr (\<lparr>rows = H, columns = map (spec_h nn s1 (x_m s1)) [0..<n] @
                   replicate (T - n) (Vector_Zero H)\<rparr>,
              spec_hprev nn s1 (x_m s1) n)"
  using assms
proof (induction n)
  case 0
  show ?case by (simp add: Matrix_Zero_def)
next
  case (Suc n)
  let ?h = "\<lparr>rows = H, columns = map (spec_h nn s1 (x_m s1)) [0..<n] @
                   replicate (T - n) (Vector_Zero H)\<rparr>"
  let ?h' = "\<lparr>rows = H, columns = map (spec_h nn s1 (x_m s1)) [0..<Suc n] @
                   replicate (T - Suc n) (Vector_Zero H)\<rparr>"
  have n: "n < T" using Suc.prems by simp
  have IH: "for_loop [0..<n] (RunForwardPass_body nn s1)
           (Matrix_Zero H T, spec_hprev nn s1 (x_m s1) 0) = Inr (?h, spec_hprev nn s1 (x_m s1) n)"
    using Suc by simp
  have upd: "?h\<lparr>columns := (columns ?h)[n := spec_hprev nn s1 (x_m s1) (Suc n)]\<rparr> = ?h'"
    using n by (simp add: update_append_replicate spec_h_def del: spec_hprev.simps)
  have "RunForwardPass_body nn s1 n (?h, spec_hprev nn s1 (x_m s1) n) =
        Inr (?h\<lparr>columns := (columns ?h)[n := spec_hprev nn s1 (x_m s1) (Suc n)]\<rparr>,
             spec_hprev nn s1 (x_m s1) (Suc n))"
    unfolding spec_hprev.simps
    using n Suc.prems(2) by (intro forward_body) (simp_all add: cols_def)
  then have body: "RunForwardPass_body nn s1 n (?h, spec_hprev nn s1 (x_m s1) n) =
        Inr (?h', spec_hprev nn s1 (x_m s1) (Suc n))"
    by (simp only: upd)
  have "for_loop [0..<Suc n] (RunForwardPass_body nn s1)
           (Matrix_Zero H T, spec_hprev nn s1 (x_m s1) 0) =
        and_then (for_loop [0..<n] (RunForwardPass_body nn s1)
           (Matrix_Zero H T, spec_hprev nn s1 (x_m s1) 0)) (RunForwardPass_body nn s1 n)"
    by (simp only: upt_Suc_append [OF le0] for_loop_snoc)
  then show ?case
    by (simp only: IH and_then_Inr body)
qed

lemma RunForwardPass_eq:
  "RunForwardPass nn s sequence =
     (if \<not> list_all (wid_ok (lookup_layer_m s)) sequence then Inl AssertionFailed
      else if sequence = [] then Inl OutOfRange
      else Inr (spec_Forward nn s sequence))"
proof (cases "list_all (wid_ok (lookup_layer_m s)) sequence")
  case False
  then show ?thesis
    by (simp add: RunForwardPass_def RunForwardLookupLayer_eq)
next
  case True
  let ?X = "spec_Lookup (lookup_layer_m s) sequence"
  let ?s1 = "s\<lparr>x_m := ?X\<rparr>"
  let ?T = "length sequence"
  have cx: "cols (x_m ?s1) = ?T"
    by (simp add: spec_Lookup_def cols_def)
  have init: "(if use_hidden_start_m ?s1 then h0_m ?s1
               else Vector_Zero (rows (Matrix_Zero (rows (Whh_m ?s1)) ?T))) =
              spec_hprev nn ?s1 (x_m ?s1) 0"
    by (simp add: Matrix_Zero_def)
  have loop: "for_loop [0..<?T] (RunForwardPass_body nn ?s1)
           (Matrix_Zero (rows (Whh_m ?s1)) ?T, spec_hprev nn ?s1 (x_m ?s1) 0) =
         Inr (\<lparr>rows = rows (Whh_m ?s1), columns = map (spec_h nn ?s1 (x_m ?s1)) [0..<?T]\<rparr>,
              spec_hprev nn ?s1 (x_m ?s1) ?T)"
    using forward_loop [OF le_refl cx, of nn "rows (Whh_m ?s1)"] by simp
  show ?thesis
  proof (cases "sequence = []")
    case Nil: True
    show ?thesis
      using True Nil
      by (simp add: RunForwardPass_def RunForwardLookupLayer_eq Let_def col_def cols_def
          Matrix_Zero_def)
  next
    case False
    then have T: "0 < ?T" by simp
    have last: "col \<lparr>rows = rows (Whh_m ?s1), columns = map (spec_h nn ?s1 (x_m ?s1)) [0..<?T]\<rparr>
                  (int ?T - 1) = Inr (spec_h nn ?s1 (x_m ?s1) (?T - 1))"
      using T by (simp add: col_def cols_def nat_diff_distrib' del: upt_Suc)
    have "RunForwardPass nn s sequence = Inr (spec_Forward nn s sequence)"
      unfolding RunForwardPass_def
      using True
      apply (simp only: RunForwardLookupLayer_eq if_True and_then_Inr Let_def
          spec_Lookup_def [symmetric] init loop prod.case last)
      apply (simp add: spec_Forward_def spec_p_def spec_y_def spec_h_def Let_def)
      done
    then show ?thesis using True False by simp
  qed
qed

subsection \<open>The backward pass\<close>

lemma backward_body:
  assumes "t < cols (h_m s)" "t < cols (x_m s)" "t < cols (dx g)"
  shows "RunBackwardPass_body nn s t g = Inr (spec_BPTT_step nn s t g)"
proof (cases "t > 0")
  case True
  then have "nat (int t - 1) = t - 1" by simp
  then show ?thesis
    using assms True
    by (simp add: RunBackwardPass_body_def spec_BPTT_step_def col_def set_col_def Let_def)
next
  case False
  then show ?thesis
    using assms
    by (simp add: RunBackwardPass_body_def spec_BPTT_step_def col_def set_col_def Let_def)
qed

lemma spec_BPTT_step_cols_dx [simp]: "cols (dx (spec_BPTT_step nn s t g)) = cols (dx g)"
  by (simp add: spec_BPTT_step_def Let_def cols_def)

lemma backward_loop:
  assumes "n \<le> cols (h_m s)" "n \<le> cols (x_m s)" "n \<le> cols (dx g)"
  shows "for_loop (rev [0..<n]) (RunBackwardPass_body nn s) g =
         Inr (fold (spec_BPTT_step nn s) (rev [0..<n]) g)"
  using assms
proof (induction n arbitrary: g)
  case 0
  show ?case by simp
next
  case (Suc n)
  have "RunBackwardPass_body nn s n g = Inr (spec_BPTT_step nn s n g)"
    using Suc.prems by (intro backward_body) simp_all
  moreover have "for_loop (rev [0..<n]) (RunBackwardPass_body nn s) (spec_BPTT_step nn s n g) =
         Inr (fold (spec_BPTT_step nn s) (rev [0..<n]) (spec_BPTT_step nn s n g))"
    using Suc.prems by (intro Suc.IH) simp_all
  ultimately show ?case by simp
qed

lemma fold_spec_BPTT_step_cols_dx [simp]:
  "cols (dx (fold (spec_BPTT_step nn s) ts g)) = cols (dx g)"
  by (induction ts arbitrary: g) simp_all


lemma cols_Matrix_Zero [simp]: "cols (Matrix_Zero r c) = c"
  by (simp add: Matrix_Zero_def cols_def)

lemma rows_Matrix_Zero [simp]: "rows (Matrix_Zero r c) = r"
  by (simp add: Matrix_Zero_def)

lemma cols_dx_spec_seed [simp]: "cols (dx (spec_seed s T l)) = T"
  by (simp add: spec_seed_def Let_def)

lemma has_shape_outer: "has_shape (outer u v) (length u) (length v)"
  by (simp add: has_shape_def outer_def cols_def list_all_iff)

lemma madd_Matrix_Zero:
  assumes "has_shape B r c"
  shows "madd (Matrix_Zero r c) B = B"
proof -
  have "map2 vadd (replicate c (Vector_Zero r)) (columns B) = columns B"
    using assms by (simp add: list_eq_iff_nth_eq has_shape_def cols_def list_all_length)
  then show ?thesis
    using assms by (simp add: madd_def Matrix_Zero_def has_shape_def)
qed

lemma length_mat_vec [simp]: "length (mat_vec A v) = rows A"
  by (simp add: mat_vec_def)

lemma length_transpose_vec [simp]: "length (transpose_vec A v) = cols A"
  by (simp add: transpose_vec_def)

lemma spec_Forward_fields [simp]:
  "lookup_layer_m (spec_Forward nn s q) = lookup_layer_m s"
  "activation_function_m (spec_Forward nn s q) = activation_function_m s"
  "hidden_size_m (spec_Forward nn s q) = hidden_size_m s"
  "output_size_m (spec_Forward nn s q) = output_size_m s"
  "use_hidden_start_m (spec_Forward nn s q) = use_hidden_start_m s"
  "Wxh_m (spec_Forward nn s q) = Wxh_m s"
  "Whh_m (spec_Forward nn s q) = Whh_m s"
  "Why_m (spec_Forward nn s q) = Why_m s"
  "bh_m (spec_Forward nn s q) = bh_m s"
  "by_m (spec_Forward nn s q) = by_m s"
  "h0_m (spec_Forward nn s q) = h0_m s"
  "GetInputSize (spec_Forward nn s q) = GetInputSize s"
  by (simp_all add: spec_Forward_def GetInputSize_def)

lemma spec_Forward_trace:
  "cols (x_m (spec_Forward nn s q)) = length q"
  "cols (h_m (spec_Forward nn s q)) = length q"
  "length (p_m (spec_Forward nn s q)) = min (rows (Why_m s)) (length (by_m s))"
  "length (y_m (spec_Forward nn s q)) = min (rows (Why_m s)) (length (by_m s))"
  by (simp_all add: spec_Forward_def cols_def spec_Lookup_def spec_p_def spec_y_def Let_def)

lemma length_spec_h:
  assumes "keeps_length nn (activation_function_m s) H" "rows (Wxh_m s) = H"
    "length (bh_m s) = H" "rows (Whh_m s) = H"
  shows "length (spec_h nn s X t) = H"
  using assms by (simp add: spec_h_def keeps_length_def)

lemma h_m_spec_Forward_nth:
  "t < length q \<Longrightarrow>
   columns (h_m (spec_Forward nn s q)) ! t = spec_h nn s (spec_Lookup (lookup_layer_m s) q) t"
  by (simp add: spec_Forward_def del: upt_Suc)

lemma backward_seed:
  assumes sh: "shapes_ok s0" and kl: "keeps_length nn (activation_function_m s0) (hidden_size_m s0)"
    and q: "q \<noteq> []" and l: "l < output_size_m s0"
  shows "(let s = spec_Forward nn s0 q; dy = (p_m s)[l := p_m s ! l - 1];
              ht = columns (h_m s) ! (length q - 1)
          in \<lparr>dWhy = madd (Matrix_Zero (rows (Why_m s)) (cols (Why_m s))) (outer dy ht),
              dWhh = Matrix_Zero (rows (Whh_m s)) (cols (Whh_m s)),
              dWxh = Matrix_Zero (rows (Wxh_m s)) (cols (Wxh_m s)),
              dby = vadd (Vector_Zero (rows (Why_m s))) dy,
              dbh = Vector_Zero (rows (Whh_m s)),
              dhnext = vadd (Vector_Zero (rows (Whh_m s))) (transpose_vec (Why_m s) dy),
              dx = Matrix_Zero (GetInputSize s) (length q)\<rparr>)
         = spec_seed (spec_Forward nn s0 q) (length q) l"
proof -
  let ?s = "spec_Forward nn s0 q"
  let ?dy = "(p_m ?s)[l := p_m ?s ! l - 1]"
  let ?ht = "columns (h_m ?s) ! (length q - 1)"
  have W: "rows (Why_m s0) = output_size_m s0" "cols (Why_m s0) = hidden_size_m s0"
      "rows (Whh_m s0) = hidden_size_m s0" "rows (Wxh_m s0) = hidden_size_m s0"
      "length (bh_m s0) = hidden_size_m s0" "length (by_m s0) = output_size_m s0"
    using sh by (simp_all add: shapes_ok_def has_shape_def)
  have dy: "length ?dy = output_size_m s0"
    by (simp add: spec_Forward_trace W)
  have "?ht = spec_h nn s0 (spec_Lookup (lookup_layer_m s0) q) (length q - 1)"
    using q by (intro h_m_spec_Forward_nth) simp
  then have ht: "length ?ht = hidden_size_m s0"
    using kl W by (simp add: length_spec_h)
  have "has_shape (outer ?dy ?ht) (rows (Why_m ?s)) (cols (Why_m ?s))"
    using has_shape_outer [of ?dy ?ht] by (simp only: dy ht spec_Forward_fields W)
  then have 1: "madd (Matrix_Zero (rows (Why_m ?s)) (cols (Why_m ?s))) (outer ?dy ?ht) = outer ?dy ?ht"
    by (rule madd_Matrix_Zero)
  have 2: "vadd (Vector_Zero (rows (Why_m ?s))) ?dy = ?dy"
    by (intro vadd_Vector_Zero) (simp only: dy spec_Forward_fields W)
  have 3: "vadd (Vector_Zero (rows (Whh_m ?s))) (transpose_vec (Why_m ?s) ?dy) =
           transpose_vec (Why_m ?s) ?dy"
    by (intro vadd_Vector_Zero) (simp add: W)
  show ?thesis
    unfolding Let_def spec_seed_def by (simp only: 1 2 3)
qed

lemma RunBackwardPass_gradients_eq:
  assumes sh: "shapes_ok s0" and kl: "keeps_length nn (activation_function_m s0) (hidden_size_m s0)"
    and q: "q \<noteq> []" and l: "0 \<le> l" "l < int (output_size_m s0)"
  shows "RunBackwardPass_gradients nn (spec_Forward nn s0 q) q l =
         Inr (spec_BPTT nn (spec_Forward nn s0 q) (length q) (nat l))"
proof -
  let ?s = "spec_Forward nn s0 q"
  have W: "rows (Why_m s0) = output_size_m s0" "length (by_m s0) = output_size_m s0"
    using sh by (simp_all add: shapes_ok_def has_shape_def)
  have dec: "decrement_at (p_m ?s) l = Inr ((p_m ?s)[nat l := p_m ?s ! nat l - 1])"
    using l by (simp add: decrement_at_def spec_Forward_trace W)
  have last: "col (h_m ?s) (int (length q) - 1) = Inr (columns (h_m ?s) ! (length q - 1))"
    using q by (simp add: col_def spec_Forward_trace nat_diff_distrib')
  have nl: "nat l < output_size_m s0" using l by simp
  note seed = backward_seed [OF sh kl q nl, unfolded Let_def]
  have loop: "for_loop (rev [0..<length q]) (RunBackwardPass_body nn ?s)
                (spec_seed ?s (length q) (nat l)) =
              Inr (fold (spec_BPTT_step nn ?s) (rev [0..<length q]) (spec_seed ?s (length q) (nat l)))"
    by (intro backward_loop)
       (simp_all add: spec_Forward_trace)
  show ?thesis
    unfolding RunBackwardPass_gradients_def Let_def
    by (simp only: dec last and_then_Inr gradients.simps gradients.update_convs seed loop
        spec_BPTT_def)
qed


lemma cols_dx_spec_BPTT [simp]: "cols (dx (spec_BPTT nn s T l)) = T"
  by (simp add: spec_BPTT_def)

lemma RunBackwardPass_eq:
  assumes sh: "shapes_ok s0" and kl: "keeps_length nn (activation_function_m s0) (hidden_size_m s0)"
    and q: "q \<noteq> []" and l: "0 \<le> l" "l < int (output_size_m s0)"
    and ok: "list_all (wid_ok (lookup_layer_m s0)) q"
  shows "RunBackwardPass nn (spec_Forward nn s0 q) q l \<eta> =
         Inr (spec_Backward nn (spec_Forward nn s0 q) q (nat l) \<eta>)"
proof -
  let ?s = "spec_Forward nn s0 q"
  let ?g = "spec_BPTT nn ?s (length q) (nat l)"
  have g: "RunBackwardPass_gradients nn ?s q l = Inr ?g"
    using sh kl q l by (rule RunBackwardPass_gradients_eq)
  have up: "RunBackwardLookupLayer (lookup_layer_m s0) q (dx ?g) \<eta> =
        Inr ((lookup_layer_m s0)\<lparr>E_m := spec_Update (E_m (lookup_layer_m s0)) q (dx ?g) \<eta>\<rparr>)"
    using ok by (intro RunBackwardLookupLayer_eq) simp_all
  show ?thesis
  proof (cases "use_hidden_start_m s0")
    case True
    then show ?thesis
      unfolding RunBackwardPass_def
      by (simp add: g up Let_def spec_Backward_def spec_SGD_def)
  next
    case False
    then show ?thesis
      unfolding RunBackwardPass_def
      by (simp add: g up Let_def spec_Backward_def spec_SGD_def)
  qed
qed

lemma RunForwardPass_Inr:
  assumes "RunForwardPass nn s0 q = Inr s"
  shows "s = spec_Forward nn s0 q" "q \<noteq> []" "list_all (wid_ok (lookup_layer_m s0)) q"
  using assms by (simp_all add: RunForwardPass_eq split: if_splits)

text \<open>
  C1. Run right after a forward pass that returned, on a cell with the allocated shapes
  and for a label in \<open>[0, C)\<close>, the backward pass returns, and its result is the one
  of the spec's recurrence: the seed, the steps from \<open>T-1\<close> down to \<open>0\<close>, the
  gradient-descent update of every parameter and the embedding update with \<open>dX\<close>.
\<close>

theorem C1_backward:
  assumes "RunForwardPass nn s0 input_sequence = Inr s"
    and "shapes_ok s0"
    and "keeps_length nn (activation_function_m s0) (hidden_size_m s0)"
    and "0 \<le> output_label" "output_label < int (output_size_m s0)"
  shows "RunBackwardPass nn s input_sequence output_label learning_rate =
         Inr (spec_Backward nn s input_sequence (nat output_label) learning_rate)"
  using RunBackwardPass_eq [OF assms(2,3) RunForwardPass_Inr(2) [OF assms(1)] assms(4,5)
      RunForwardPass_Inr(3) [OF assms(1)]]
  by (simp only: RunForwardPass_Inr(1) [OF assms(1)])

theorem C1_backward_witness:
  "RunForwardPass logistic_nn example_rnn example_sequence
     = Inr (spec_Forward logistic_nn example_rnn example_sequence)
   \<and> shapes_ok example_rnn
   \<and> keeps_length logistic_nn (activation_function_m example_rnn) (hidden_size_m example_rnn)
   \<and> (0::int) \<le> 0 \<and> 0 < int (output_size_m example_rnn)
   \<and> RunBackwardPass logistic_nn (spec_Forward logistic_nn example_rnn example_sequence)
         example_sequence 0 (1/10)
       = Inr (spec_Backward logistic_nn (spec_Forward logistic_nn example_rnn example_sequence)
                example_sequence 0 (1/10))"
proof -
  have ok: "list_all (wid_ok (lookup_layer_m example_rnn)) example_sequence"
    by (simp add: example_rnn_def example_lookup_def example_sequence_def wid_ok_def cols_def)
  have ne: "example_sequence \<noteq> []"
    by (simp add: example_sequence_def)
  have fw: "RunForwardPass logistic_nn example_rnn example_sequence
     = Inr (spec_Forward logistic_nn example_rnn example_sequence)"
    using ok ne by (simp add: RunForwardPass_eq)
  have sh: "shapes_ok example_rnn"
    by (simp add: shapes_ok_def example_rnn_def example_lookup_def has_shape_def cols_def
        GetInputSize_def)
  have kl: "keeps_length logistic_nn (activation_function_m example_rnn) (hidden_size_m example_rnn)"
    by (simp add: keeps_length_def logistic_nn_def)
  have l: "(0::int) \<le> 0" "0 < int (output_size_m example_rnn)"
    by (simp_all add: example_rnn_def)
  from C1_backward [OF fw sh kl l, of "1/10"] fw sh kl l show ?thesis
    by simp
qed

subsection \<open>The forward pass: recurrence and probabilities\<close>

lemma spec_hprev_as_column:
  assumes "t < length q"
  shows "spec_hprev nn s X t =
         (if t = 0 then (if use_hidden_start_m s then h0_m s else Vector_Zero (rows (Whh_m s)))
          else map (spec_h nn s X) [0..<length q] ! (t - 1))"
proof (cases t)
  case 0
  then show ?thesis by simp
next
  case (Suc k)
  then have "k < length q" using assms by simp
  then have "map (spec_h nn s X) [0..<length q] ! k = spec_hprev nn s X (Suc k)"
    by (simp add: spec_h_def del: upt_Suc spec_hprev.simps)
  then show ?thesis using Suc by (simp del: upt_Suc spec_hprev.simps)
qed

text \<open>
  C3. On a non-empty sequence whose tokens pass the assertion of the lookup, the forward
  pass returns; \<open>X\<close> is the looked-up matrix; \<open>h\<close> has the rows of \<open>Whh\<close> and one column
  per token, and column \<open>t\<close> is \<open>Activate(Wxh\<cdot>X[:,t] + bh + Whh\<cdot>h_prev)\<close>, where
  \<open>h_prev\<close> is \<open>h0\<close> (or zero, when the initial state is not learned) at \<open>t = 0\<close> and
  column \<open>t-1\<close> afterwards; \<open>y = Why\<cdot>h[:,T-1] + by\<close> and \<open>p_i = exp(y_i - LogSumExp(y))\<close>.
\<close>

theorem C3_forward:
  assumes "input_sequence \<noteq> []"
    and "list_all (wid_ok (lookup_layer_m s)) input_sequence"
  shows "\<exists>s'. RunForwardPass nn s input_sequence = Inr s'
     \<and> x_m s' = spec_Lookup (lookup_layer_m s) input_sequence
     \<and> rows (h_m s') = rows (Whh_m s)
     \<and> cols (h_m s') = length input_sequence
     \<and> (\<forall>t<length input_sequence.
          columns (h_m s') ! t =
            EvaluateActivation nn (activation_function_m s)
              (vadd (vadd (mat_vec (Wxh_m s) (columns (x_m s') ! t)) (bh_m s))
                    (mat_vec (Whh_m s)
                       (if t = 0
                        then (if use_hidden_start_m s then h0_m s
                              else Vector_Zero (rows (Whh_m s)))
                        else columns (h_m s') ! (t - 1)))))
     \<and> y_m s' = vadd (mat_vec (Why_m s) (columns (h_m s') ! (length input_sequence - 1))) (by_m s)
     \<and> p_m s' = map (\<lambda>y_i. exp (y_i - LogSumExp (y_m s'))) (y_m s')"
proof -
  let ?X = "spec_Lookup (lookup_layer_m s) input_sequence"
  let ?s' = "spec_Forward nn s input_sequence"
  let ?T = "length input_sequence"
  have run: "RunForwardPass nn s input_sequence = Inr ?s'"
    using assms by (simp add: RunForwardPass_eq)
  have x: "x_m ?s' = ?X" and hc: "columns (h_m ?s') = map (spec_h nn s ?X) [0..<?T]"
    and hr: "rows (h_m ?s') = rows (Whh_m s)"
    by (simp_all add: spec_Forward_def)
  have step: "columns (h_m ?s') ! t =
            EvaluateActivation nn (activation_function_m s)
              (vadd (vadd (mat_vec (Wxh_m s) (columns (x_m ?s') ! t)) (bh_m s))
                    (mat_vec (Whh_m s)
                       (if t = 0
                        then (if use_hidden_start_m s then h0_m s
                              else Vector_Zero (rows (Whh_m s)))
                        else columns (h_m ?s') ! (t - 1))))"
    if t: "t < ?T" for t
  proof -
    have "columns (h_m ?s') ! t = spec_hprev nn s ?X (Suc t)"
      using t by (simp add: hc spec_h_def del: upt_Suc spec_hprev.simps)
    also have "\<dots> = EvaluateActivation nn (activation_function_m s)
              (vadd (vadd (mat_vec (Wxh_m s) (columns ?X ! t)) (bh_m s))
                    (mat_vec (Whh_m s) (spec_hprev nn s ?X t)))"
      by simp
    finally show ?thesis
      by (simp only: x hc spec_hprev_as_column [OF t])
  qed
  have T: "?T - 1 < ?T" using assms(1) by simp
  have y: "y_m ?s' = vadd (mat_vec (Why_m s) (columns (h_m ?s') ! (?T - 1))) (by_m s)"
    using h_m_spec_Forward_nth [OF T, of nn s] by (simp add: spec_Forward_def spec_y_def)
  have p: "p_m ?s' = map (\<lambda>y_i. exp (y_i - LogSumExp (y_m ?s'))) (y_m ?s')"
    by (simp add: spec_Forward_def spec_p_def Let_def)
  have c: "cols (h_m ?s') = ?T"
    by (rule spec_Forward_trace)
  from run x hr c step y p show ?thesis
    by blast
qed

lemma sum_list_divide: "(\<Sum>a\<leftarrow>xs. f a / c) = (\<Sum>a\<leftarrow>xs. f a) / (c::real)"
  by (induction xs) (simp_all add: add_divide_distrib)

lemma sum_list_exp_pos: "xs \<noteq> [] \<Longrightarrow> 0 < (\<Sum>a\<leftarrow>xs. exp (f a :: real))"
proof (induction xs)
  case Nil
  then show ?case by simp
next
  case (Cons a xs)
  have "0 \<le> (\<Sum>a\<leftarrow>xs. exp (f a))"
    by (rule sum_list_nonneg) auto
  then show ?case
    by (simp add: add_pos_nonneg)
qed

lemma softmax_sum:
  assumes "y \<noteq> []"
  shows "(\<Sum>a\<leftarrow>y. exp (a - LogSumExp y)) = 1"
proof -
  let ?m = "maxCoeff y"
  let ?S = "\<Sum>a\<leftarrow>y. exp (a - ?m)"
  have S: "0 < ?S" using assms by (rule sum_list_exp_pos)
  have "exp (a - LogSumExp y) = exp (a - ?m) / ?S" for a
  proof -
    have "a - LogSumExp y = (a - ?m) - ln ?S"
      by (simp add: LogSumExp_def)
    then show ?thesis
      using S by (simp only: exp_diff exp_ln)
  qed
  then have "(\<Sum>a\<leftarrow>y. exp (a - LogSumExp y)) = (\<Sum>a\<leftarrow>y. exp (a - ?m) / ?S)"
    by simp
  also have "\<dots> = ?S / ?S"
    by (rule sum_list_divide)
  finally show ?thesis using S by simp
qed

text \<open>
  C4. After a forward pass that returned, on a cell with at least one output class
  (\<open>Why\<close> has a row and \<open>by\<close> a coefficient), the coefficients of \<open>p\<close> sum to one, and
  each of them is positive. The sum is the exact one, over the reals.
\<close>

theorem C4_probabilities:
  assumes "RunForwardPass nn s input_sequence = Inr s'"
    and "0 < rows (Why_m s)" and "by_m s \<noteq> []"
  shows "sum_list (p_m s') = 1 \<and> (\<forall>i<length (p_m s'). 0 < p_m s' ! i)
         \<and> length (p_m s') = min (rows (Why_m s)) (length (by_m s))"
proof -
  have s': "s' = spec_Forward nn s input_sequence"
    using assms(1) by (rule RunForwardPass_Inr(1))
  let ?y = "spec_y nn s input_sequence"
  have p: "p_m s' = map (\<lambda>a. exp (a - LogSumExp ?y)) ?y"
    by (simp add: s' spec_Forward_def spec_p_def Let_def)
  have "0 < length ?y"
    using assms(2,3) by (simp add: spec_y_def)
  then have "?y \<noteq> []"
    by auto
  then have "sum_list (p_m s') = 1"
    unfolding p by (rule softmax_sum)
  moreover have "\<forall>i<length (p_m s'). 0 < p_m s' ! i"
    by (simp add: p)
  ultimately show ?thesis
    by (simp add: s' spec_Forward_trace)
qed


lemma example_wid_ok: "list_all (wid_ok (lookup_layer_m example_rnn)) example_sequence"
  by (simp add: example_rnn_def example_lookup_def example_sequence_def wid_ok_def cols_def)

lemma example_forward:
  "RunForwardPass logistic_nn example_rnn example_sequence =
   Inr (spec_Forward logistic_nn example_rnn example_sequence)"
  using example_wid_ok by (simp add: RunForwardPass_eq example_sequence_def)

lemma example_shapes_ok: "shapes_ok example_rnn"
  by (simp add: shapes_ok_def example_rnn_def example_lookup_def has_shape_def cols_def
      GetInputSize_def)

lemma logistic_nn_keeps_length: "keeps_length logistic_nn kind n"
  by (simp add: keeps_length_def logistic_nn_def)

theorem C3_forward_witness:
  "example_sequence \<noteq> []
   \<and> list_all (wid_ok (lookup_layer_m example_rnn)) example_sequence
   \<and> (\<exists>s'. RunForwardPass logistic_nn example_rnn example_sequence = Inr s'
        \<and> x_m s' = \<lparr>rows = 2, columns = [[1, 2], [3, 4]]\<rparr>
        \<and> cols (h_m s') = 2
        \<and> columns (h_m s') ! 0 = [logistic 1, logistic 2]
        \<and> columns (h_m s') ! 1 = [logistic (3 + logistic 2), logistic (4 + logistic 1)]
        \<and> y_m s' = columns (h_m s') ! 1)"
proof -
  have ne: "example_sequence \<noteq> []"
    by (simp add: example_sequence_def)
  from C3_forward [OF ne example_wid_ok, of logistic_nn]
  obtain s' where s': "RunForwardPass logistic_nn example_rnn example_sequence = Inr s'"
    "x_m s' = spec_Lookup (lookup_layer_m example_rnn) example_sequence"
    "cols (h_m s') = length example_sequence"
    "\<forall>t<length example_sequence.
          columns (h_m s') ! t =
            EvaluateActivation logistic_nn (activation_function_m example_rnn)
              (vadd (vadd (mat_vec (Wxh_m example_rnn) (columns (x_m s') ! t)) (bh_m example_rnn))
                    (mat_vec (Whh_m example_rnn)
                       (if t = 0
                        then (if use_hidden_start_m example_rnn then h0_m example_rnn
                              else Vector_Zero (rows (Whh_m example_rnn)))
                        else columns (h_m s') ! (t - 1))))"
    "y_m s' = vadd (mat_vec (Why_m example_rnn) (columns (h_m s') ! (length example_sequence - 1)))
                (by_m example_rnn)"
    by blast
  have x: "x_m s' = \<lparr>rows = 2, columns = [[1, 2], [3, 4]]\<rparr>"
    by (simp add: s'(2) spec_Lookup_def example_rnn_def example_lookup_def example_sequence_def
        lookup_column_def)
  have h0: "columns (h_m s') ! 0 = [logistic 1, logistic 2]"
    using s'(4) [rule_format, of 0]
    by (simp add: x example_sequence_def example_rnn_def logistic_nn_def mat_vec_def vadd_def
        coeff_def cols_def lessThan_Suc numeral_2_eq_2)
  have h1: "columns (h_m s') ! 1 = [logistic (3 + logistic 2), logistic (4 + logistic 1)]"
    using s'(4) [rule_format, of 1]
    by (simp add: x h0 example_sequence_def example_rnn_def logistic_nn_def mat_vec_def vadd_def
        coeff_def cols_def lessThan_Suc numeral_2_eq_2)
  have y: "y_m s' = columns (h_m s') ! 1"
    using h1 by (simp add: s'(5) example_sequence_def example_rnn_def mat_vec_def vadd_def
        coeff_def cols_def lessThan_Suc numeral_2_eq_2)
  have c: "cols (h_m s') = 2"
    by (simp add: s'(3) example_sequence_def)
  from ne example_wid_ok s'(1) x c h0 h1 y show ?thesis
    by blast
qed

theorem C4_probabilities_witness:
  "RunForwardPass logistic_nn example_rnn example_sequence
     = Inr (spec_Forward logistic_nn example_rnn example_sequence)
   \<and> 0 < rows (Why_m example_rnn) \<and> by_m example_rnn \<noteq> []
   \<and> sum_list (p_m (spec_Forward logistic_nn example_rnn example_sequence)) = 1
   \<and> length (p_m (spec_Forward logistic_nn example_rnn example_sequence)) = 2
   \<and> 0 < p_m (spec_Forward logistic_nn example_rnn example_sequence) ! 0
   \<and> 0 < p_m (spec_Forward logistic_nn example_rnn example_sequence) ! 1"
proof -
  have r: "0 < rows (Why_m example_rnn)" and b: "by_m example_rnn \<noteq> []"
    by (simp_all add: example_rnn_def)
  have m: "min (rows (Why_m example_rnn)) (length (by_m example_rnn)) = 2"
    by (simp add: example_rnn_def)
  from C4_probabilities [OF example_forward r b] example_forward r b show ?thesis
    by (simp add: m)
qed

text \<open>
  C9, as the code has it. The forward pass has no test for an empty sequence: the lookup
  accepts it and returns a matrix without columns, the loop over the tokens does nothing,
  and the read-out then reads column \<open>-1\<close> of \<open>h\<close>, an access outside the matrix that
  the source does not check.
\<close>

theorem C9_empty_sequence:
  "RunForwardLookupLayer (lookup_layer_m s) [] = Inr (Matrix_Zero (GetInputSize s) 0)
   \<and> RunForwardPass nn s [] = Inl OutOfRange"
  by (simp add: RunForwardPass_eq RunForwardLookupLayer_def GetInputSize_def)

theorem C9_counterexample:
  "\<not> RunForwardPass logistic_nn example_rnn [] = Inl AssertionFailed"
  by (simp add: RunForwardPass_eq)

text \<open>
  C10. Whenever the forward-only evaluation \<open>Run\<close> returns, the cell it returns differs
  from the cell it started from in the trace \<open>x\<close>, \<open>h\<close>, \<open>y\<close>, \<open>p\<close> at most: the
  lookup layer with \<open>E\<close>, the matrices \<open>Wxh\<close>, \<open>Whh\<close>, \<open>Why\<close> and the vectors \<open>bh\<close>,
  \<open>by\<close>, \<open>h0\<close> are the same. It returns on every non-empty sequence whose tokens pass
  the assertion of the lookup, when the cell has at least one output class.
\<close>

theorem C10_forward_only_frame:
  "(Run nn s input_sequence = Inr (s', predicted_label) \<longrightarrow>
      s' = s\<lparr>x_m := x_m s', h_m := h_m s', y_m := y_m s', p_m := p_m s'\<rparr>
      \<and> lookup_layer_m s' = lookup_layer_m s
      \<and> E_m (lookup_layer_m s') = E_m (lookup_layer_m s)
      \<and> Wxh_m s' = Wxh_m s \<and> Whh_m s' = Whh_m s \<and> Why_m s' = Why_m s
      \<and> bh_m s' = bh_m s \<and> by_m s' = by_m s \<and> h0_m s' = h0_m s)
   \<and> (input_sequence \<noteq> [] \<and> list_all (wid_ok (lookup_layer_m s)) input_sequence
        \<and> 0 < rows (Why_m s) \<and> by_m s \<noteq> [] \<longrightarrow>
      (\<exists>s'' l. Run nn s input_sequence = Inr (s'', l)))"
proof (intro conjI impI)
  assume "Run nn s input_sequence = Inr (s', predicted_label)"
  then have "RunForwardPass nn s input_sequence = Inr s'"
    by (auto simp add: Run_def and_then_def split: sum.splits if_splits)
  then have s': "s' = spec_Forward nn s input_sequence"
    by (rule RunForwardPass_Inr(1))
  show "s' = s\<lparr>x_m := x_m s', h_m := h_m s', y_m := y_m s', p_m := p_m s'\<rparr>"
    by (simp add: s' spec_Forward_def)
  show "lookup_layer_m s' = lookup_layer_m s" "E_m (lookup_layer_m s') = E_m (lookup_layer_m s)"
    "Wxh_m s' = Wxh_m s" "Whh_m s' = Whh_m s" "Why_m s' = Why_m s"
    "bh_m s' = bh_m s" "by_m s' = by_m s" "h0_m s' = h0_m s"
    by (simp_all add: s')
next
  assume a: "input_sequence \<noteq> [] \<and> list_all (wid_ok (lookup_layer_m s)) input_sequence
        \<and> 0 < rows (Why_m s) \<and> by_m s \<noteq> []"
  then have "RunForwardPass nn s input_sequence = Inr (spec_Forward nn s input_sequence)"
    by (simp add: RunForwardPass_eq)
  moreover have "0 < length (p_m (spec_Forward nn s input_sequence))"
    using a by (simp add: spec_Forward_trace)
  ultimately show "\<exists>s'' l. Run nn s input_sequence = Inr (s'', l)"
    by (simp add: Run_def)
qed

theorem C10_forward_only_frame_witness:
  "example_sequence \<noteq> [] \<and> list_all (wid_ok (lookup_layer_m example_rnn)) example_sequence
   \<and> 0 < rows (Why_m example_rnn) \<and> by_m example_rnn \<noteq> []
   \<and> (\<exists>s' l. Run logistic_nn example_rnn example_sequence = Inr (s', l)
         \<and> lookup_layer_m s' = example_lookup
         \<and> Wxh_m s' = Wxh_m example_rnn \<and> Whh_m s' = Whh_m example_rnn
         \<and> Why_m s' = Why_m example_rnn \<and> bh_m s' = [0, 0] \<and> by_m s' = [0, 0]
         \<and> h0_m s' = [0, 0])"
proof -
  have a: "example_sequence \<noteq> [] \<and> list_all (wid_ok (lookup_layer_m example_rnn)) example_sequence
        \<and> 0 < rows (Why_m example_rnn) \<and> by_m example_rnn \<noteq> []"
    using example_wid_ok by (simp add: example_sequence_def example_rnn_def)
  from C10_forward_only_frame [of logistic_nn example_rnn example_sequence] a obtain s' l where run: "Run logistic_nn example_rnn example_sequence = Inr (s', l)"
    by blast
  from C10_forward_only_frame [of logistic_nn example_rnn example_sequence s' l] run
  have "lookup_layer_m s' = lookup_layer_m example_rnn" "Wxh_m s' = Wxh_m example_rnn"
    "Whh_m s' = Whh_m example_rnn" "Why_m s' = Why_m example_rnn"
    "bh_m s' = bh_m example_rnn" "by_m s' = by_m example_rnn" "h0_m s' = h0_m example_rnn"
    by blast+
  moreover have "lookup_layer_m example_rnn = example_lookup" "bh_m example_rnn = [0, 0]"
    "by_m example_rnn = [0, 0]" "h0_m example_rnn = [0, 0]"
    by (simp_all add: example_rnn_def)
  ultimately show ?thesis
    using a run by auto
qed

subsection \<open>The embedding update: sequential updates and locality\<close>

text \<open>
  C6. When every token of the sequence is looked up in a column of \<open>E\<close> and \<open>dX\<close> has a
  column for every position, the embedding update returns, and \<open>E\<close> is then the result of
  the assignments \<open>E[:, token[t].id+1] -= rate * dX[:,t]\<close>, done one after the other for
  \<open>t = 0, 1, \<dots>\<close>; nothing else of the layer changes. A token that occurs at several
  positions has one subtraction applied per occurrence; when \<open>E\<close> and \<open>dX\<close> have \<open>D\<close>
  rows, column \<open>c\<close> of the result is column \<open>c\<close> of \<open>E\<close> minus \<open>rate\<close> times the sum of
  the columns of \<open>dX\<close> at the positions looked up in \<open>c\<close>.
\<close>

theorem C6_embedding_update:
  assumes "list_all (wid_ok L) input_sequence"
    and "length input_sequence \<le> cols dX"
  shows "RunBackwardLookupLayer L input_sequence dX learning_rate =
           Inr (L\<lparr>E_m := spec_Update (E_m L) input_sequence dX learning_rate\<rparr>)
     \<and> (has_shape (E_m L) D (cols (E_m L)) \<and> has_shape dX D (cols dX) \<longrightarrow>
          (\<forall>c<cols (E_m L).
             columns (spec_Update (E_m L) input_sequence dX learning_rate) ! c =
               vsub (columns (E_m L) ! c)
                 (smul learning_rate
                    (vsum D (map (\<lambda>t. columns dX ! t) (occurrences input_sequence c))))))"
proof (intro conjI impI allI)
  show "RunBackwardLookupLayer L input_sequence dX learning_rate =
           Inr (L\<lparr>E_m := spec_Update (E_m L) input_sequence dX learning_rate\<rparr>)"
    using assms by (rule RunBackwardLookupLayer_eq)
next
  fix c
  assume sh: "has_shape (E_m L) D (cols (E_m L)) \<and> has_shape dX D (cols dX)" and c: "c < cols (E_m L)"
  have 1: "length (columns (E_m L) ! c) = D"
    using sh c by (simp add: has_shape_def list_all_length cols_def)
  have 2: "\<forall>t<length input_sequence. length (columns dX ! t) = D"
    using sh assms(2) by (simp add: has_shape_def list_all_length cols_def)
  show "columns (spec_Update (E_m L) input_sequence dX learning_rate) ! c =
               vsub (columns (E_m L) ! c)
                 (smul learning_rate
                    (vsum D (map (\<lambda>t. columns dX ! t) (occurrences input_sequence c))))"
    unfolding spec_Update_def occurrences_def
    using c 1 2 by (intro fold_spec_Update_column) simp_all
qed

theorem C6_embedding_update_witness:
  "list_all (wid_ok example_lookup) example_repeated
   \<and> length example_repeated \<le> cols example_dX
   \<and> has_shape (E_m example_lookup) 2 (cols (E_m example_lookup))
   \<and> has_shape example_dX 2 (cols example_dX)
   \<and> (\<exists>L'. RunBackwardLookupLayer example_lookup example_repeated example_dX (1/10) = Inr L'
        \<and> columns (E_m L') ! 1 = [- 5, - 6]
        \<and> columns (E_m L') ! 2 = [0, 0])"
proof -
  have ok: "list_all (wid_ok example_lookup) example_repeated"
    by (simp add: example_lookup_def example_repeated_def wid_ok_def cols_def)
  have len: "length example_repeated \<le> cols example_dX"
    by (simp add: example_repeated_def example_dX_def cols_def)
  have sh: "has_shape (E_m example_lookup) 2 (cols (E_m example_lookup))
            \<and> has_shape example_dX 2 (cols example_dX)"
    by (simp add: has_shape_def example_lookup_def example_dX_def cols_def)
  note th = C6_embedding_update [OF ok len, of "1/10" 2]
  let ?E' = "spec_Update (E_m example_lookup) example_repeated example_dX (1/10)"
  have run: "RunBackwardLookupLayer example_lookup example_repeated example_dX (1/10) =
           Inr (example_lookup\<lparr>E_m := ?E'\<rparr>)"
    using th by blast
  have col: "\<forall>c<cols (E_m example_lookup). columns ?E' ! c =
               vsub (columns (E_m example_lookup) ! c)
                 (smul (1/10) (vsum 2 (map (\<lambda>t. columns example_dX ! t)
                    (occurrences example_repeated c))))"
    using th sh by blast
  have o1: "occurrences example_repeated 1 = [0, 2]"
    and o2: "occurrences example_repeated 2 = [1]"
    by (simp_all add: occurrences_def example_repeated_def upt_rec [of 0] upt_rec [of 1]
        upt_rec [of 2] upt_rec [of 3])
  have z: "Vector_Zero 2 = [0, 0]"
    by (simp add: Vector_Zero_def numeral_2_eq_2)
  have "columns ?E' ! 1 = vsub [1, 2] (smul (1/10) (vsum 2 [[10, 20], [50, 60]]))"
    using col [rule_format, of 1] o1
    by (simp add: example_lookup_def example_dX_def cols_def)
  then have c1: "columns ?E' ! 1 = [- 5, - 6]"
    by (simp add: z vsum_def vadd_def vsub_def smul_def)
  have "columns ?E' ! 2 = vsub [3, 4] (smul (1/10) (vsum 2 [[30, 40]]))"
    using col [rule_format, of 2] o2
    by (simp add: example_lookup_def example_dX_def cols_def)
  then have c2: "columns ?E' ! 2 = [0, 0]"
    by (simp add: z vsum_def vadd_def vsub_def smul_def)
  from ok len sh run c1 c2 show ?thesis
    by simp
qed

lemma backward_lookup_body_Inr:
  assumes "RunBackwardLookupLayer_body s dX r t Em = Inr Em'"
  shows "Em' = spec_Update_step s dX r t Em \<and> 0 \<le> wid (s ! t) + 1"
  using assms
  by (auto simp add: RunBackwardLookupLayer_body_def spec_Update_step_def Let_def col_def
      set_col_def and_then_def add.commute split: if_splits sum.splits)

lemma backward_lookup_loop_Inr:
  assumes "for_loop [0..<n] (RunBackwardLookupLayer_body s dX r) Em = Inr Em'" "n \<le> length s"
  shows "Em' = fold (spec_Update_step s dX r) [0..<n] Em
         \<and> list_all (\<lambda>inp. 0 \<le> wid inp + 1) (take n s)"
  using assms
proof (induction n arbitrary: Em')
  case 0
  then show ?case by simp
next
  case (Suc n)
  then have n: "n < length s" by simp
  have tk: "take (Suc n) s = take n s @ [s ! n]"
    using n by (simp add: take_Suc_conv_app_nth)
  from Suc.prems(1) obtain Em1 where
    1: "for_loop [0..<n] (RunBackwardLookupLayer_body s dX r) Em = Inr Em1"
    and 2: "RunBackwardLookupLayer_body s dX r n Em1 = Inr Em'"
    by (auto simp add: for_loop_snoc and_then_def split: sum.splits)
  have "Em1 = fold (spec_Update_step s dX r) [0..<n] Em
        \<and> list_all (\<lambda>inp. 0 \<le> wid inp + 1) (take n s)"
    using 1 n by (intro Suc.IH) simp_all
  then show ?case
    using backward_lookup_body_Inr [OF 2] by (simp add: tk)
qed

lemma RunBackwardPass_Inr_lookup:
  assumes "RunBackwardPass nn s q l r = Inr s'"
  shows "\<exists>dX. RunBackwardLookupLayer (lookup_layer_m s) q dX r = Inr (lookup_layer_m s')"
  using assms
  by (auto simp add: RunBackwardPass_def and_then_def Let_def split: sum.splits if_splits)

text \<open>
  C7. Whenever the backward pass returns, \<open>E\<close> keeps its shape, and every column of \<open>E\<close>
  in which no token of the sequence is looked up (no position \<open>t\<close> has
  \<open>token[t].id + 1 = c\<close>) is the same after the call as before.
\<close>

theorem C7_update_locality:
  assumes "RunBackwardPass nn s input_sequence output_label learning_rate = Inr s'"
    and "list_all (\<lambda>inp. wid inp + 1 \<noteq> int c) input_sequence"
  shows "columns (E_m (lookup_layer_m s')) ! c = columns (E_m (lookup_layer_m s)) ! c
     \<and> rows (E_m (lookup_layer_m s')) = rows (E_m (lookup_layer_m s))
     \<and> cols (E_m (lookup_layer_m s')) = cols (E_m (lookup_layer_m s))"
proof -
  from RunBackwardPass_Inr_lookup [OF assms(1)] obtain dX where
    "RunBackwardLookupLayer (lookup_layer_m s) input_sequence dX learning_rate
       = Inr (lookup_layer_m s')"
    by blast
  then obtain Em' where "for_loop [0..<length input_sequence]
       (RunBackwardLookupLayer_body input_sequence dX learning_rate) (E_m (lookup_layer_m s))
       = Inr Em'" and "lookup_layer_m s' = (lookup_layer_m s)\<lparr>E_m := Em'\<rparr>"
    by (auto simp add: RunBackwardLookupLayer_def and_then_def split: sum.splits)
  then have "for_loop [0..<length input_sequence]
       (RunBackwardLookupLayer_body input_sequence dX learning_rate) (E_m (lookup_layer_m s))
       = Inr (E_m (lookup_layer_m s'))"
    by simp
  from backward_lookup_loop_Inr [OF this]
  have E': "E_m (lookup_layer_m s') =
      fold (spec_Update_step input_sequence dX learning_rate) [0..<length input_sequence]
        (E_m (lookup_layer_m s))"
    and nn: "list_all (\<lambda>inp. 0 \<le> wid inp + 1) input_sequence"
    by simp_all
  have "c \<notin> (\<lambda>inp. nat (wid inp + 1)) ` set (take (length input_sequence) input_sequence)"
    using assms(2) nn by (auto simp add: list_all_iff)
  then have "columns (E_m (lookup_layer_m s')) ! c = columns (E_m (lookup_layer_m s)) ! c"
    unfolding E' by (rule fold_spec_Update_untouched) simp
  then show ?thesis
    by (simp add: E')
qed

theorem C7_update_locality_witness:
  "list_all (\<lambda>inp. wid inp + 1 \<noteq> int 3) example_sequence
   \<and> (\<exists>s'. RunBackwardPass logistic_nn (spec_Forward logistic_nn example_rnn example_sequence)
             example_sequence 0 (1/10) = Inr s'
        \<and> columns (E_m (lookup_layer_m s')) ! 3 = [5, 6]
        \<and> columns (E_m (lookup_layer_m s')) ! 0 = [0, 0]
        \<and> cols (E_m (lookup_layer_m s')) = 4)"
proof -
  let ?s = "spec_Forward logistic_nn example_rnn example_sequence"
  let ?s' = "spec_Backward logistic_nn ?s example_sequence (nat 0) (1/10)"
  have ne: "example_sequence \<noteq> []"
    by (simp add: example_sequence_def)
  have l: "(0::int) \<le> 0" "0 < int (output_size_m example_rnn)"
    by (simp_all add: example_rnn_def)
  have run: "RunBackwardPass logistic_nn ?s example_sequence 0 (1/10) = Inr ?s'"
    using example_shapes_ok logistic_nn_keeps_length ne l example_wid_ok
    by (rule RunBackwardPass_eq)
  have 3: "list_all (\<lambda>inp. wid inp + 1 \<noteq> int 3) example_sequence"
    and 0: "list_all (\<lambda>inp. wid inp + 1 \<noteq> int 0) example_sequence"
    by (simp_all add: example_sequence_def)
  have E: "columns (E_m (lookup_layer_m ?s)) ! 3 = [5, 6]" "columns (E_m (lookup_layer_m ?s)) ! 0 = [0, 0]"
    "cols (E_m (lookup_layer_m ?s)) = 4"
    by (simp_all add: example_rnn_def example_lookup_def cols_def)
  from C7_update_locality [OF run 3] C7_update_locality [OF run 0] E 3 run show ?thesis
    by (intro conjI exI [of _ ?s']) simp_all
qed

subsection \<open>Initialisation\<close>

lemma fill_coeff_eq:
  "fill_coeff lib mx i j (W, rand_state lib 1234 k) =
   (set_coeff W i j (mx * unit_draw lib 1234 k), rand_state lib 1234 (Suc k))"
  by (simp add: fill_coeff_def unit_draw_def draw_def Let_def split: prod.splits)

lemma fill_row_result_0: "fill_row_result lib mx i 0 k W = W"
  by (simp add: fill_row_result_def cols_def map_nth)

lemma cols_fill_row_result [simp]: "cols (fill_row_result lib mx i n k W) = cols W"
  by (simp add: fill_row_result_def cols_def)

lemma set_coeff_fill_row_result:
  assumes "n < cols W"
  shows "set_coeff (fill_row_result lib mx i n k W) i n (mx * unit_draw lib 1234 (k + n)) =
         fill_row_result lib mx i (Suc n) k W"
proof -
  let ?f = "\<lambda>n j. if j < n then (columns W ! j)[i := mx * unit_draw lib 1234 (k + j)]
                          else columns W ! j"
  let ?v = "mx * unit_draw lib 1234 (k + n)"
  have n: "n < length (columns W)" using assms by (simp add: cols_def)
  have "(map (?f n) [0..<cols W])[n := (map (?f n) [0..<cols W] ! n)[i := ?v]] =
        map (?f (Suc n)) [0..<cols W]"
  proof (rule nth_equalityI)
    show "length ((map (?f n) [0..<cols W])[n := (map (?f n) [0..<cols W] ! n)[i := ?v]]) =
          length (map (?f (Suc n)) [0..<cols W])"
      by simp
  next
    fix j
    assume "j < length ((map (?f n) [0..<cols W])[n := (map (?f n) [0..<cols W] ! n)[i := ?v]])"
    then have j: "j < cols W" by simp
    show "(map (?f n) [0..<cols W])[n := (map (?f n) [0..<cols W] ! n)[i := ?v]] ! j =
          map (?f (Suc n)) [0..<cols W] ! j"
    proof (cases "j = n")
      case True
      then show ?thesis using assms by simp
    next
      case False
      then have "(j < Suc n) = (j < n)" by auto
      then show ?thesis using False j by (simp add: nth_list_update)
    qed
  qed
  then show ?thesis
    by (simp add: set_coeff_def fill_row_result_def)
qed

lemma fill_row:
  assumes "n \<le> cols W"
  shows "fold (fill_coeff lib mx i) [0..<n] (W, rand_state lib 1234 k) =
         (fill_row_result lib mx i n k W, rand_state lib 1234 (k + n))"
  using assms
proof (induction n)
  case 0
  show ?case by (simp add: fill_row_result_0)
next
  case (Suc n)
  then have "n < cols W" by simp
  then show ?case
    using Suc by (simp add: fill_coeff_eq set_coeff_fill_row_result)
qed

lemma rows_filled_0:
  assumes "has_shape W r c"
  shows "rows_filled lib mx 0 k W = W"
proof -
  have "map (\<lambda>j. map (\<lambda>i. columns W ! j ! i) [0..<rows W]) [0..<cols W] = columns W"
    using assms by (simp add: list_eq_iff_nth_eq has_shape_def cols_def list_all_length)
  then show ?thesis
    by (simp add: rows_filled_def)
qed

lemma rows_filled_shape [simp]:
  "cols (rows_filled lib mx m k W) = cols W" "rows (rows_filled lib mx m k W) = rows W"
  by (simp_all add: rows_filled_def cols_def)

lemma fill_row_rows_filled:
  assumes "m < rows W"
  shows "fill_row_result lib mx m (cols W) (k + m * cols W) (rows_filled lib mx m k W) =
         rows_filled lib mx (Suc m) k W"
proof -
  let ?g = "\<lambda>m j i. if i < m then mx * unit_draw lib 1234 (k + i * cols W + j)
                          else columns W ! j ! i"
  have "(map (?g m j) [0..<rows W])[m := mx * unit_draw lib 1234 (k + m * cols W + j)] =
        map (?g (Suc m) j) [0..<rows W]" for j
  proof (rule nth_equalityI)
    show "length ((map (?g m j) [0..<rows W])[m := mx * unit_draw lib 1234 (k + m * cols W + j)]) =
          length (map (?g (Suc m) j) [0..<rows W])"
      by simp
  next
    fix i
    assume "i < length ((map (?g m j) [0..<rows W])[m := mx * unit_draw lib 1234 (k + m * cols W + j)])"
    then have i: "i < rows W" by simp
    show "(map (?g m j) [0..<rows W])[m := mx * unit_draw lib 1234 (k + m * cols W + j)] ! i =
          map (?g (Suc m) j) [0..<rows W] ! i"
    proof (cases "i = m")
      case True
      then show ?thesis using assms by simp
    next
      case False
      then have "(i < Suc m) = (i < m)" by auto
      then show ?thesis using False i by (simp add: nth_list_update)
    qed
  qed
  note upd = this
  have nth: "columns (rows_filled lib mx m k W) ! j = map (?g m j) [0..<rows W]" if "j < cols W" for j
    using that by (simp add: rows_filled_def cols_def)
  have "map (\<lambda>j. if j < cols W
                then (columns (rows_filled lib mx m k W) ! j)
                       [m := mx * unit_draw lib 1234 (k + m * cols W + j)]
                else columns (rows_filled lib mx m k W) ! j) [0..<cols W] =
        map (\<lambda>j. map (?g (Suc m) j) [0..<rows W]) [0..<cols W]"
  proof (rule map_cong [OF refl])
    fix j
    assume "j \<in> set [0..<cols W]"
    then have j: "j < cols W" by simp
    show "(if j < cols W
           then (columns (rows_filled lib mx m k W) ! j)
                  [m := mx * unit_draw lib 1234 (k + m * cols W + j)]
           else columns (rows_filled lib mx m k W) ! j) = map (?g (Suc m) j) [0..<rows W]"
      using j by (simp only: if_True nth [OF j] upd)
  qed
  then show ?thesis
    by (simp add: fill_row_result_def rows_filled_def [of lib mx "Suc m"])
qed

lemma fill_rows:
  assumes "has_shape W r c" "m \<le> r"
  shows "fold (\<lambda>i. fold (fill_coeff lib mx i) [0..<c]) [0..<m] (W, rand_state lib 1234 k) =
         (rows_filled lib mx m k W, rand_state lib 1234 (k + m * c))"
  using assms(2)
proof (induction m)
  case 0
  show ?case using assms(1) by (simp add: rows_filled_0)
next
  case (Suc m)
  have c: "c = cols W" "r = rows W" using assms(1) by (simp_all add: has_shape_def)
  have m: "m < rows W" using Suc.prems c by simp
  have "fold (fill_coeff lib mx m) [0..<c] (rows_filled lib mx m k W, rand_state lib 1234 (k + m * c)) =
        (fill_row_result lib mx m c (k + m * c) (rows_filled lib mx m k W),
         rand_state lib 1234 (k + m * c + c))"
    by (intro fill_row) (simp add: c)
  also have "\<dots> = (rows_filled lib mx (Suc m) k W, rand_state lib 1234 (k + Suc m * c))"
    using fill_row_rows_filled [OF m, of lib mx k] by (simp add: c add_ac)
  finally show ?case
    using Suc by simp
qed

lemma rows_filled_all:
  "has_shape W r c \<Longrightarrow> rows_filled lib mx r k W = scaled_uniform lib mx r c k"
  by (simp add: rows_filled_def scaled_uniform_def has_shape_def)

lemma fill_matrix:
  assumes "has_shape W r c"
  shows "fold (\<lambda>i. fold (fill_coeff lib mx i) [0..<cols W]) [0..<rows W] (W, rand_state lib 1234 k) =
         (scaled_uniform lib mx r c k, rand_state lib 1234 (k + r * c))"
proof -
  have c: "cols W = c" "rows W = r" using assms by (simp_all add: has_shape_def)
  show ?thesis
    unfolding c using fill_rows [OF assms le_refl] by (simp add: rows_filled_all [OF assms])
qed

lemma fill_weight_eq:
  assumes "has_shape (weight_at s w) r c"
  shows "fill_weight lib nn w (s, rand_state lib 1234 k) =
         (weight_store w (scaled_uniform lib (spec_max nn s c r) r c k) s,
          rand_state lib 1234 (k + r * c))"
proof -
  have c: "cols (weight_at s w) = c" "rows (weight_at s w) = r"
    using assms by (simp_all add: has_shape_def)
  show ?thesis
    unfolding fill_weight_def prod.case Let_def fill_matrix [OF assms]
    by (simp add: c spec_max_def)
qed

lemma has_shape_Matrix_Zero [simp]: "has_shape (Matrix_Zero r c) r c"
  by (simp add: has_shape_def Matrix_Zero_def cols_def list_all_iff)

lemma has_shape_scaled_uniform [simp]: "has_shape (scaled_uniform lib mx r c k) r c"
  by (simp add: has_shape_def scaled_uniform_def cols_def list_all_iff)

lemma coeff_scaled_uniform:
  "i < r \<Longrightarrow> j < c \<Longrightarrow>
   coeff (scaled_uniform lib mx r c k) i j = mx * unit_draw lib 1234 (k + i * c + j)"
  by (simp add: coeff_def scaled_uniform_def)

lemma spec_max_weight_store [simp]: "spec_max nn (weight_store w M s) a b = spec_max nn s a b"
  by (cases w) (simp_all add: spec_max_def)

lemma fill_all_weights:
  assumes "has_shape (E_m (lookup_layer_m s3)) D V1" "has_shape (Wxh_m s3) H D"
    "has_shape (Whh_m s3) H H" "has_shape (Why_m s3) C H"
  shows "fold (fill_weight lib nn) [ref_E, ref_Wxh, ref_Whh, ref_Why] (s3, rand_state lib 1234 0) =
         (s3\<lparr>lookup_layer_m :=
               (lookup_layer_m s3)\<lparr>E_m := scaled_uniform lib (spec_max nn s3 V1 D) D V1 0\<rparr>,
             Wxh_m := scaled_uniform lib (spec_max nn s3 D H) H D (D * V1),
             Whh_m := scaled_uniform lib (spec_max nn s3 H H) H H (D * V1 + H * D),
             Why_m := scaled_uniform lib (spec_max nn s3 H C) C H (D * V1 + H * D + H * H)\<rparr>,
          rand_state lib 1234 (D * V1 + H * D + H * H + C * H))"
proof -
  let ?E = "scaled_uniform lib (spec_max nn s3 V1 D) D V1 0"
  let ?Wxh = "scaled_uniform lib (spec_max nn s3 D H) H D (D * V1)"
  let ?Whh = "scaled_uniform lib (spec_max nn s3 H H) H H (D * V1 + H * D)"
  let ?Why = "scaled_uniform lib (spec_max nn s3 H C) C H (D * V1 + H * D + H * H)"
  let ?s4 = "weight_store ref_E ?E s3"
  let ?s5 = "weight_store ref_Wxh ?Wxh ?s4"
  let ?s6 = "weight_store ref_Whh ?Whh ?s5"
  let ?s7 = "weight_store ref_Why ?Why ?s6"
  have "fill_weight lib nn ref_E (s3, rand_state lib 1234 0) =
        (weight_store ref_E (scaled_uniform lib (spec_max nn s3 V1 D) D V1 0) s3,
         rand_state lib 1234 (0 + D * V1))"
    by (rule fill_weight_eq) (simp add: assms)
  then have 1: "fill_weight lib nn ref_E (s3, rand_state lib 1234 0) =
        (?s4, rand_state lib 1234 (D * V1))"
    by (simp only: add_0)
  have "fill_weight lib nn ref_Wxh (?s4, rand_state lib 1234 (D * V1)) =
        (weight_store ref_Wxh (scaled_uniform lib (spec_max nn ?s4 D H) H D (D * V1)) ?s4,
         rand_state lib 1234 (D * V1 + H * D))"
    by (rule fill_weight_eq) (simp add: assms)
  then have 2: "fill_weight lib nn ref_Wxh (?s4, rand_state lib 1234 (D * V1)) =
        (?s5, rand_state lib 1234 (D * V1 + H * D))"
    by (simp only: spec_max_weight_store)
  have "fill_weight lib nn ref_Whh (?s5, rand_state lib 1234 (D * V1 + H * D)) =
        (weight_store ref_Whh (scaled_uniform lib (spec_max nn ?s5 H H) H H (D * V1 + H * D)) ?s5,
         rand_state lib 1234 (D * V1 + H * D + H * H))"
    by (rule fill_weight_eq) (simp add: assms)
  then have 3: "fill_weight lib nn ref_Whh (?s5, rand_state lib 1234 (D * V1 + H * D)) =
        (?s6, rand_state lib 1234 (D * V1 + H * D + H * H))"
    by (simp only: spec_max_weight_store)
  have "fill_weight lib nn ref_Why (?s6, rand_state lib 1234 (D * V1 + H * D + H * H)) =
        (weight_store ref_Why
           (scaled_uniform lib (spec_max nn ?s6 H C) C H (D * V1 + H * D + H * H)) ?s6,
         rand_state lib 1234 (D * V1 + H * D + H * H + C * H))"
    by (rule fill_weight_eq) (simp add: assms)
  then have 4: "fill_weight lib nn ref_Why (?s6, rand_state lib 1234 (D * V1 + H * D + H * H)) =
        (?s7, rand_state lib 1234 (D * V1 + H * D + H * H + C * H))"
    by (simp only: spec_max_weight_store)
  have "fold (fill_weight lib nn) [ref_E, ref_Wxh, ref_Whh, ref_Why] (s3, rand_state lib 1234 0) =
        (?s7, rand_state lib 1234 (D * V1 + H * D + H * H + C * H))"
    by (simp only: fold_simps 1 2 3 4 o_apply id_apply)
  moreover have "?s7 = s3\<lparr>lookup_layer_m := (lookup_layer_m s3)\<lparr>E_m := ?E\<rparr>,
             Wxh_m := ?Wxh, Whh_m := ?Whh, Why_m := ?Why\<rparr>"
    by simp
  ultimately show ?thesis
    by (simp only:)
qed

lemma InitializeParameters_eq:
  "InitializeParameters lib nn s =
     (spec_Initialize lib nn s,
      rand_state lib 1234
        (GetInputSize s * (GetNumWords (dictionary_m (lookup_layer_m s)) + 1)
         + hidden_size_m s * GetInputSize s + hidden_size_m s * hidden_size_m s
         + output_size_m s * hidden_size_m s))"
proof -
  let ?D = "GetInputSize s" and ?H = "hidden_size_m s" and ?C = "output_size_m s"
  let ?V1 = "GetNumWords (dictionary_m (lookup_layer_m s)) + 1"
  obtain s3 ps where collect: "CollectAllParameters s = (s3, ps)"
    by (cases "CollectAllParameters s")
  have s3: "s3 = s\<lparr>lookup_layer_m := (lookup_layer_m s)\<lparr>E_m := Matrix_Zero ?D ?V1\<rparr>,
               Wxh_m := Matrix_Zero ?H ?D, Whh_m := Matrix_Zero ?H ?H, Why_m := Matrix_Zero ?C ?H,
               bh_m := Vector_Zero ?H, by_m := Vector_Zero ?C,
               h0_m := (if use_hidden_start_m s then Vector_Zero ?H else h0_m s)\<rparr>"
    and w: "weights ps = [ref_E, ref_Wxh, ref_Whh, ref_Why]"
    and b: "biases ps = [ref_bh, ref_by] @ (if use_hidden_start_m s then [ref_h0] else [])"
    using collect
    by (auto simp add: CollectAllParameters_def Let_def LookupLayer_CollectAllParameters_def
        GetInputSize_def)
  have zero: "fold (\<lambda>b s'. bias_store b (Vector_Zero (length (bias_at s' b))) s') (biases ps) s3 = s3"
    by (simp add: b s3)
  have sh: "has_shape (E_m (lookup_layer_m s3)) ?D ?V1" "has_shape (Wxh_m s3) ?H ?D"
    "has_shape (Whh_m s3) ?H ?H" "has_shape (Why_m s3) ?C ?H"
    by (simp_all add: s3)
  have m: "spec_max nn s3 a b = spec_max nn s a b" for a b
    by (simp add: s3 spec_max_def)
  have "InitializeParameters lib nn s =
        fold (fill_weight lib nn) [ref_E, ref_Wxh, ref_Whh, ref_Why] (s3, rand_state lib 1234 0)"
    unfolding InitializeParameters_def Let_def collect prod.case zero w by simp
  also note fill_all_weights [OF sh]
  also have "s3\<lparr>lookup_layer_m :=
               (lookup_layer_m s3)\<lparr>E_m := scaled_uniform lib (spec_max nn s3 ?V1 ?D) ?D ?V1 0\<rparr>,
             Wxh_m := scaled_uniform lib (spec_max nn s3 ?D ?H) ?H ?D (?D * ?V1),
             Whh_m := scaled_uniform lib (spec_max nn s3 ?H ?H) ?H ?H (?D * ?V1 + ?H * ?D),
             Why_m := scaled_uniform lib (spec_max nn s3 ?H ?C) ?C ?H (?D * ?V1 + ?H * ?D + ?H * ?H)\<rparr>
        = spec_Initialize lib nn s"
    unfolding m spec_Initialize_def Let_def
    by (rule RNN.equality) (simp_all add: s3)
  finally show ?thesis .
qed

lemma unit_draw_bounds:
  assumes "rand_in_range lib"
  shows "- 1 \<le> unit_draw lib seed k" "unit_draw lib seed k \<le> 1"
proof -
  let ?r = "real_of_int (draw lib seed k)" and ?R = "real_of_int (RAND_MAX lib)"
  have R: "0 < ?R" and r: "0 \<le> ?r" "?r \<le> ?R"
    using assms by (simp_all add: rand_in_range_def draw_def)
  have "0 \<le> 2 * ?r / ?R"
    using R r by simp
  then show "- 1 \<le> unit_draw lib seed k"
    by (simp add: unit_draw_def)
  have "2 * ?r / ?R \<le> 2"
    using R r by (simp add: pos_divide_le_eq)
  then show "unit_draw lib seed k \<le> 1"
    by (simp add: unit_draw_def)
qed

lemma spec_max_nonneg: "0 \<le> spec_max nn s a b"
  by (simp add: spec_max_def)

lemma scaled_bounds:
  assumes "rand_in_range lib" "0 \<le> mx"
  shows "- mx \<le> mx * unit_draw lib seed k" "mx * unit_draw lib seed k \<le> mx"
proof -
  have "mx * (- 1) \<le> mx * unit_draw lib seed k"
    using assms unit_draw_bounds(1) [OF assms(1)] by (intro mult_left_mono) simp_all
  then show "- mx \<le> mx * unit_draw lib seed k" by simp
  have "mx * unit_draw lib seed k \<le> mx * 1"
    using assms unit_draw_bounds(2) [OF assms(1)] by (intro mult_left_mono) simp_all
  then show "mx * unit_draw lib seed k \<le> mx" by simp
qed

lemma filled_within_scaled_uniform:
  "filled_within lib nn s (scaled_uniform lib (spec_max nn s c r) r c k)"
proof -
  let ?W = "scaled_uniform lib (spec_max nn s c r) r c k"
  have sh: "rows ?W = r" "cols ?W = c"
    by (simp_all add: scaled_uniform_def cols_def)
  have mx: "(if activation_function_m s = LOGISTIC nn then 4 else 1) * sqrt (6 / real (c + r)) =
            spec_max nn s c r"
    by (simp add: spec_max_def)
  have "(\<exists>k'. coeff ?W i j = spec_max nn s c r *
               (2 * real_of_int (draw lib 1234 k') / real_of_int (RAND_MAX lib) - 1))
        \<and> (rand_in_range lib \<longrightarrow>
             - spec_max nn s c r \<le> coeff ?W i j \<and> coeff ?W i j \<le> spec_max nn s c r)"
    if "i < r" "j < c" for i j
  proof -
    have co: "coeff ?W i j = spec_max nn s c r * unit_draw lib 1234 (k + i * c + j)"
      using that by (rule coeff_scaled_uniform)
    then have "\<exists>k'. coeff ?W i j = spec_max nn s c r *
               (2 * real_of_int (draw lib 1234 k') / real_of_int (RAND_MAX lib) - 1)"
      unfolding unit_draw_def by blast
    then show ?thesis
      using scaled_bounds [OF _ spec_max_nonneg, of lib nn s c r 1234 "k + i * c + j"]
      by (simp add: co)
  qed
  then show ?thesis
    unfolding filled_within_def Let_def sh mx by blast
qed

lemma shapes_ok_spec_Initialize:
  "use_hidden_start_m s \<or> length (h0_m s) = hidden_size_m s \<Longrightarrow>
   shapes_ok (spec_Initialize lib nn s)"
  by (auto simp add: shapes_ok_def spec_Initialize_def Let_def GetInputSize_def)

lemma spec_Initialize_idem:
  "spec_Initialize lib nn (spec_Initialize lib nn s) = spec_Initialize lib nn s"
proof -
  have m: "spec_max nn (spec_Initialize lib nn s) a b = spec_max nn s a b" for a b
    by (simp add: spec_Initialize_def Let_def spec_max_def)
  have g: "GetInputSize (spec_Initialize lib nn s) = GetInputSize s"
    by (simp add: spec_Initialize_def Let_def GetInputSize_def)
  show ?thesis
    unfolding spec_Initialize_def [of lib nn "spec_Initialize lib nn s"] Let_def m g
    by (rule RNN.equality) (simp_all add: spec_Initialize_def Let_def)
qed

lemma spec_Initialize_sizes [simp]:
  "GetInputSize (spec_Initialize lib nn s) = GetInputSize s"
  "hidden_size_m (spec_Initialize lib nn s) = hidden_size_m s"
  "output_size_m (spec_Initialize lib nn s) = output_size_m s"
  "dictionary_m (lookup_layer_m (spec_Initialize lib nn s)) = dictionary_m (lookup_layer_m s)"
  by (simp_all add: spec_Initialize_def Let_def GetInputSize_def)

text \<open>
  C8. \<open>InitializeParameters\<close> returns the cell in which \<open>bh\<close>, \<open>by\<close> and (when it is
  registered, that is when the initial state is learned) \<open>h0\<close> are zero, and in which
  each of \<open>E\<close>, \<open>Wxh\<close>, \<open>Whh\<close>, \<open>Why\<close> has its allocated shape and holds, at every
  position, \<open>max * (2 * r / RAND_MAX - 1)\<close> for an output \<open>r\<close> of \<open>rand()\<close> after
  \<open>srand(1234)\<close>, with \<open>max = c * sqrt(6 / (columns + rows))\<close>, \<open>c = 4\<close> for the logistic
  activation and \<open>c = 1\<close> otherwise; so every coefficient lies in \<open>[-max, max]\<close> when
  \<open>rand()\<close> returns values between \<open>0\<close> and \<open>RAND_MAX\<close>. The result is a function of the
  sizes, the activation and the generator only: a second call returns the same cell and
  leaves the generator in the same state.
\<close>

theorem C8_initialize:
  "(let s' = fst (InitializeParameters lib nn s)
    in s' = spec_Initialize lib nn s
     \<and> bh_m s' = Vector_Zero (hidden_size_m s)
     \<and> by_m s' = Vector_Zero (output_size_m s)
     \<and> (use_hidden_start_m s \<longrightarrow> h0_m s' = Vector_Zero (hidden_size_m s))
     \<and> has_shape (E_m (lookup_layer_m s')) (GetInputSize s)
           (GetNumWords (dictionary_m (lookup_layer_m s)) + 1)
     \<and> has_shape (Wxh_m s') (hidden_size_m s) (GetInputSize s)
     \<and> has_shape (Whh_m s') (hidden_size_m s) (hidden_size_m s)
     \<and> has_shape (Why_m s') (output_size_m s) (hidden_size_m s)
     \<and> list_all (\<lambda>w. filled_within lib nn s (weight_at s' w)) [ref_E, ref_Wxh, ref_Whh, ref_Why]
     \<and> InitializeParameters lib nn s' = InitializeParameters lib nn s)"
proof -
  let ?s' = "spec_Initialize lib nn s"
  have s': "fst (InitializeParameters lib nn s) = ?s'"
    by (simp add: InitializeParameters_eq)
  have 1: "bh_m ?s' = Vector_Zero (hidden_size_m s)" "by_m ?s' = Vector_Zero (output_size_m s)"
    "use_hidden_start_m s \<longrightarrow> h0_m ?s' = Vector_Zero (hidden_size_m s)"
    by (simp_all add: spec_Initialize_def Let_def)
  have 2: "has_shape (E_m (lookup_layer_m ?s')) (GetInputSize s)
           (GetNumWords (dictionary_m (lookup_layer_m s)) + 1)"
    "has_shape (Wxh_m ?s') (hidden_size_m s) (GetInputSize s)"
    "has_shape (Whh_m ?s') (hidden_size_m s) (hidden_size_m s)"
    "has_shape (Why_m ?s') (output_size_m s) (hidden_size_m s)"
    by (simp_all add: spec_Initialize_def Let_def)
  have 3: "filled_within lib nn s (weight_at ?s' w)" for w
    by (cases w) (simp_all add: spec_Initialize_def Let_def filled_within_scaled_uniform)
  have 4: "InitializeParameters lib nn ?s' = InitializeParameters lib nn s"
    by (simp only: InitializeParameters_eq spec_Initialize_idem spec_Initialize_sizes)
  show ?thesis
    unfolding Let_def s' using 1 2 3 4 by simp
qed

lemma rand_in_range_example: "rand_in_range example_stdlib"
proof -
  have "int (n mod 2147483648) \<le> 2147483647" for n :: nat
  proof -
    have "n mod 2147483648 < 2147483648" by simp
    then show ?thesis by linarith
  qed
  then show ?thesis
    by (simp add: rand_in_range_def example_stdlib_def)
qed

theorem C8_initialize_witness:
  "rand_in_range example_stdlib \<and> use_hidden_start_m example_rnn
   \<and> (let s' = fst (InitializeParameters example_stdlib logistic_nn example_rnn)
      in h0_m s' = [0, 0] \<and> bh_m s' = [0, 0] \<and> by_m s' = [0, 0]
       \<and> has_shape (E_m (lookup_layer_m s')) 2 4
       \<and> has_shape (Whh_m s') 2 2
       \<and> - (4 * sqrt (6 / 4)) \<le> coeff (Whh_m s') 1 0
       \<and> coeff (Whh_m s') 1 0 \<le> 4 * sqrt (6 / 4)
       \<and> - (4 * sqrt (6 / 6)) \<le> coeff (E_m (lookup_layer_m s')) 0 3
       \<and> coeff (E_m (lookup_layer_m s')) 0 3 \<le> 4 * sqrt (6 / 6))"
proof -
  let ?s' = "fst (InitializeParameters example_stdlib logistic_nn example_rnn)"
  note th = C8_initialize [of example_stdlib logistic_nn example_rnn, unfolded Let_def]
  have u: "use_hidden_start_m example_rnn"
    by (simp add: example_rnn_def)
  have sz: "hidden_size_m example_rnn = 2" "output_size_m example_rnn = 2"
    "GetInputSize example_rnn = 2" "GetNumWords (dictionary_m (lookup_layer_m example_rnn)) + 1 = 4"
    "activation_function_m example_rnn = LOGISTIC logistic_nn"
    by (simp_all add: example_rnn_def example_lookup_def GetInputSize_def logistic_nn_def)
  have z: "Vector_Zero 2 = [0, 0]"
    by (simp add: Vector_Zero_def numeral_2_eq_2)
  from th have t1: "bh_m ?s' = Vector_Zero (hidden_size_m example_rnn)"
    and t2: "by_m ?s' = Vector_Zero (output_size_m example_rnn)"
    and t3: "use_hidden_start_m example_rnn \<longrightarrow> h0_m ?s' = Vector_Zero (hidden_size_m example_rnn)"
    and t4: "has_shape (E_m (lookup_layer_m ?s')) (GetInputSize example_rnn)
           (GetNumWords (dictionary_m (lookup_layer_m example_rnn)) + 1)"
    and t5: "has_shape (Whh_m ?s') (hidden_size_m example_rnn) (hidden_size_m example_rnn)"
    and t6: "list_all (\<lambda>w. filled_within example_stdlib logistic_nn example_rnn (weight_at ?s' w))
               [ref_E, ref_Wxh, ref_Whh, ref_Why]"
    by blast+
  have b: "h0_m ?s' = [0, 0]" "bh_m ?s' = [0, 0]" "by_m ?s' = [0, 0]"
    using t1 t2 t3 u by (simp_all add: sz z)
  have shE: "has_shape (E_m (lookup_layer_m ?s')) 2 4" and shW: "has_shape (Whh_m ?s') 2 2"
    using t4 t5 by (simp_all only: sz)
  have fW: "filled_within example_stdlib logistic_nn example_rnn (Whh_m ?s')"
    and fE: "filled_within example_stdlib logistic_nn example_rnn (E_m (lookup_layer_m ?s'))"
    using t6 by simp_all
  have W: "- (4 * sqrt (6 / 4)) \<le> coeff (Whh_m ?s') 1 0 \<and> coeff (Whh_m ?s') 1 0 \<le> 4 * sqrt (6 / 4)"
    using fW shW rand_in_range_example
    by (simp add: filled_within_def Let_def has_shape_def sz)
  have E: "- (4 * sqrt (6 / 6)) \<le> coeff (E_m (lookup_layer_m ?s')) 0 3
       \<and> coeff (E_m (lookup_layer_m ?s')) 0 3 \<le> 4 * sqrt (6 / 6)"
    using fE shE rand_in_range_example
    by (simp add: filled_within_def Let_def has_shape_def sz)
  show ?thesis
    unfolding Let_def using rand_in_range_example u b shE shW W E by simp
qed

subsection \<open>The loss of a cell with one hidden unit\<close>

lemma trained_wid_ok: "list_all (wid_ok (lookup_layer_m (with_Whh trained_cell 0 0 w))) [Input 0]"
  by (simp add: with_Whh_def trained_cell_def wid_ok_def cols_def)

lemma trained_y:
  "spec_y logistic_nn (with_Whh trained_cell 0 0 w) [Input 0] = [logistic w, 0]"
  by (simp add: spec_y_def spec_h_def spec_Lookup_def lookup_column_def with_Whh_def
      trained_cell_def set_coeff_def logistic_nn_def mat_vec_def vadd_def coeff_def cols_def
      numeral_2_eq_2)

lemma LogSumExp_pair: "LogSumExp [a, 0] = ln (exp a + 1)"
proof -
  let ?m = "maxCoeff [a, 0]"
  have "exp (a - ?m) + exp (0 - ?m) = (exp a + 1) * exp (- ?m)"
    by (simp add: exp_diff exp_minus field_simps)
  moreover have pos: "0 < exp a + 1" "0 < exp (- ?m)"
    by (simp_all add: add_pos_pos)
  moreover have "ln ((exp a + 1) * exp (- ?m)) = ln (exp a + 1) + ln (exp (- ?m))"
    using pos by (rule ln_mult_pos)
  ultimately have "ln (exp (a - ?m) + exp (0 - ?m)) = ln (exp a + 1) - ?m"
    by simp
  then show ?thesis
    by (simp add: LogSumExp_def)
qed

lemma trained_loss:
  "forward_loss logistic_nn (with_Whh trained_cell 0 0 w) [Input 0] 0 =
   ln (exp (logistic w) + 1) - logistic w"
proof -
  have "p_m (spec_Forward logistic_nn (with_Whh trained_cell 0 0 w) [Input 0]) ! 0 =
        exp (logistic w - ln (exp (logistic w) + 1))"
    by (simp add: spec_Forward_def spec_p_def Let_def trained_y LogSumExp_pair)
  then show ?thesis
    using trained_wid_ok [of w]
    by (simp add: forward_loss_def RunForwardPass_eq loss_def)
qed

lemma logistic_deriv:
  "(logistic has_real_derivative logistic w * (1 - logistic w)) (at w)"
proof -
  have pos: "1 + exp (- w) \<noteq> 0"
    using exp_gt_zero [of "- w"] by linarith
  have "((\<lambda>w. 1 / (1 + exp (- w))) has_real_derivative
          - (- exp (- w)) / ((1 + exp (- w)) * (1 + exp (- w)))) (at w)"
    using pos by (auto intro!: derivative_eq_intros simp add: power2_eq_square)
  moreover have "- (- exp (- w)) / ((1 + exp (- w)) * (1 + exp (- w))) =
                 logistic w * (1 - logistic w)"
    using pos by (simp add: logistic_def field_simps)
  ultimately show ?thesis
    by (simp add: logistic_def [abs_def])
qed

lemma trained_loss_deriv:
  "((\<lambda>w. ln (exp (logistic w) + 1) - logistic w) has_real_derivative
      - (logistic w * (1 - logistic w)) / (exp (logistic w) + 1)) (at w)"
proof -
  have pos: "0 < exp (logistic w) + 1"
    by (simp add: add_pos_pos)
  have "((\<lambda>w. ln (exp (logistic w) + 1) - logistic w) has_real_derivative
           (exp (logistic w) * (logistic w * (1 - logistic w))) / (exp (logistic w) + 1)
           - logistic w * (1 - logistic w)) (at w)"
    using pos by (auto intro!: derivative_eq_intros logistic_deriv)
  moreover have "(exp (logistic w) * (logistic w * (1 - logistic w))) / (exp (logistic w) + 1)
           - logistic w * (1 - logistic w) =
           - (logistic w * (1 - logistic w)) / (exp (logistic w) + 1)"
    using pos by (simp add: field_simps)
  ultimately show ?thesis by simp
qed

lemma dWhh_single_step:
  "dWhh (spec_BPTT nn s 1 l) = Matrix_Zero (rows (Whh_m s)) (cols (Whh_m s))"
  by (simp add: spec_BPTT_def spec_BPTT_step_def spec_seed_def Let_def)

lemma trained_shapes_ok: "shapes_ok trained_cell"
  by (simp add: shapes_ok_def trained_cell_def has_shape_def cols_def GetInputSize_def)

lemma logistic_0: "logistic 0 = 1 / 2"
  by (simp add: logistic_def)

subsection \<open>The shapes are kept by training\<close>

lemma has_shape_madd:
  "has_shape A r c \<Longrightarrow> has_shape B r c \<Longrightarrow> has_shape (madd A B) r c"
  by (auto simp add: has_shape_def madd_def cols_def list_all_length)

lemma has_shape_msub:
  "has_shape A r c \<Longrightarrow> has_shape B r c \<Longrightarrow> has_shape (msub A B) r c"
  by (auto simp add: has_shape_def msub_def cols_def list_all_length)

lemma has_shape_msmul: "has_shape A r c \<Longrightarrow> has_shape (msmul a A) r c"
  by (auto simp add: has_shape_def msmul_def cols_def list_all_length)

lemma has_shape_outer': "length u = r \<Longrightarrow> length v = c \<Longrightarrow> has_shape (outer u v) r c"
  using has_shape_outer [of u v] by simp

lemma has_shape_column: "has_shape A r c \<Longrightarrow> j < c \<Longrightarrow> length (columns A ! j) = r"
  by (simp add: has_shape_def cols_def list_all_length)

lemma has_shape_set_column:
  "has_shape A r c \<Longrightarrow> length v = r \<Longrightarrow> has_shape (A\<lparr>columns := (columns A)[j := v]\<rparr>) r c"
  by (cases "j < length (columns A)")
     (auto simp add: has_shape_def cols_def list_all_length nth_list_update)

lemma trace_shapes_columns:
  assumes "trace_shapes s T" "t < T"
  shows "length (columns (h_m s) ! t) = hidden_size_m s"
    "length (columns (x_m s) ! t) = GetInputSize s"
  using assms by (auto simp add: trace_shapes_def intro: has_shape_column)

lemma gradient_shapes_step:
  assumes sh: "shapes_ok s" and tr: "trace_shapes s T" and t: "t < T"
    and kd: "keeps_length_derivative nn (activation_function_m s) (hidden_size_m s)"
    and g: "gradient_shapes s T g"
  shows "gradient_shapes s T (spec_BPTT_step nn s t g)"
proof -
  let ?H = "hidden_size_m s" and ?D = "GetInputSize s"
  let ?draw = "cwise_mul (DerivateActivation nn (activation_function_m s) (columns (h_m s) ! t))
                 (dhnext g)"
  have ht: "length (columns (h_m s) ! t) = ?H" and xt: "length (columns (x_m s) ! t) = ?D"
    using tr t by (rule trace_shapes_columns)+
  have draw: "length ?draw = ?H"
    using kd ht g by (simp add: keeps_length_derivative_def gradient_shapes_def)
  have W: "cols (Whh_m s) = ?H" "cols (Wxh_m s) = ?D"
    using sh by (simp_all add: shapes_ok_def has_shape_def)
  have 1: "has_shape (madd (dWxh g) (outer ?draw (columns (x_m s) ! t))) ?H ?D"
    using g draw xt by (intro has_shape_madd has_shape_outer') (simp_all add: gradient_shapes_def)
  have 2: "length (vadd (dbh g) ?draw) = ?H"
    using g draw by (simp add: gradient_shapes_def)
  have 3: "has_shape (if t > 0 then madd (dWhh g) (outer ?draw (columns (h_m s) ! (t - 1)))
                      else dWhh g) ?H ?H"
  proof (cases "t > 0")
    case True
    have "t - 1 < T" using t by simp
    then have "length (columns (h_m s) ! (t - 1)) = ?H"
      using tr by (intro trace_shapes_columns(1))
    then show ?thesis
      using True g draw
      by (simp add: gradient_shapes_def has_shape_madd has_shape_outer')
  next
    case False
    then show ?thesis using g by (simp add: gradient_shapes_def)
  qed
  have 4: "has_shape ((dx g)\<lparr>columns := (columns (dx g))[t := transpose_vec (Wxh_m s) ?draw]\<rparr>) ?D T"
    using g W by (intro has_shape_set_column) (simp_all add: gradient_shapes_def)
  show ?thesis
    using g 1 2 3 4 W
    by (simp add: gradient_shapes_def spec_BPTT_step_def Let_def)
qed

lemma gradient_shapes_fold:
  assumes sh: "shapes_ok s" and tr: "trace_shapes s T"
    and kd: "keeps_length_derivative nn (activation_function_m s) (hidden_size_m s)"
    and g: "gradient_shapes s T g" and n: "n \<le> T"
  shows "gradient_shapes s T (fold (spec_BPTT_step nn s) (rev [0..<n]) g)"
  using g n
proof (induction n arbitrary: g)
  case 0
  then show ?case by simp
next
  case (Suc n)
  have "gradient_shapes s T (spec_BPTT_step nn s n g)"
    using sh tr _ kd Suc.prems(1) by (rule gradient_shapes_step) (use Suc.prems in simp)
  then show ?case
    using Suc by simp
qed

lemma gradient_shapes_seed:
  assumes sh: "shapes_ok s" and tr: "trace_shapes s T" and T: "0 < T"
  shows "gradient_shapes s T (spec_seed s T l)"
proof -
  have "T - 1 < T" using T by simp
  then have ht: "length (columns (h_m s) ! (T - 1)) = hidden_size_m s"
    using tr by (intro trace_shapes_columns(1))
  have p: "length (p_m s) = output_size_m s"
    using tr by (simp add: trace_shapes_def)
  have W: "rows (Whh_m s) = hidden_size_m s" "cols (Whh_m s) = hidden_size_m s"
    "rows (Wxh_m s) = hidden_size_m s" "cols (Wxh_m s) = GetInputSize s"
    "cols (Why_m s) = hidden_size_m s"
    using sh by (simp_all add: shapes_ok_def has_shape_def)
  show ?thesis
    using ht p by (simp add: gradient_shapes_def spec_seed_def Let_def W has_shape_outer')
qed

lemma gradient_shapes_BPTT:
  assumes "shapes_ok s" "trace_shapes s T" "0 < T"
    "keeps_length_derivative nn (activation_function_m s) (hidden_size_m s)"
  shows "gradient_shapes s T (spec_BPTT nn s T l)"
  unfolding spec_BPTT_def
  using assms(1,2,4) gradient_shapes_seed [OF assms(1,2,3)] le_refl
  by (rule gradient_shapes_fold)

lemma shapes_ok_spec_Forward [simp]: "shapes_ok (spec_Forward nn s q) = shapes_ok s"
  by (simp add: shapes_ok_def)

lemma trace_shapes_spec_Forward:
  assumes sh: "shapes_ok s" and kl: "keeps_length nn (activation_function_m s) (hidden_size_m s)"
    and ok: "list_all (wid_ok (lookup_layer_m s)) q"
  shows "trace_shapes (spec_Forward nn s q) (length q)"
proof -
  have W: "rows (Wxh_m s) = hidden_size_m s" "length (bh_m s) = hidden_size_m s"
    "rows (Whh_m s) = hidden_size_m s" "rows (Why_m s) = output_size_m s"
    "length (by_m s) = output_size_m s"
    and E: "has_shape (E_m (lookup_layer_m s)) (GetInputSize s) (cols (E_m (lookup_layer_m s)))"
    using sh by (simp_all add: shapes_ok_def has_shape_def)
  have "length (lookup_column (lookup_layer_m s) inp) = GetInputSize s" if "inp \<in> set q" for inp
  proof -
    have "wid_ok (lookup_layer_m s) inp"
      using ok that by (simp add: list_all_iff)
    then have "nat (wid inp + 1) < cols (E_m (lookup_layer_m s))"
      unfolding wid_ok_def by linarith
    then show ?thesis
      unfolding lookup_column_def using E by (intro has_shape_column)
  qed
  then have x: "has_shape (x_m (spec_Forward nn s q)) (GetInputSize s) (length q)"
    by (simp add: spec_Forward_def spec_Lookup_def has_shape_def cols_def list_all_iff
        GetInputSize_def)
  have h: "has_shape (h_m (spec_Forward nn s q)) (hidden_size_m s) (length q)"
    using length_spec_h [OF kl W(1,2,3)]
    by (simp add: spec_Forward_def has_shape_def cols_def list_all_iff W)
  show ?thesis
    using x h by (simp add: trace_shapes_def spec_Forward_trace W)
qed

lemma has_shape_spec_Update_step:
  assumes "has_shape Em D c" "has_shape dX D T" "t < T" "nat (wid (q ! t) + 1) < c"
  shows "has_shape (spec_Update_step q dX \<eta> t Em) D c"
proof -
  have "length (columns Em ! nat (wid (q ! t) + 1)) = D" "length (columns dX ! t) = D"
    using assms by (simp_all add: has_shape_column)
  then show ?thesis
    unfolding spec_Update_step_def Let_def
    using assms(1) by (intro has_shape_set_column) simp_all
qed

lemma has_shape_spec_Update:
  assumes E: "has_shape Em D c" and dX: "has_shape dX D (length q)"
    and ok: "list_all (\<lambda>inp. nat (wid inp + 1) < c) q"
  shows "has_shape (spec_Update Em q dX \<eta>) D c"
proof -
  have "has_shape (fold (spec_Update_step q dX \<eta>) [0..<n] Em) D c" if "n \<le> length q" for n
    using that
  proof (induction n)
    case 0
    show ?case using E by simp
  next
    case (Suc n)
    then have n: "n < length q" by simp
    then have "nat (wid (q ! n) + 1) < c"
      using ok by (simp add: list_all_length)
    then show ?case
      using Suc n dX by (simp add: has_shape_spec_Update_step)
  qed
  then show ?thesis
    by (simp add: spec_Update_def)
qed

lemma shapes_ok_spec_Backward:
  assumes sh: "shapes_ok s" and tr: "trace_shapes s (length q)" and q: "q \<noteq> []"
    and kd: "keeps_length_derivative nn (activation_function_m s) (hidden_size_m s)"
    and ok: "list_all (wid_ok (lookup_layer_m s)) q"
  shows "shapes_ok (spec_Backward nn s q l \<eta>)"
proof -
  let ?g = "spec_BPTT nn s (length q) l"
  have g: "gradient_shapes s (length q) ?g"
    using sh tr _ kd by (rule gradient_shapes_BPTT) (use q in simp)
  have c: "cols (E_m (lookup_layer_m s)) = GetNumWords (dictionary_m (lookup_layer_m s)) + 1"
    using sh by (simp add: shapes_ok_def has_shape_def)
  have "list_all (\<lambda>inp. nat (wid inp + 1) < GetNumWords (dictionary_m (lookup_layer_m s)) + 1) q"
    using ok by (auto simp add: list_all_iff wid_ok_def c)
  then have E: "has_shape (spec_Update (E_m (lookup_layer_m s)) q (dx ?g) \<eta>) (GetInputSize s)
                  (GetNumWords (dictionary_m (lookup_layer_m s)) + 1)"
    using sh g by (intro has_shape_spec_Update) (simp_all add: shapes_ok_def gradient_shapes_def)
  show ?thesis
    using sh g E
    by (simp add: shapes_ok_def spec_Backward_def spec_SGD_def Let_def gradient_shapes_def
        GetInputSize_def has_shape_msub has_shape_msmul)
qed

text \<open>
  The shapes are an invariant of training: \<open>InitializeParameters\<close> on a freshly
  constructed cell establishes them, and a forward pass followed by a backward pass keeps
  them.
\<close>

lemma shapes_ok_initialised:
  "shapes_ok (fst (InitializeParameters lib nn (RNN_new nn dict D H C)))"
proof -
  have "use_hidden_start_m (RNN_new nn dict D H C)"
    by (simp add: RNN_new_def)
  then show ?thesis
    by (simp add: InitializeParameters_eq shapes_ok_spec_Initialize)
qed

lemma shapes_ok_training_step:
  assumes "shapes_ok s0"
    and "keeps_length nn (activation_function_m s0) (hidden_size_m s0)"
    and "keeps_length_derivative nn (activation_function_m s0) (hidden_size_m s0)"
    and "RunForwardPass nn s0 q = Inr s"
    and "RunBackwardPass nn s q l \<eta> = Inr s'"
  shows "shapes_ok s'"
proof -
  note fw = RunForwardPass_Inr [OF assms(4)]
  have tr: "trace_shapes s (length q)"
    unfolding fw(1) using assms(1,2) fw(3) by (rule trace_shapes_spec_Forward)
  have sh: "shapes_ok s"
    using assms(1) by (simp add: fw(1))
  have p: "length (p_m s) = output_size_m s0"
    using tr by (simp add: trace_shapes_def fw(1))
  have l: "0 \<le> l \<and> l < int (output_size_m s0)"
    using assms(5) p
    by (auto simp add: RunBackwardPass_def RunBackwardPass_gradients_def decrement_at_def
        and_then_def Let_def split: sum.splits if_splits)
  then have "RunBackwardPass nn s q l \<eta> = Inr (spec_Backward nn s q (nat l) \<eta>)"
    unfolding fw(1) using assms(1,2) fw(2,3) by (intro RunBackwardPass_eq) simp_all
  then have "s' = spec_Backward nn s q (nat l) \<eta>"
    using assms(5) by simp
  moreover have "shapes_ok (spec_Backward nn s q (nat l) \<eta>)"
    using sh tr fw(2) _ _ by (rule shapes_ok_spec_Backward) (use assms(3) fw in simp_all)
  ultimately show ?thesis by simp
qed

lemma dhnext_single_step:
  "dhnext (spec_BPTT nn s 1 l) =
   transpose_vec (Whh_m s)
     (cwise_mul (DerivateActivation nn (activation_function_m s) (columns (h_m s) ! 0))
                (transpose_vec (Why_m s) ((p_m s)[l := p_m s ! l - 1])))"
  by (simp add: spec_BPTT_def spec_BPTT_step_def spec_seed_def Let_def)

subsection \<open>The backward pass and the derivative of the loss\<close>

text \<open>
  The backward pass is reverse-mode differentiation of the forward pass. The proof
  pairs the accumulators with the forward-mode derivative of the hidden states: each
  step of the backward loop keeps the sum of the two pairings.
\<close>

lemma coeff_mat_vec: "i < rows A \<Longrightarrow> mat_vec A v ! i = (\<Sum>j<cols A. coeff A i j * v ! j)"
  by (simp add: mat_vec_def)

lemma coeff_transpose_vec:
  "j < cols A \<Longrightarrow> transpose_vec A v ! j = (\<Sum>i<rows A. coeff A i j * v ! i)"
  by (simp add: transpose_vec_def)

lemma coeff_outer: "i < length u \<Longrightarrow> j < length v \<Longrightarrow> coeff (outer u v) i j = u ! i * v ! j"
  by (simp add: outer_def coeff_def)

lemma rows_outer [simp]: "rows (outer u v) = length u"
  by (simp add: outer_def)

lemma cols_outer [simp]: "cols (outer u v) = length v"
  by (simp add: outer_def cols_def)

lemma coeff_madd:
  "has_shape A r c \<Longrightarrow> has_shape B r c \<Longrightarrow> i < r \<Longrightarrow> j < c \<Longrightarrow>
   coeff (madd A B) i j = coeff A i j + coeff B i j"
  by (simp add: madd_def coeff_def has_shape_def cols_def list_all_length)

lemma coeff_msmul:
  "has_shape A r c \<Longrightarrow> i < r \<Longrightarrow> j < c \<Longrightarrow> coeff (msmul a A) i j = a * coeff A i j"
  by (simp add: msmul_def coeff_def has_shape_def cols_def list_all_length)

lemma coeff_Matrix_Zero: "i < r \<Longrightarrow> j < c \<Longrightarrow> coeff (Matrix_Zero r c) i j = 0"
  by (simp add: Matrix_Zero_def coeff_def)

lemma has_shape_rows_cols: "has_shape A r c \<Longrightarrow> rows A = r \<and> cols A = c"
  by (simp add: has_shape_def)

lemma vdot_Vector_Zero [simp]: "vdot (Vector_Zero n) v = 0"
  by (simp add: vdot_def)

lemma vdot_Vector_Zero_right: "length u = n \<Longrightarrow> vdot u (Vector_Zero n) = 0"
  by (simp add: vdot_def)

lemma mdot_Matrix_Zero [simp]: "mdot (Matrix_Zero r c) B = 0"
  by (simp add: mdot_def coeff_Matrix_Zero)

lemma vdot_vadd_left:
  "length u = n \<Longrightarrow> length v = n \<Longrightarrow> vdot (vadd u v) z = vdot u z + vdot v z"
  by (simp add: vdot_def sum.distrib [symmetric] algebra_simps)

lemma vdot_vadd_right:
  "length u = n \<Longrightarrow> length v = n \<Longrightarrow> length z = n \<Longrightarrow>
   vdot u (vadd v z) = vdot u v + vdot u z"
  by (simp add: vdot_def sum.distrib [symmetric] algebra_simps)

lemma vdot_cwise_mul:
  "length d = n \<Longrightarrow> length u = n \<Longrightarrow> length v = n \<Longrightarrow>
   vdot u (cwise_mul d v) = vdot (cwise_mul d u) v"
  by (simp add: vdot_def algebra_simps)

lemma vdot_transpose:
  assumes "has_shape A r c" "length u = r"
  shows "vdot u (mat_vec A v) = vdot (transpose_vec A u) v"
proof -
  have rc: "rows A = r" "cols A = c" using assms by (simp_all add: has_shape_def)
  have "vdot u (mat_vec A v) = (\<Sum>i<r. \<Sum>j<c. u ! i * (coeff A i j * v ! j))"
    using assms by (simp add: vdot_def coeff_mat_vec rc sum_distrib_left)
  also have "\<dots> = (\<Sum>j<c. \<Sum>i<r. u ! i * (coeff A i j * v ! j))"
    by (rule sum.swap)
  also have "\<dots> = (\<Sum>j<c. (\<Sum>i<r. coeff A i j * u ! i) * v ! j)"
    by (simp add: sum_distrib_left sum_distrib_right mult_ac)
  also have "\<dots> = vdot (transpose_vec A u) v"
    by (simp add: vdot_def coeff_transpose_vec rc)
  finally show ?thesis .
qed

lemma mdot_outer:
  assumes "has_shape B (length u) (length x)"
  shows "mdot (outer u x) B = vdot u (mat_vec B x)"
proof -
  have rc: "rows B = length u" "cols B = length x" using assms by (simp_all add: has_shape_def)
  have "mdot (outer u x) B = (\<Sum>j<length x. \<Sum>i<length u. u ! i * (coeff B i j * x ! j))"
    by (simp add: mdot_def coeff_outer algebra_simps)
  also have "\<dots> = (\<Sum>i<length u. \<Sum>j<length x. u ! i * (coeff B i j * x ! j))"
    by (rule sum.swap)
  also have "\<dots> = vdot u (mat_vec B x)"
    by (simp add: vdot_def coeff_mat_vec rc sum_distrib_left)
  finally show ?thesis .
qed

lemma mdot_madd:
  assumes "has_shape A r c" "has_shape A' r c"
  shows "mdot (madd A A') B = mdot A B + mdot A' B"
proof -
  have rc: "rows A = r" "cols A = c" "rows A' = r" "cols A' = c"
    using assms by (simp_all add: has_shape_def)
  have m: "rows (madd A A') = r" "cols (madd A A') = c"
    using has_shape_madd [OF assms] by (simp_all add: has_shape_def)
  show ?thesis
    unfolding mdot_def m rc
    by (simp add: coeff_madd [OF assms] sum.distrib [symmetric] algebra_simps)
qed

lemma length_hprev_at:
  assumes "shapes_ok s" "trace_shapes s T" "t \<le> T"
  shows "length (hprev_at s t) = hidden_size_m s"
proof (cases "t = 0")
  case True
  then show ?thesis
    using assms(1) by (simp add: hprev_at_def shapes_ok_def has_shape_def)
next
  case False
  then have "t - 1 < T" using assms(3) by simp
  then show ?thesis
    using False trace_shapes_columns(1) [OF assms(2)] by (simp add: hprev_at_def)
qed

lemma length_tangent_hprev:
  assumes sh: "shapes_ok s" and tr: "trace_shapes s T"
    and kd: "keeps_length_derivative nn (activation_function_m s) (hidden_size_m s)"
    and ts: "tangent_shapes s \<delta>" and n: "n \<le> T"
  shows "length (tangent_hprev nn s \<delta> n) = hidden_size_m s"
  using n
proof (induction n)
  case 0
  show ?case using ts by (simp add: tangent_shapes_def)
next
  case (Suc n)
  then have n: "n < T" by simp
  have "length (DerivateActivation nn (activation_function_m s) (columns (h_m s) ! n)) =
        hidden_size_m s"
    using kd trace_shapes_columns(1) [OF tr n] by (simp add: keeps_length_derivative_def)
  moreover have "rows (Wxh_t \<delta>) = hidden_size_m s" "rows (Whh_t \<delta>) = hidden_size_m s"
    "length (bh_t \<delta>) = hidden_size_m s"
    using ts by (simp_all add: tangent_shapes_def has_shape_def)
  moreover have "rows (Whh_m s) = hidden_size_m s"
    using sh by (simp add: shapes_ok_def has_shape_def)
  ultimately show ?case by simp
qed

lemma adjoint_step:
  assumes sh: "shapes_ok s" and tr: "trace_shapes s T" and t: "t < T"
    and kd: "keeps_length_derivative nn (activation_function_m s) (hidden_size_m s)"
    and g: "gradient_shapes s T g" and ts: "tangent_shapes s \<delta>"
  shows "loop_pairing (spec_BPTT_step nn s t g) \<delta>
           + vdot (dhnext (spec_BPTT_step nn s t g)) (tangent_hprev nn s \<delta> t)
           + (if t = 0
              then vdot (cwise_mul (DerivateActivation nn (activation_function_m s)
                                      (columns (h_m s) ! 0)) (dhnext g))
                        (mat_vec (Whh_t \<delta>) (hprev_at s 0))
              else 0)
         = loop_pairing g \<delta> + vdot (dhnext g) (tangent_hprev nn s \<delta> (Suc t))"
proof -
  let ?H = "hidden_size_m s" and ?D = "GetInputSize s"
  let ?d = "DerivateActivation nn (activation_function_m s) (columns (h_m s) ! t)"
  let ?draw = "cwise_mul ?d (dhnext g)"
  let ?xt = "columns (x_m s) ! t"
  let ?a = "mat_vec (Wxh_t \<delta>) ?xt" and ?b = "bh_t \<delta>"
  let ?c = "mat_vec (Whh_t \<delta>) (hprev_at s t)"
  let ?e = "mat_vec (Whh_m s) (tangent_hprev nn s \<delta> t)"
  have len: "length (columns (h_m s) ! t) = ?H" "length ?xt = ?D"
    using tr t by (rule trace_shapes_columns)+
  have d: "length ?d = ?H"
    using kd len by (simp add: keeps_length_derivative_def)
  have G: "length (dhnext g) = ?H" "length (dbh g) = ?H" "has_shape (dWxh g) ?H ?D"
    "has_shape (dWhh g) ?H ?H"
    using g by (simp_all add: gradient_shapes_def)
  have TS: "has_shape (Wxh_t \<delta>) ?H ?D" "has_shape (Whh_t \<delta>) ?H ?H" "length ?b = ?H"
    using ts by (simp_all add: tangent_shapes_def)
  have W: "has_shape (Whh_m s) ?H ?H"
    using sh by (simp add: shapes_ok_def)
  have draw: "length ?draw = ?H"
    using d G by simp
  have hp: "length (hprev_at s t) = ?H"
    using sh tr t by (intro length_hprev_at [where T = T]) simp_all
  have la: "length ?a = ?H" "length ?c = ?H" "length ?e = ?H"
    using TS W by (simp_all add: has_shape_def)
  have 1: "vdot (dhnext g) (tangent_hprev nn s \<delta> (Suc t)) =
           vdot ?draw ?a + vdot ?draw ?b + vdot ?draw ?c + vdot ?draw ?e"
  proof -
    have "vdot (dhnext g) (tangent_hprev nn s \<delta> (Suc t)) =
          vdot ?draw (vadd (vadd (vadd ?a ?b) ?c) ?e)"
      using d G la TS by (simp add: vdot_cwise_mul [where n = ?H])
    also have "\<dots> = vdot ?draw ?a + vdot ?draw ?b + vdot ?draw ?c + vdot ?draw ?e"
      using draw la TS by (simp add: vdot_vadd_right [where n = ?H])
    finally show ?thesis .
  qed
  have 2: "vdot ?draw ?e = vdot (transpose_vec (Whh_m s) ?draw) (tangent_hprev nn s \<delta> t)"
    using W draw by (rule vdot_transpose)
  have 3: "mdot (madd (dWxh g) (outer ?draw ?xt)) (Wxh_t \<delta>) =
           mdot (dWxh g) (Wxh_t \<delta>) + vdot ?draw ?a"
  proof -
    have "has_shape (outer ?draw ?xt) ?H ?D"
      using draw len by (intro has_shape_outer')
    then have "mdot (madd (dWxh g) (outer ?draw ?xt)) (Wxh_t \<delta>) =
               mdot (dWxh g) (Wxh_t \<delta>) + mdot (outer ?draw ?xt) (Wxh_t \<delta>)"
      using G(3) by (intro mdot_madd)
    moreover have "mdot (outer ?draw ?xt) (Wxh_t \<delta>) = vdot ?draw ?a"
      using TS(1) by (intro mdot_outer) (simp only: draw len)
    ultimately show ?thesis by simp
  qed
  have 4: "vdot (vadd (dbh g) ?draw) ?b = vdot (dbh g) ?b + vdot ?draw ?b"
    using G draw by (intro vdot_vadd_left [where n = ?H])
  show ?thesis
  proof (cases "t = 0")
    case True
    have "loop_pairing (spec_BPTT_step nn s t g) \<delta> =
          loop_pairing g \<delta> + vdot ?draw ?a + vdot ?draw ?b"
      using True 3 4 by (simp add: loop_pairing_def spec_BPTT_step_def Let_def)
    moreover have "dhnext (spec_BPTT_step nn s t g) = transpose_vec (Whh_m s) ?draw"
      by (simp add: spec_BPTT_step_def Let_def)
    ultimately show ?thesis
      using True 1 2 by simp
  next
    case False
    have hpt: "hprev_at s t = columns (h_m s) ! (t - 1)"
      using False by (simp add: hprev_at_def)
    have 5: "mdot (madd (dWhh g) (outer ?draw (columns (h_m s) ! (t - 1)))) (Whh_t \<delta>) =
             mdot (dWhh g) (Whh_t \<delta>) + vdot ?draw ?c"
    proof -
      have "has_shape (outer ?draw (hprev_at s t)) ?H ?H"
        using draw hp by (intro has_shape_outer')
      then have "mdot (madd (dWhh g) (outer ?draw (hprev_at s t))) (Whh_t \<delta>) =
                 mdot (dWhh g) (Whh_t \<delta>) + mdot (outer ?draw (hprev_at s t)) (Whh_t \<delta>)"
        using G(4) by (intro mdot_madd)
      moreover have "mdot (outer ?draw (hprev_at s t)) (Whh_t \<delta>) = vdot ?draw ?c"
        using TS(2) by (intro mdot_outer) (simp only: draw hp)
      ultimately show ?thesis by (simp add: hpt)
    qed
    have "loop_pairing (spec_BPTT_step nn s t g) \<delta> =
          loop_pairing g \<delta> + vdot ?draw ?a + vdot ?draw ?b + vdot ?draw ?c"
      using False 3 4 5 by (simp add: loop_pairing_def spec_BPTT_step_def Let_def)
    moreover have "dhnext (spec_BPTT_step nn s t g) = transpose_vec (Whh_m s) ?draw"
      by (simp add: spec_BPTT_step_def Let_def)
    ultimately show ?thesis
      using False 1 2 by simp
  qed
qed

lemma gradient_shapes_fold_from:
  assumes sh: "shapes_ok s" and tr: "trace_shapes s T"
    and kd: "keeps_length_derivative nn (activation_function_m s) (hidden_size_m s)"
    and g: "gradient_shapes s T g" and n: "n \<le> T"
  shows "gradient_shapes s T (fold (spec_BPTT_step nn s) (rev [m..<n]) g)"
  using g n
proof (induction n arbitrary: g)
  case 0
  then show ?case by simp
next
  case (Suc n)
  show ?case
  proof (cases "m \<le> n")
    case True
    have "gradient_shapes s T (spec_BPTT_step nn s n g)"
      using sh tr _ kd Suc.prems(1) by (rule gradient_shapes_step) (use Suc.prems in simp)
    then show ?thesis
      using Suc True by simp
  next
    case False
    then show ?thesis using Suc.prems by simp
  qed
qed

lemma adjoint_sweep:
  assumes sh: "shapes_ok s" and tr: "trace_shapes s T"
    and kd: "keeps_length_derivative nn (activation_function_m s) (hidden_size_m s)"
    and ts: "tangent_shapes s \<delta>" and m: "1 \<le> m"
    and g: "gradient_shapes s T g" and n: "m \<le> n" "n \<le> T"
  shows "loop_pairing (fold (spec_BPTT_step nn s) (rev [m..<n]) g) \<delta>
           + vdot (dhnext (fold (spec_BPTT_step nn s) (rev [m..<n]) g)) (tangent_hprev nn s \<delta> m)
         = loop_pairing g \<delta> + vdot (dhnext g) (tangent_hprev nn s \<delta> n)"
  using g n
proof (induction n arbitrary: g)
  case 0
  then show ?case using m by simp
next
  case (Suc n)
  show ?case
  proof (cases "m \<le> n")
    case False
    then have "m = Suc n" using Suc.prems by simp
    then show ?thesis by simp
  next
    case True
    have n: "n < T" "n \<noteq> 0" using Suc.prems True m by simp_all
    let ?g' = "spec_BPTT_step nn s n g"
    have g': "gradient_shapes s T ?g'"
      using sh tr n(1) kd Suc.prems(1) by (rule gradient_shapes_step)
    have "loop_pairing ?g' \<delta> + vdot (dhnext ?g') (tangent_hprev nn s \<delta> n)
          = loop_pairing g \<delta> + vdot (dhnext g) (tangent_hprev nn s \<delta> (Suc n))"
      using adjoint_step [OF sh tr n(1) kd Suc.prems(1) ts] n(2) by simp
    moreover have "loop_pairing (fold (spec_BPTT_step nn s) (rev [m..<n]) ?g') \<delta>
           + vdot (dhnext (fold (spec_BPTT_step nn s) (rev [m..<n]) ?g'))
               (tangent_hprev nn s \<delta> m)
         = loop_pairing ?g' \<delta> + vdot (dhnext ?g') (tangent_hprev nn s \<delta> n)"
      using g' True n(1) by (intro Suc.IH) simp_all
    ultimately show ?thesis
      using True by simp
  qed
qed

lemma spec_BPTT_last_step:
  "0 < T \<Longrightarrow> spec_BPTT nn s T l = spec_BPTT_step nn s 0 (before_last_step nn s T l)"
proof -
  assume "0 < T"
  then have "[0..<T] = 0 # [1..<T]"
    by (simp add: upt_rec)
  then show ?thesis
    by (simp add: spec_BPTT_def before_last_step_def)
qed

lemma fold_step_dWhy [simp]:
  "dWhy (fold (spec_BPTT_step nn s) ts g) = dWhy g"
  "dby (fold (spec_BPTT_step nn s) ts g) = dby g"
  by (induction ts arbitrary: g) (simp_all add: spec_BPTT_step_def Let_def)

lemma loop_pairing_seed [simp]: "loop_pairing (spec_seed s T l) \<delta> = 0"
  by (simp add: loop_pairing_def spec_seed_def Let_def)

lemma dhnext_spec_seed:
  "dhnext (spec_seed s T l) = transpose_vec (Why_m s) ((p_m s)[l := p_m s ! l - 1])"
  by (simp add: spec_seed_def Let_def)

lemma adjoint_total:
  assumes sh: "shapes_ok s" and tr: "trace_shapes s T" and T: "0 < T"
    and kd: "keeps_length_derivative nn (activation_function_m s) (hidden_size_m s)"
    and ts: "tangent_shapes s \<delta>"
  shows "vdot ((p_m s)[l := p_m s ! l - 1]) (tangent_y nn s \<delta> T) =
         code_pairing s (spec_BPTT nn s T l) \<delta>
         + vdot (draw_0 nn s T l) (mat_vec (Whh_t \<delta>) (hprev_at s 0))"
proof -
  let ?H = "hidden_size_m s" and ?C = "output_size_m s"
  let ?dy = "(p_m s)[l := p_m s ! l - 1]"
  let ?seed = "spec_seed s T l"
  let ?g1 = "before_last_step nn s T l"
  let ?g = "spec_BPTT nn s T l"
  let ?hl = "columns (h_m s) ! (T - 1)"
  have seed: "gradient_shapes s T ?seed"
    using sh tr T by (rule gradient_shapes_seed)
  have g1: "gradient_shapes s T ?g1"
    unfolding before_last_step_def using sh tr kd seed le_refl by (rule gradient_shapes_fold_from)
  have dy: "length ?dy = ?C"
    using tr by (simp add: trace_shapes_def)
  have "T - 1 < T" using T by simp
  then have hl: "length ?hl = ?H"
    using tr by (intro trace_shapes_columns(1))
  have TS: "has_shape (Why_t \<delta>) ?C ?H" "length (by_t \<delta>) = ?C" "length (h0_t \<delta>) = ?H"
    using ts by (simp_all add: tangent_shapes_def)
  have W: "has_shape (Why_m s) ?C ?H"
    using sh by (simp add: shapes_ok_def)
  have out: "vdot ?dy (tangent_y nn s \<delta> T) =
             mdot (outer ?dy ?hl) (Why_t \<delta>) + vdot ?dy (by_t \<delta>)
             + vdot (transpose_vec (Why_m s) ?dy) (tangent_hprev nn s \<delta> T)"
  proof -
    have l1: "length (mat_vec (Why_t \<delta>) ?hl) = ?C"
      "length (mat_vec (Why_m s) (tangent_hprev nn s \<delta> T)) = ?C"
      using TS W by (simp_all add: has_shape_def)
    have "vdot ?dy (tangent_y nn s \<delta> T) =
          vdot ?dy (mat_vec (Why_t \<delta>) ?hl)
          + vdot ?dy (mat_vec (Why_m s) (tangent_hprev nn s \<delta> T)) + vdot ?dy (by_t \<delta>)"
      unfolding tangent_y_def using dy l1 TS(2)
      by (simp add: vdot_vadd_right [where n = ?C])
    moreover have "mdot (outer ?dy ?hl) (Why_t \<delta>) = vdot ?dy (mat_vec (Why_t \<delta>) ?hl)"
      using TS(1) by (intro mdot_outer) (simp only: dy hl)
    moreover have "vdot ?dy (mat_vec (Why_m s) (tangent_hprev nn s \<delta> T)) =
                   vdot (transpose_vec (Why_m s) ?dy) (tangent_hprev nn s \<delta> T)"
      using W dy by (rule vdot_transpose)
    ultimately show ?thesis by simp
  qed
  have sweep: "loop_pairing ?g1 \<delta> + vdot (dhnext ?g1) (tangent_hprev nn s \<delta> 1)
               = vdot (transpose_vec (Why_m s) ?dy) (tangent_hprev nn s \<delta> T)"
  proof -
    have "loop_pairing ?g1 \<delta> + vdot (dhnext ?g1) (tangent_hprev nn s \<delta> 1)
          = loop_pairing ?seed \<delta> + vdot (dhnext ?seed) (tangent_hprev nn s \<delta> T)"
      unfolding before_last_step_def
      using sh tr kd ts le_refl seed by (rule adjoint_sweep) (use T in simp_all)
    then show ?thesis
      by (simp only: loop_pairing_seed dhnext_spec_seed add_0)
  qed
  have last: "loop_pairing ?g \<delta> + vdot (dhnext ?g) (tangent_hprev nn s \<delta> 0)
              + vdot (draw_0 nn s T l) (mat_vec (Whh_t \<delta>) (hprev_at s 0))
              = loop_pairing ?g1 \<delta> + vdot (dhnext ?g1) (tangent_hprev nn s \<delta> 1)"
    using adjoint_step [OF sh tr T kd g1 ts]
    by (simp add: spec_BPTT_last_step [OF T] draw_0_def del: tangent_hprev.simps)
  have h0: "vdot (dhnext ?g) (tangent_hprev nn s \<delta> 0) =
            (if use_hidden_start_m s then vdot (dhnext ?g) (h0_t \<delta>) else 0)"
  proof -
    have "gradient_shapes s T ?g"
      using sh tr T kd by (rule gradient_shapes_BPTT)
    then have "length (dhnext ?g) = ?H"
      by (simp add: gradient_shapes_def)
    then show ?thesis
      by (simp add: vdot_Vector_Zero_right)
  qed
  have wy: "dWhy ?g = outer ?dy ?hl" "dby ?g = ?dy"
    by (simp_all add: spec_BPTT_def spec_seed_def Let_def)
  show ?thesis
    using out sweep last h0
    by (simp add: code_pairing_def wy loop_pairing_def del: tangent_hprev.simps)
qed

lemma coeff_perturbed:
  assumes "has_shape A r c" "has_shape B r c" "i < r" "j < c"
  shows "coeff (madd A (msmul w B)) i j = coeff A i j + w * coeff B i j"
  using assms by (simp add: coeff_madd [where r = r and c = c] has_shape_msmul coeff_msmul)

lemma shape_perturbed:
  assumes "has_shape A r c" "has_shape B r c"
  shows "has_shape (madd A (msmul w B)) r c"
  using assms by (simp add: has_shape_madd has_shape_msmul)

lemma mat_vec_perturbed:
  assumes "has_shape A r c" "has_shape B r c" "i < r"
  shows "mat_vec (madd A (msmul w B)) v ! i = (\<Sum>j<c. (coeff A i j + w * coeff B i j) * v ! j)"
proof -
  have "rows (madd A (msmul w B)) = r" "cols (madd A (msmul w B)) = c"
    using shape_perturbed [OF assms(1,2), of w] by (simp_all add: has_shape_def)
  then show ?thesis
    using assms by (simp add: coeff_mat_vec coeff_perturbed [OF assms(1,2)])
qed

lemma DERIV_mat_vec_perturbed:
  assumes A: "has_shape A r c" and B: "has_shape B r c" and i: "i < r"
    and v: "\<And>j. j < c \<Longrightarrow> ((\<lambda>w. v w ! j) has_real_derivative v' ! j) (at 0)"
  shows "((\<lambda>w. mat_vec (madd A (msmul w B)) (v w) ! i) has_real_derivative
            (mat_vec B (v 0) ! i + mat_vec A v' ! i)) (at 0)"
proof -
  have rc: "rows A = r" "cols A = c" "rows B = r" "cols B = c"
    using A B by (simp_all add: has_shape_def)
  have "((\<lambda>w. \<Sum>j<c. (coeff A i j + w * coeff B i j) * v w ! j) has_real_derivative
          (\<Sum>j<c. coeff B i j * v 0 ! j + coeff A i j * v' ! j)) (at 0)"
    by (rule DERIV_sum) (auto intro!: derivative_eq_intros v simp add: algebra_simps)
  moreover have "(\<Sum>j<c. coeff B i j * v 0 ! j + coeff A i j * v' ! j) =
                 mat_vec B (v 0) ! i + mat_vec A v' ! i"
    using i by (simp add: coeff_mat_vec rc sum.distrib)
  ultimately show ?thesis
    by (simp add: mat_vec_perturbed [OF A B i])
qed

lemma DERIV_mat_vec_perturbed_const:
  assumes A: "has_shape A r c" and B: "has_shape B r c" and i: "i < r"
  shows "((\<lambda>w. mat_vec (madd A (msmul w B)) x ! i) has_real_derivative mat_vec B x ! i) (at 0)"
proof -
  have rc: "rows B = r" "cols B = c"
    using B by (simp_all add: has_shape_def)
  have "((\<lambda>w. \<Sum>j<c. (coeff A i j + w * coeff B i j) * x ! j) has_real_derivative
          (\<Sum>j<c. coeff B i j * x ! j)) (at 0)"
    by (rule DERIV_sum) (auto intro!: derivative_eq_intros)
  then show ?thesis
    using i by (simp add: mat_vec_perturbed [OF A B i] coeff_mat_vec rc)
qed

lemma DERIV_vadd_perturbed:
  assumes "length u = n" "length u' = n" "i < n"
  shows "((\<lambda>w. vadd u (smul w u') ! i) has_real_derivative u' ! i) (at 0)"
proof -
  have "((\<lambda>w. u ! i + w * u' ! i) has_real_derivative u' ! i) (at 0)"
    by (auto intro!: derivative_eq_intros)
  then show ?thesis
    using assms by simp
qed

lemma vadd_smul_0: "length u = n \<Longrightarrow> length u' = n \<Longrightarrow> vadd u (smul 0 u') = u"
  by (simp add: list_eq_iff_nth_eq)

lemma madd_msmul_0:
  assumes "has_shape A r c" "has_shape B r c"
  shows "madd A (msmul 0 B) = A"
proof -
  have "map2 vadd (columns A) (map (smul 0) (columns B)) = columns A"
    using assms
    by (simp add: list_eq_iff_nth_eq has_shape_def cols_def list_all_length vadd_smul_0)
  then show ?thesis
    using assms by (simp add: madd_def msmul_def has_shape_def)
qed

lemma perturb_0:
  assumes "shapes_ok s" "tangent_shapes s \<delta>"
  shows "perturb s \<delta> 0 = s"
proof -
  have "madd (Wxh_m s) (msmul 0 (Wxh_t \<delta>)) = Wxh_m s"
    "madd (Whh_m s) (msmul 0 (Whh_t \<delta>)) = Whh_m s"
    "madd (Why_m s) (msmul 0 (Why_t \<delta>)) = Why_m s"
    using assms by (auto simp add: shapes_ok_def tangent_shapes_def intro: madd_msmul_0)
  moreover have "vadd (bh_m s) (smul 0 (bh_t \<delta>)) = bh_m s"
    "vadd (by_m s) (smul 0 (by_t \<delta>)) = by_m s"
    "vadd (h0_m s) (smul 0 (h0_t \<delta>)) = h0_m s"
    using assms by (auto simp add: shapes_ok_def tangent_shapes_def intro: vadd_smul_0)
  ultimately show ?thesis
    by (simp add: perturb_def)
qed

lemma perturb_fields [simp]:
  "lookup_layer_m (perturb s \<delta> w) = lookup_layer_m s"
  "activation_function_m (perturb s \<delta> w) = activation_function_m s"
  "use_hidden_start_m (perturb s \<delta> w) = use_hidden_start_m s"
  "hidden_size_m (perturb s \<delta> w) = hidden_size_m s"
  "output_size_m (perturb s \<delta> w) = output_size_m s"
  "GetInputSize (perturb s \<delta> w) = GetInputSize s"
  by (simp_all add: perturb_def GetInputSize_def)

lemma shapes_ok_perturb:
  assumes "shapes_ok s" "tangent_shapes s \<delta>"
  shows "shapes_ok (perturb s \<delta> w)"
  using assms
  by (simp add: shapes_ok_def tangent_shapes_def perturb_def shape_perturbed GetInputSize_def)

lemma smooth_keeps_length:
  assumes "smooth_activation nn kind f d"
  shows "keeps_length nn kind n" "keeps_length_derivative nn kind n"
  using assms by (simp_all add: smooth_activation_def keeps_length_def keeps_length_derivative_def)

lemma length_spec_hprev:
  assumes sh: "shapes_ok s" and kl: "keeps_length nn (activation_function_m s) (hidden_size_m s)"
  shows "length (spec_hprev nn s X n) = hidden_size_m s"
proof (cases n)
  case 0
  then show ?thesis using sh by (simp add: shapes_ok_def has_shape_def)
next
  case (Suc t)
  have "rows (Wxh_m s) = hidden_size_m s" "length (bh_m s) = hidden_size_m s"
    "rows (Whh_m s) = hidden_size_m s"
    using sh by (simp_all add: shapes_ok_def has_shape_def)
  then show ?thesis
    using kl Suc by (simp add: keeps_length_def)
qed

lemma spec_hprev_spec_Forward [simp]:
  "spec_hprev nn (spec_Forward nn s q) X n = spec_hprev nn s X n"
  by (induction n) simp_all

lemma hprev_at_spec_Forward:
  assumes "n \<le> length q"
  shows "hprev_at (spec_Forward nn s q) n = spec_hprev nn s (spec_Lookup (lookup_layer_m s) q) n"
proof (cases n)
  case 0
  then show ?thesis by (simp add: hprev_at_def)
next
  case (Suc t)
  then have "t < length q" using assms by simp
  then show ?thesis
    using Suc by (simp add: hprev_at_def h_m_spec_Forward_nth spec_h_def del: spec_hprev.simps)
qed

lemma DERIV_spec_hprev:
  assumes sh: "shapes_ok s0" and ts: "tangent_shapes s0 \<delta>"
    and sm: "smooth_activation nn (activation_function_m s0) f d"
    and ok: "list_all (wid_ok (lookup_layer_m s0)) q"
    and n: "n \<le> length q" and i: "i < hidden_size_m s0"
  shows "((\<lambda>w. spec_hprev nn (perturb s0 \<delta> w) (spec_Lookup (lookup_layer_m s0) q) n ! i)
           has_real_derivative tangent_hprev nn (spec_Forward nn s0 q) \<delta> n ! i) (at 0)"
  using n i
proof (induction n arbitrary: i)
  case 0
  show ?case
  proof (cases "use_hidden_start_m s0")
    case True
    have "length (h0_m s0) = hidden_size_m s0" "length (h0_t \<delta>) = hidden_size_m s0"
      using sh ts by (simp_all add: shapes_ok_def tangent_shapes_def)
    then have "((\<lambda>w. vadd (h0_m s0) (smul w (h0_t \<delta>)) ! i) has_real_derivative h0_t \<delta> ! i) (at 0)"
      using "0.prems"(2) by (rule DERIV_vadd_perturbed)
    then show ?thesis
      using True by (simp add: perturb_def)
  next
    case False
    have "rows (Whh_m (perturb s0 \<delta> w)) = hidden_size_m s0" for w
      using shapes_ok_perturb [OF sh ts, of w] by (simp add: shapes_ok_def has_shape_def)
    then show ?thesis
      using False "0.prems"(2) by simp
  qed
next
  case (Suc n)
  let ?H = "hidden_size_m s0" and ?D = "GetInputSize s0"
  let ?X = "spec_Lookup (lookup_layer_m s0) q"
  let ?s = "spec_Forward nn s0 q"
  let ?k = "activation_function_m s0"
  let ?hp = "\<lambda>w. spec_hprev nn (perturb s0 \<delta> w) ?X n"
  let ?Dhp = "tangent_hprev nn ?s \<delta> n"
  let ?x = "columns ?X ! n"
  let ?a = "\<lambda>w. mat_vec (Wxh_m (perturb s0 \<delta> w)) ?x ! i + bh_m (perturb s0 \<delta> w) ! i
                + mat_vec (Whh_m (perturb s0 \<delta> w)) (?hp w) ! i"
  have n: "n < length q" "n \<le> length q" using Suc.prems by simp_all
  have i: "i < ?H" using Suc.prems by simp
  note kl = smooth_keeps_length [OF sm]
  have tr: "trace_shapes ?s (length q)"
    using sh kl(1) ok by (rule trace_shapes_spec_Forward)
  have SH: "has_shape (Wxh_m s0) ?H ?D" "has_shape (Whh_m s0) ?H ?H" "length (bh_m s0) = ?H"
    using sh by (simp_all add: shapes_ok_def)
  have TS: "has_shape (Wxh_t \<delta>) ?H ?D" "has_shape (Whh_t \<delta>) ?H ?H" "length (bh_t \<delta>) = ?H"
    using ts by (simp_all add: tangent_shapes_def)
  have ev: "EvaluateActivation nn ?k = map f" and dv: "DerivateActivation nn ?k = map d"
    and fd: "\<And>a. (f has_real_derivative d (f a)) (at a)"
    using sm by (simp_all add: smooth_activation_def)
  have IH: "((\<lambda>w. ?hp w ! j) has_real_derivative ?Dhp ! j) (at 0)" if "j < ?H" for j
    using n(2) that by (rule Suc.IH)
  have hp0: "?hp 0 = hprev_at ?s n"
    by (simp add: perturb_0 [OF sh ts] hprev_at_spec_Forward [OF n(2)])
  have a: "(?a has_real_derivative
             (mat_vec (Wxh_t \<delta>) ?x ! i + bh_t \<delta> ! i
              + (mat_vec (Whh_t \<delta>) (hprev_at ?s n) ! i + mat_vec (Whh_m s0) ?Dhp ! i))) (at 0)"
  proof -
    have 1: "((\<lambda>w. mat_vec (Wxh_m (perturb s0 \<delta> w)) ?x ! i) has_real_derivative
               mat_vec (Wxh_t \<delta>) ?x ! i) (at 0)"
      unfolding perturb_def using SH(1) TS(1) i
      by (simp add: DERIV_mat_vec_perturbed_const)
    have 2: "((\<lambda>w. bh_m (perturb s0 \<delta> w) ! i) has_real_derivative bh_t \<delta> ! i) (at 0)"
      unfolding perturb_def using DERIV_vadd_perturbed [OF SH(3) TS(3) i] by simp
    have 3: "((\<lambda>w. mat_vec (Whh_m (perturb s0 \<delta> w)) (?hp w) ! i) has_real_derivative
               (mat_vec (Whh_t \<delta>) (?hp 0) ! i + mat_vec (Whh_m s0) ?Dhp ! i)) (at 0)"
      using DERIV_mat_vec_perturbed [OF SH(2) TS(2) i, of ?hp ?Dhp] IH
      by (simp add: perturb_def)
    show ?thesis
      using 1 2 3 unfolding hp0 by (auto intro!: derivative_eq_intros)
  qed
  have comp: "spec_hprev nn (perturb s0 \<delta> w) ?X (Suc n) ! i = f (?a w)" for w
  proof -
    have shw: "shapes_ok (perturb s0 \<delta> w)"
      using sh ts by (rule shapes_ok_perturb)
    then have r: "rows (Wxh_m (perturb s0 \<delta> w)) = ?H" "rows (Whh_m (perturb s0 \<delta> w)) = ?H"
      "length (bh_m (perturb s0 \<delta> w)) = ?H"
      by (simp_all add: shapes_ok_def has_shape_def)
    show ?thesis
      using i by (simp add: ev r)
  qed
  have a0: "f (?a 0) = columns (h_m ?s) ! n ! i"
    using comp [of 0, symmetric] n(1)
    by (simp add: perturb_0 [OF sh ts] h_m_spec_Forward_nth spec_h_def del: spec_hprev.simps)
  have "((\<lambda>w. f (?a w)) has_real_derivative
          d (f (?a 0)) * (mat_vec (Wxh_t \<delta>) ?x ! i + bh_t \<delta> ! i
              + (mat_vec (Whh_t \<delta>) (hprev_at ?s n) ! i + mat_vec (Whh_m s0) ?Dhp ! i))) (at 0)"
    using fd [of "?a 0"] a by (rule DERIV_chain2)
  moreover have "tangent_hprev nn ?s \<delta> (Suc n) ! i =
          d (f (?a 0)) * (mat_vec (Wxh_t \<delta>) ?x ! i + bh_t \<delta> ! i
              + (mat_vec (Whh_t \<delta>) (hprev_at ?s n) ! i + mat_vec (Whh_m s0) ?Dhp ! i))"
  proof -
    have hl: "length (columns (h_m ?s) ! n) = ?H"
      using trace_shapes_columns(1) [OF tr n(1)] by simp
    have xs: "columns (x_m ?s) ! n = ?x"
      by (simp add: spec_Forward_def)
    have r: "rows (Wxh_t \<delta>) = ?H" "rows (Whh_t \<delta>) = ?H" "rows (Whh_m s0) = ?H"
      using TS SH by (simp_all add: has_shape_def)
    have "tangent_hprev nn ?s \<delta> (Suc n) ! i =
          d (columns (h_m ?s) ! n ! i) * (mat_vec (Wxh_t \<delta>) ?x ! i + bh_t \<delta> ! i
              + (mat_vec (Whh_t \<delta>) (hprev_at ?s n) ! i + mat_vec (Whh_m s0) ?Dhp ! i))"
      using i hl by (simp add: dv xs r TS(3) algebra_simps)
    then show ?thesis
      by (simp only: a0)
  qed
  ultimately show ?case
    by (simp only: comp)
qed

lemma LogSumExp_eq:
  assumes "y \<noteq> []"
  shows "LogSumExp y = ln (\<Sum>i<length y. exp (y ! i))"
proof -
  let ?m = "maxCoeff y"
  have pos: "0 < (\<Sum>a\<leftarrow>y. exp a)"
    using assms by (rule sum_list_exp_pos)
  have "(\<Sum>a\<leftarrow>y. exp (a - ?m)) = (\<Sum>a\<leftarrow>y. exp a * exp (- ?m))"
    by (simp add: exp_diff exp_minus divide_inverse)
  also have "\<dots> = (\<Sum>a\<leftarrow>y. exp a) * exp (- ?m)"
    by (rule sum_list_mult_const)
  finally have "ln (\<Sum>a\<leftarrow>y. exp (a - ?m)) = ln (\<Sum>a\<leftarrow>y. exp a) + ln (exp (- ?m))"
    using pos by (simp add: ln_mult_pos)
  then have "LogSumExp y = ln (\<Sum>a\<leftarrow>y. exp a)"
    by (simp add: LogSumExp_def)
  also have "(\<Sum>a\<leftarrow>y. exp a) = (\<Sum>i<length y. exp (y ! i))"
    by (simp add: sum_list_sum_nth [of "map exp y"] atLeast0LessThan)
  finally show ?thesis .
qed

lemma vdot_decrement:
  assumes "l < length p"
  shows "vdot (p[l := p ! l - 1]) v = (\<Sum>i<length p. p ! i * v ! i) - v ! l"
proof -
  have "vdot (p[l := p ! l - 1]) v =
        (\<Sum>i<length p. p ! i * v ! i - (if i = l then v ! i else 0))"
    unfolding vdot_def
    by (rule sum.cong) (auto simp add: nth_list_update algebra_simps)
  also have "\<dots> = (\<Sum>i<length p. p ! i * v ! i) - (\<Sum>i<length p. if i = l then v ! i else 0)"
    by (rule sum_subtractf)
  also have "(\<Sum>i<length p. if i = l then v ! i else 0) = v ! l"
    using assms by (simp add: sum.delta')
  finally show ?thesis .
qed

lemma DERIV_log_sum_exp:
  assumes C: "0 < (C::nat)" and l: "l < C"
    and y: "\<And>i. i < C \<Longrightarrow> ((\<lambda>w. y w i) has_real_derivative Dy i) (at 0)"
  shows "((\<lambda>w. ln (\<Sum>i<C. exp (y w i)) - y w l) has_real_derivative
            (\<Sum>i<C. exp (y 0 i) / (\<Sum>j<C. exp (y 0 j)) * Dy i) - Dy l) (at 0)"
proof -
  let ?S = "\<Sum>j<C. exp (y 0 j)"
  have pos: "0 < ?S"
    by (rule sum_pos) (use C in auto)
  have S: "((\<lambda>w. \<Sum>i<C. exp (y w i)) has_real_derivative (\<Sum>i<C. exp (y 0 i) * Dy i)) (at 0)"
    by (rule DERIV_sum) (auto intro!: derivative_eq_intros y)
  have "(ln has_real_derivative inverse ?S) (at ?S)"
    using pos by (rule DERIV_ln)
  then have "((\<lambda>w. ln (\<Sum>i<C. exp (y w i))) has_real_derivative
               inverse ?S * (\<Sum>i<C. exp (y 0 i) * Dy i)) (at 0)"
    using S by (rule DERIV_chain2)
  then have "((\<lambda>w. ln (\<Sum>i<C. exp (y w i))) has_real_derivative
               (\<Sum>i<C. exp (y 0 i) * Dy i) / ?S) (at 0)"
    by (simp add: divide_inverse mult.commute)
  moreover have "(\<Sum>i<C. exp (y 0 i) * Dy i) / ?S = (\<Sum>i<C. exp (y 0 i) / ?S * Dy i)"
    by (simp add: sum_divide_distrib)
  ultimately have "((\<lambda>w. ln (\<Sum>i<C. exp (y w i))) has_real_derivative
               (\<Sum>i<C. exp (y 0 i) / ?S * Dy i)) (at 0)"
    by simp
  then show ?thesis
    using y [OF l] by (rule DERIV_diff)
qed

lemma tangent_shapes_spec_Forward [simp]:
  "tangent_shapes (spec_Forward nn s q) \<delta> = tangent_shapes s \<delta>"
  by (simp add: tangent_shapes_def)

lemma spec_y_component:
  assumes sh: "shapes_ok s" and q: "q \<noteq> []" and i: "i < output_size_m s"
  shows "spec_y nn s q ! i =
         mat_vec (Why_m s) (spec_hprev nn s (spec_Lookup (lookup_layer_m s) q) (length q)) ! i
         + by_m s ! i"
proof -
  have "Suc (length q - 1) = length q" using q by simp
  then have h: "spec_h nn s (spec_Lookup (lookup_layer_m s) q) (length q - 1) =
                spec_hprev nn s (spec_Lookup (lookup_layer_m s) q) (length q)"
    by (simp add: spec_h_def del: spec_hprev.simps)
  have "rows (Why_m s) = output_size_m s" "length (by_m s) = output_size_m s"
    using sh by (simp_all add: shapes_ok_def has_shape_def)
  then show ?thesis
    using i h by (simp add: spec_y_def del: spec_hprev.simps)
qed

lemma length_spec_y:
  "shapes_ok s \<Longrightarrow> length (spec_y nn s q) = output_size_m s"
  by (simp add: spec_y_def shapes_ok_def has_shape_def)

lemma forward_loss_eq:
  assumes sh: "shapes_ok s" and ok: "list_all (wid_ok (lookup_layer_m s)) q" and q: "q \<noteq> []"
    and l: "l < output_size_m s"
  shows "forward_loss nn s q l =
         ln (\<Sum>i<output_size_m s. exp (spec_y nn s q ! i)) - spec_y nn s q ! l"
proof -
  let ?y = "spec_y nn s q"
  have len: "length ?y = output_size_m s"
    using sh by (rule length_spec_y)
  then have ne: "?y \<noteq> []" using l by auto
  have "p_m (spec_Forward nn s q) ! l = exp (?y ! l - LogSumExp ?y)"
    using l len by (simp add: spec_Forward_def spec_p_def Let_def)
  then have "forward_loss nn s q l = LogSumExp ?y - ?y ! l"
    using ok q by (simp add: forward_loss_def RunForwardPass_eq loss_def)
  then show ?thesis
    by (simp add: LogSumExp_eq [OF ne] len)
qed

lemma p_m_component:
  assumes sh: "shapes_ok s" and i: "i < output_size_m s"
  shows "p_m (spec_Forward nn s q) ! i =
         exp (spec_y nn s q ! i) / (\<Sum>j<output_size_m s. exp (spec_y nn s q ! j))"
proof -
  let ?y = "spec_y nn s q"
  have len: "length ?y = output_size_m s"
    using sh by (rule length_spec_y)
  then have ne: "?y \<noteq> []" using i by auto
  have pos: "0 < (\<Sum>j<output_size_m s. exp (?y ! j))"
    by (rule sum_pos) (use i in auto)
  have "p_m (spec_Forward nn s q) ! i = exp (?y ! i - LogSumExp ?y)"
    using i len by (simp add: spec_Forward_def spec_p_def Let_def)
  also have "\<dots> = exp (?y ! i) / exp (ln (\<Sum>j<output_size_m s. exp (?y ! j)))"
    by (simp add: exp_diff LogSumExp_eq [OF ne] len)
  finally show ?thesis
    using pos by simp
qed

lemma DERIV_spec_y:
  assumes sh: "shapes_ok s0" and ts: "tangent_shapes s0 \<delta>"
    and sm: "smooth_activation nn (activation_function_m s0) f d"
    and ok: "list_all (wid_ok (lookup_layer_m s0)) q" and q: "q \<noteq> []"
    and i: "i < output_size_m s0"
  shows "((\<lambda>w. spec_y nn (perturb s0 \<delta> w) q ! i) has_real_derivative
            tangent_y nn (spec_Forward nn s0 q) \<delta> (length q) ! i) (at 0)"
proof -
  let ?C = "output_size_m s0" and ?H = "hidden_size_m s0" and ?T = "length q"
  let ?X = "spec_Lookup (lookup_layer_m s0) q"
  let ?s = "spec_Forward nn s0 q"
  let ?hp = "\<lambda>w. spec_hprev nn (perturb s0 \<delta> w) ?X ?T"
  let ?Dhp = "tangent_hprev nn ?s \<delta> ?T"
  have SH: "has_shape (Why_m s0) ?C ?H" "length (by_m s0) = ?C"
    using sh by (simp_all add: shapes_ok_def)
  have TS: "has_shape (Why_t \<delta>) ?C ?H" "length (by_t \<delta>) = ?C"
    using ts by (simp_all add: tangent_shapes_def)
  have hp: "((\<lambda>w. ?hp w ! j) has_real_derivative ?Dhp ! j) (at 0)" if "j < ?H" for j
    using sh ts sm ok le_refl that by (rule DERIV_spec_hprev)
  have hp0: "?hp 0 = columns (h_m ?s) ! (?T - 1)"
    using q hprev_at_spec_Forward [where n = "length q" and q = q and nn = nn and s = s0]
    by (simp add: perturb_0 [OF sh ts] hprev_at_def)
  have 1: "((\<lambda>w. mat_vec (Why_m (perturb s0 \<delta> w)) (?hp w) ! i) has_real_derivative
             (mat_vec (Why_t \<delta>) (?hp 0) ! i + mat_vec (Why_m s0) ?Dhp ! i)) (at 0)"
    using DERIV_mat_vec_perturbed [OF SH(1) TS(1) i, of ?hp ?Dhp] hp
    by (simp add: perturb_def)
  have 2: "((\<lambda>w. by_m (perturb s0 \<delta> w) ! i) has_real_derivative by_t \<delta> ! i) (at 0)"
    unfolding perturb_def using DERIV_vadd_perturbed [OF SH(2) TS(2) i] by simp
  have "((\<lambda>w. mat_vec (Why_m (perturb s0 \<delta> w)) (?hp w) ! i + by_m (perturb s0 \<delta> w) ! i)
          has_real_derivative
            (mat_vec (Why_t \<delta>) (?hp 0) ! i + mat_vec (Why_m s0) ?Dhp ! i) + by_t \<delta> ! i) (at 0)"
    using 1 2 by (rule DERIV_add)
  moreover have "spec_y nn (perturb s0 \<delta> w) q ! i =
        mat_vec (Why_m (perturb s0 \<delta> w)) (?hp w) ! i + by_m (perturb s0 \<delta> w) ! i" for w
    using spec_y_component [OF shapes_ok_perturb [OF sh ts, of w] q, where i = i and nn = nn] i
    by simp
  moreover have "tangent_y nn ?s \<delta> ?T ! i =
        (mat_vec (Why_t \<delta>) (?hp 0) ! i + mat_vec (Why_m s0) ?Dhp ! i) + by_t \<delta> ! i"
  proof -
    have "rows (Why_t \<delta>) = ?C" "rows (Why_m s0) = ?C"
      using SH TS by (simp_all add: has_shape_def)
    then show ?thesis
      using i TS(2) by (simp add: tangent_y_def hp0)
  qed
  ultimately show ?thesis
    by simp
qed

text \<open>
  The derivative of the loss along any direction \<open>\<delta>\<close> of the parameters \<open>Wxh\<close>, \<open>Whh\<close>,
  \<open>Why\<close>, \<open>bh\<close>, \<open>by\<close>, \<open>h0\<close>: the pairing of \<open>\<delta>\<close> with the accumulators of the backward
  pass, plus the term \<open>draw\<^sub>0\<cdot>(\<delta>Whh\<cdot>h_prev\<^sub>0)\<close> that the backward pass leaves out of
  \<open>dWhh\<close>.
\<close>

lemma loss_gradient:
  assumes sh: "shapes_ok s0" and ts: "tangent_shapes s0 \<delta>"
    and sm: "smooth_activation nn (activation_function_m s0) f d"
    and ok: "list_all (wid_ok (lookup_layer_m s0)) q" and q: "q \<noteq> []"
    and l: "l < output_size_m s0"
  shows "((\<lambda>w. forward_loss nn (perturb s0 \<delta> w) q l) has_real_derivative
            (code_pairing (spec_Forward nn s0 q)
               (spec_BPTT nn (spec_Forward nn s0 q) (length q) l) \<delta>
             + vdot (draw_0 nn (spec_Forward nn s0 q) (length q) l)
                    (mat_vec (Whh_t \<delta>) (hprev_at (spec_Forward nn s0 q) 0)))) (at 0)"
proof -
  let ?C = "output_size_m s0" and ?T = "length q"
  let ?s = "spec_Forward nn s0 q"
  let ?Y = "\<lambda>w i. spec_y nn (perturb s0 \<delta> w) q ! i"
  let ?Dy = "tangent_y nn ?s \<delta> ?T"
  let ?S = "\<Sum>j<?C. exp (?Y 0 j)"
  note kl = smooth_keeps_length [OF sm]
  have C: "0 < ?C" using l by simp
  have T: "0 < ?T" using q by simp
  have Y: "((\<lambda>w. ?Y w i) has_real_derivative ?Dy ! i) (at 0)" if "i < ?C" for i
    using sh ts sm ok q that by (rule DERIV_spec_y)
  have "((\<lambda>w. ln (\<Sum>i<?C. exp (?Y w i)) - ?Y w l) has_real_derivative
            (\<Sum>i<?C. exp (?Y 0 i) / ?S * ?Dy ! i) - ?Dy ! l) (at 0)"
    using C l Y by (rule DERIV_log_sum_exp)
  moreover have "forward_loss nn (perturb s0 \<delta> w) q l =
                 ln (\<Sum>i<?C. exp (?Y w i)) - ?Y w l" for w
    using forward_loss_eq [OF shapes_ok_perturb [OF sh ts, of w], where q = q and l = l and nn = nn]
      ok q l by simp
  ultimately have D: "((\<lambda>w. forward_loss nn (perturb s0 \<delta> w) q l) has_real_derivative
            (\<Sum>i<?C. exp (?Y 0 i) / ?S * ?Dy ! i) - ?Dy ! l) (at 0)"
    by simp
  have p: "length (p_m ?s) = ?C"
    using sh by (simp add: spec_Forward_trace shapes_ok_def has_shape_def)
  have "vdot ((p_m ?s)[l := p_m ?s ! l - 1]) ?Dy = (\<Sum>i<?C. p_m ?s ! i * ?Dy ! i) - ?Dy ! l"
    using vdot_decrement [where l = l and p = "p_m ?s" and v = ?Dy] l p by simp
  also have "(\<Sum>i<?C. p_m ?s ! i * ?Dy ! i) = (\<Sum>i<?C. exp (?Y 0 i) / ?S * ?Dy ! i)"
    by (rule sum.cong) (simp_all add: p_m_component [OF sh] perturb_0 [OF sh ts])
  finally have dy: "(\<Sum>i<?C. exp (?Y 0 i) / ?S * ?Dy ! i) - ?Dy ! l =
                    vdot ((p_m ?s)[l := p_m ?s ! l - 1]) ?Dy"
    by simp
  have tr: "trace_shapes ?s ?T"
    using sh kl(1) ok by (rule trace_shapes_spec_Forward)
  have "vdot ((p_m ?s)[l := p_m ?s ! l - 1]) ?Dy =
        code_pairing ?s (spec_BPTT nn ?s ?T l) \<delta>
        + vdot (draw_0 nn ?s ?T l) (mat_vec (Whh_t \<delta>) (hprev_at ?s 0))"
    by (rule adjoint_total) (use sh tr T kl(2) ts in simp_all)
  then show ?thesis
    using D by (simp only: dy)
qed

lemma mat_vec_Vector_Zero:
  "has_shape A r c \<Longrightarrow> mat_vec A (Vector_Zero c) = Vector_Zero r"
  by (simp add: mat_vec_def has_shape_def list_eq_iff_nth_eq)

lemma mat_vec_Matrix_Zero: "mat_vec (Matrix_Zero r c) v = Vector_Zero r"
  by (simp add: mat_vec_def list_eq_iff_nth_eq coeff_Matrix_Zero)

text \<open>
  So the accumulators are the gradient of the loss whenever that term vanishes: when the
  initial state is not learned, when \<open>h0\<close> is zero (as after \<open>InitializeParameters\<close>),
  and along every direction that leaves \<open>Whh\<close> alone.
\<close>

lemma loss_gradient_exact:
  assumes sh: "shapes_ok s0" and ts: "tangent_shapes s0 \<delta>"
    and sm: "smooth_activation nn (activation_function_m s0) f d"
    and ok: "list_all (wid_ok (lookup_layer_m s0)) q" and q: "q \<noteq> []"
    and l: "l < output_size_m s0"
    and z: "\<not> use_hidden_start_m s0 \<or> h0_m s0 = Vector_Zero (hidden_size_m s0)
            \<or> Whh_t \<delta> = Matrix_Zero (hidden_size_m s0) (hidden_size_m s0)"
  shows "((\<lambda>w. forward_loss nn (perturb s0 \<delta> w) q l) has_real_derivative
            code_pairing (spec_Forward nn s0 q)
               (spec_BPTT nn (spec_Forward nn s0 q) (length q) l) \<delta>) (at 0)"
proof -
  let ?H = "hidden_size_m s0"
  let ?s = "spec_Forward nn s0 q"
  have TS: "has_shape (Whh_t \<delta>) ?H ?H"
    using ts by (simp add: tangent_shapes_def)
  have r: "rows (Whh_m s0) = ?H"
    using sh by (simp add: shapes_ok_def has_shape_def)
  have "mat_vec (Whh_t \<delta>) (hprev_at ?s 0) = Vector_Zero ?H"
    using z
  proof (elim disjE)
    assume "\<not> use_hidden_start_m s0"
    then show ?thesis
      using mat_vec_Vector_Zero [OF TS] by (simp add: hprev_at_def r)
  next
    assume "h0_m s0 = Vector_Zero ?H"
    then show ?thesis
      using mat_vec_Vector_Zero [OF TS] by (simp add: hprev_at_def r)
  next
    assume "Whh_t \<delta> = Matrix_Zero ?H ?H"
    then show ?thesis
      by (simp add: mat_vec_Matrix_Zero)
  qed
  moreover have "vdot (draw_0 nn ?s (length q) l) (Vector_Zero ?H) = 0"
  proof -
    note kl = smooth_keeps_length [OF sm]
    have tr: "trace_shapes ?s (length q)"
      using sh kl(1) ok by (rule trace_shapes_spec_Forward)
    have "gradient_shapes ?s (length q) (before_last_step nn ?s (length q) l)"
      unfolding before_last_step_def
      by (rule gradient_shapes_fold_from)
         (use sh tr kl(2) q in \<open>simp_all add: gradient_shapes_seed\<close>)
    then have "length (dhnext (before_last_step nn ?s (length q) l)) = ?H"
      by (simp add: gradient_shapes_def)
    moreover have "length (columns (h_m ?s) ! 0) = ?H"
      using trace_shapes_columns(1) [OF tr, of 0] q by simp
    ultimately have "length (draw_0 nn ?s (length q) l) = ?H"
      using kl(2) by (simp add: draw_0_def keeps_length_derivative_def)
    then show ?thesis
      by (rule vdot_Vector_Zero_right)
  qed
  ultimately show ?thesis
    using loss_gradient [OF sh ts sm ok q l] by simp
qed

lemma smooth_activation_logistic:
  "smooth_activation logistic_nn kind logistic (\<lambda>a. a * (1 - a))"
  by (simp add: smooth_activation_def logistic_nn_def logistic_deriv)

text \<open>
  The same on the functions of the source: after a forward pass that returned, the
  backward pass returns accumulators whose pairing with a direction is the derivative of
  the loss along it, up to the term left out of \<open>dWhh\<close>.
\<close>

lemma RunBackwardPass_gradients_loss:
  assumes sh: "shapes_ok s0" and ts: "tangent_shapes s0 \<delta>"
    and sm: "smooth_activation nn (activation_function_m s0) f d"
    and fw: "RunForwardPass nn s0 q = Inr s"
    and l: "0 \<le> l" "l < int (output_size_m s0)"
  shows "\<exists>g. RunBackwardPass_gradients nn s q l = Inr g
           \<and> ((\<lambda>w. forward_loss nn (perturb s0 \<delta> w) q (nat l)) has_real_derivative
                 (code_pairing s g \<delta>
                  + vdot (draw_0 nn s (length q) (nat l))
                         (mat_vec (Whh_t \<delta>) (hprev_at s 0)))) (at 0)"
proof -
  note F = RunForwardPass_Inr [OF fw]
  note kl = smooth_keeps_length [OF sm]
  have nl: "nat l < output_size_m s0"
    using l by simp
  have "RunBackwardPass_gradients nn s q l = Inr (spec_BPTT nn s (length q) (nat l))"
    unfolding F(1) using sh kl(1) F(2) l by (rule RunBackwardPass_gradients_eq)
  moreover note loss_gradient [OF sh ts sm F(3) F(2) nl, folded F(1)]
  ultimately show ?thesis
    by simp
qed

subsection \<open>The gradient of \<open>Whh\<close> with a learned initial state\<close>

text \<open>
  C2 fails on the code, by the term that \<open>loss_gradient\<close> shows. The cell
  \<open>trained_cell\<close> has one hidden unit, two classes and a learned initial state
  \<open>h0 = [1]\<close>; the sequence has one token and the label is \<open>0\<close>. The forward pass
  returns, and the backward pass leaves the accumulator \<open>dWhh\<close> at zero, because its only
  step is \<open>t = 0\<close>, where nothing is added to \<open>dWhh\<close>. But the loss \<open>-log p[0]\<close> of the
  forward pass, as a function of the coefficient \<open>Whh(0,0)\<close>, has the derivative
  \<open>-(1/4) / (exp(1/2) + 1)\<close> there, which is not zero: the hidden state of step \<open>0\<close>
  depends on \<open>Whh\<close> through \<open>Whh\<cdot>h0\<close>.
\<close>

theorem C2_dWhh_misses_initial_state:
  "RunForwardPass logistic_nn trained_cell [Input 0]
     = Inr (spec_Forward logistic_nn trained_cell [Input 0])
   \<and> (\<exists>g. RunBackwardPass_gradients logistic_nn
              (spec_Forward logistic_nn trained_cell [Input 0]) [Input 0] 0 = Inr g
          \<and> coeff (dWhh g) 0 0 = 0)
   \<and> with_Whh trained_cell 0 0 (coeff (Whh_m trained_cell) 0 0) = trained_cell
   \<and> ((\<lambda>w. forward_loss logistic_nn (with_Whh trained_cell 0 0 w) [Input 0] 0)
        has_real_derivative - (1 / 4) / (exp (1 / 2) + 1)) (at (coeff (Whh_m trained_cell) 0 0))
   \<and> - (1 / 4) / (exp (1 / 2) + 1) < (0::real)"
proof (intro conjI)
  show "RunForwardPass logistic_nn trained_cell [Input 0]
     = Inr (spec_Forward logistic_nn trained_cell [Input 0])"
    by (simp add: RunForwardPass_eq trained_cell_def wid_ok_def cols_def)
next
  let ?s = "spec_Forward logistic_nn trained_cell [Input 0]"
  have ne: "[Input 0] \<noteq> []" by simp
  have l: "(0::int) \<le> 0" "0 < int (output_size_m trained_cell)"
    by (simp_all add: trained_cell_def)
  have "RunBackwardPass_gradients logistic_nn ?s [Input 0] 0 =
        Inr (spec_BPTT logistic_nn ?s (length [Input 0]) (nat 0))"
    using trained_shapes_ok logistic_nn_keeps_length ne l by (rule RunBackwardPass_gradients_eq)
  moreover have "dWhh (spec_BPTT logistic_nn ?s (length [Input 0]) (nat 0)) =
        Matrix_Zero (rows (Whh_m ?s)) (cols (Whh_m ?s))"
    using dWhh_single_step [of logistic_nn ?s "nat 0"] by simp
  then have "coeff (dWhh (spec_BPTT logistic_nn ?s (length [Input 0]) (nat 0))) 0 0 = 0"
    by (simp add: trained_cell_def Matrix_Zero_def Vector_Zero_def coeff_def cols_def)
  ultimately show "\<exists>g. RunBackwardPass_gradients logistic_nn ?s [Input 0] 0 = Inr g
          \<and> coeff (dWhh g) 0 0 = 0"
    by blast
next
  show "with_Whh trained_cell 0 0 (coeff (Whh_m trained_cell) 0 0) = trained_cell"
    by (simp add: with_Whh_def trained_cell_def set_coeff_def coeff_def)
next
  have w0: "coeff (Whh_m trained_cell) 0 0 = 0"
    by (simp add: trained_cell_def coeff_def)
  have f: "(\<lambda>w. forward_loss logistic_nn (with_Whh trained_cell 0 0 w) [Input 0] 0) =
           (\<lambda>w. ln (exp (logistic w) + 1) - logistic w)"
    by (rule ext) (rule trained_loss)
  have "- (logistic 0 * (1 - logistic 0)) / (exp (logistic 0) + 1) = - (1 / 4) / (exp (1 / 2) + 1)"
    by (simp add: logistic_0)
  then show "((\<lambda>w. forward_loss logistic_nn (with_Whh trained_cell 0 0 w) [Input 0] 0)
        has_real_derivative - (1 / 4) / (exp (1 / 2) + 1)) (at (coeff (Whh_m trained_cell) 0 0))"
    unfolding f w0 using trained_loss_deriv [of 0] by simp
next
  have "0 < exp (1 / 2 :: real) + 1"
    by (simp add: add_pos_pos)
  then show "- (1 / 4) / (exp (1 / 2) + 1) < (0::real)"
    by (simp add: divide_neg_pos)
qed

end
